(* ===== verification/Prelude.thy ===== *)
theory Prelude
  imports Main "HOL-Library.Word" "HOL-Library.AList" "HOL-Library.List_Lexorder"
begin

text \<open>
  The vocabulary shared by every theory of the development: Go's machine types, byte strings,
  results, maps as association lists with distinct keys, the fact collections the component
  proofs are driven by, and the generic lemmas several components need.

  A Go \<open>string\<close> and a Go \<open>[]byte\<close> are both byte sequences, so both are \<open>byte list\<close> here and the
  conversions between them are the identity. \<open>str\<close> turns a literal into its bytes.
  A signed 64-bit integer is kept as its bit pattern (\<open>i64\<close>); \<open>sint\<close> reads it.
\<close>

unbundle bit_operations_syntax

section \<open>Machine types\<close>

type_synonym byte = "8 word"
type_synonym u16 = "16 word"
type_synonym u32 = "32 word"
type_synonym i32 = "32 word"
type_synonym u64 = "64 word"
type_synonym i64 = "64 word"
type_synonym gostring = "byte list"

definition str :: "string \<Rightarrow> gostring" where
  "str s = map of_char s"

lemma str_Nil [simp]: "str '''' = []"
  by (simp add: str_def)

lemma str_Cons [simp]: "str (c # cs) = of_char c # str cs"
  by (simp add: str_def)

lemma length_str [simp]: "length (str s) = length s"
  by (simp add: str_def)

section \<open>Results and fact collections\<close>

text \<open>A Go call that returns \<open>(v, err)\<close> is a sum: \<open>Inl\<close> the error, \<open>Inr\<close> the value.\<close>

named_theorems emits_intros \<open>what a backward buffer writer leaves in the buffer\<close>
named_theorems step_simps \<open>decoder steps on encoded input\<close>
named_theorems inv_intros \<open>operations preserve their component's invariant\<close>

section \<open>Go maps\<close>

text \<open>
  A Go map that is iterated or counted is an association list with distinct keys, whose order is
  the (unspecified) iteration order of the map: \<open>map_of m k\<close> looks up, \<open>AList.update\<close> stores,
  \<open>AList.delete\<close> removes and \<open>length m\<close> is \<open>len(m)\<close>.
\<close>

type_synonym ('k, 'v) gomap = "('k \<times> 'v) list"

definition gomap_ok :: "('k, 'v) gomap \<Rightarrow> bool" where
  "gomap_ok m \<longleftrightarrow> distinct (map fst m)"

lemma gomap_ok_Nil [simp, inv_intros]: "gomap_ok []"
  by (simp add: gomap_ok_def)

lemma gomap_ok_update [inv_intros]: "gomap_ok m \<Longrightarrow> gomap_ok (AList.update k v m)"
  by (simp add: gomap_ok_def distinct_update)

lemma gomap_ok_delete [inv_intros]: "gomap_ok m \<Longrightarrow> gomap_ok (AList.delete k m)"
  by (simp add: gomap_ok_def distinct_delete)

lemma gomap_lookup_update [simp]:
  "map_of (AList.update k v m) k' = (if k' = k then Some v else map_of m k')"
  by (simp add: update_conv')

lemma gomap_lookup_delete [simp]:
  "map_of (AList.delete k m) k' = (if k' = k then None else map_of m k')"
  by (simp add: delete_conv')

lemma gomap_length: "gomap_ok m \<Longrightarrow> length m = card (dom (map_of m))"
  unfolding gomap_ok_def dom_map_of_conv_image_fst
  by (metis distinct_card length_map set_map)

lemma gomap_update_same: "map_of m k = Some v \<Longrightarrow> gomap_ok m \<Longrightarrow> AList.update k v m = m"
  by (induction m) (auto simp: gomap_ok_def split: if_splits)

lemma length_update_new: "k \<notin> fst ` set m \<Longrightarrow> length (AList.update k v m) = Suc (length m)"
  by (induction m) auto

lemma length_update_old: "k \<in> fst ` set m \<Longrightarrow> length (AList.update k v m) = length m"
  by (induction m) auto

lemma update_fresh_append: "k \<notin> fst ` set m \<Longrightarrow> AList.update k v m = m @ [(k, v)]"
  by (induction m) auto

lemma length_delete_in:
  "gomap_ok m \<Longrightarrow> k \<in> fst ` set m \<Longrightarrow> Suc (length (AList.delete k m)) = length m"
  by (induction m) (auto simp: gomap_ok_def)

section \<open>Words\<close>

lemma word_less_bit: "w < 2 ^ n \<Longrightarrow> bit w k \<Longrightarrow> k < n" for w :: "'a::len word"
  by (metis bit_and_iff bit_mask_iff less_mask_eq)

lemma of_nat_eq_word: "k < 2 ^ LENGTH('a) \<Longrightarrow> of_nat k = w \<longleftrightarrow> unat w = k" for w :: "'a::len word"
  using of_nat_inverse [of k w] by auto

section \<open>Lists\<close>

lemma take_add_drop: "take (a + b) xs = take a xs @ take b (drop a xs)"
  by (rule take_add)

lemma nth_drop_hd: "i < length xs \<Longrightarrow> drop i xs = xs ! i # drop (Suc i) xs"
  by (rule Cons_nth_drop_Suc [symmetric])

lemma drop_eq_append_length: "drop i xs = ys @ zs \<Longrightarrow> ys \<noteq> [] \<Longrightarrow> i < length xs"
  by (rule ccontr) simp

lemma drop_append_drop: "drop i xs = ys @ zs \<Longrightarrow> drop (i + length ys) xs = zs"
  by (metis add.commute append_eq_conv_conj drop_drop)

lemma drop_append_take: "drop i xs = ys @ zs \<Longrightarrow> take (length ys) (drop i xs) = ys"
  by simp

end
