(* ===== verification/GoLib.thy ===== *)
theory GoLib
  imports Prelude
begin

text \<open>
  The part of Go's standard library the modelled code calls: \<open>strings\<close> and \<open>bytes\<close> (prefixes,
  splitting, joining, trimming, case) and \<open>strconv\<close> (\<open>Atoi\<close>, \<open>FormatInt\<close>); \<open>path/filepath\<close> is in
  theory \<open>Paths\<close>.
  Only \<open>strings.ToLower\<close> on non-ASCII text is left open: its Unicode table is an argument.
\<close>

section \<open>strings and bytes\<close>

fun has_prefix :: "gostring \<Rightarrow> gostring \<Rightarrow> bool" where
  "has_prefix s [] = True"
| "has_prefix [] (p # ps) = False"
| "has_prefix (c # s) (p # ps) = (c = p \<and> has_prefix s ps)"

lemma has_prefix_iff: "has_prefix s p \<longleftrightarrow> (\<exists>t. s = p @ t)"
  by (induction s p rule: has_prefix.induct) auto

lemma has_prefix_take: "has_prefix s p \<longleftrightarrow> take (length p) s = p"
  by (induction s p rule: has_prefix.induct) auto

lemma has_prefix_append [simp]: "has_prefix (p @ t) p"
  by (auto simp: has_prefix_iff)

definition trim_prefix :: "gostring \<Rightarrow> gostring \<Rightarrow> gostring" where
  "trim_prefix s p = (if has_prefix s p then drop (length p) s else s)"

text \<open>\<open>strings.Split\<close> / \<open>bytes.Split\<close> on a one-byte separator: never empty.\<close>

fun split_on :: "byte \<Rightarrow> gostring \<Rightarrow> gostring list" where
  "split_on c [] = [[]]"
| "split_on c (x # xs) =
     (if x = c then [] # split_on c xs
      else (case split_on c xs of [] \<Rightarrow> [[x]] | p # ps \<Rightarrow> (x # p) # ps))"

lemma split_on_nonempty [simp]: "split_on c s \<noteq> []"
  by (induction s) (auto split: list.splits)

text \<open>\<open>strings.Join\<close> / \<open>bytes.Join\<close>.\<close>

fun join_with :: "gostring \<Rightarrow> gostring list \<Rightarrow> gostring" where
  "join_with sep [] = []"
| "join_with sep [p] = p"
| "join_with sep (p # ps) = p @ sep @ join_with sep ps"

lemma join_with_Cons: "ps \<noteq> [] \<Longrightarrow> join_with sep (p # ps) = p @ sep @ join_with sep ps"
  by (cases ps) auto

lemma join_split [simp]: "join_with [c] (split_on c s) = s"
proof (induction s)
  case (Cons x xs)
  then show ?case
    by (cases "split_on c xs"; cases "tl (split_on c xs)") (auto simp: join_with_Cons)
qed simp

lemma split_no_sep: "p \<in> set (split_on c s) \<Longrightarrow> c \<notin> set p"
proof (induction s arbitrary: p)
  case (Cons x xs)
  then show ?case
    by (cases "split_on c xs") (auto split: if_splits)
qed simp

lemma split_on_notin: "c \<notin> set p \<Longrightarrow> split_on c p = [p]"
  by (induction p) auto

lemma split_on_append_sep: "c \<notin> set p \<Longrightarrow> split_on c (p @ c # s) = p # split_on c s"
  by (induction p) auto

lemma split_join:
  "ps \<noteq> [] \<Longrightarrow> \<forall>p \<in> set ps. c \<notin> set p \<Longrightarrow> split_on c (join_with [c] ps) = ps"
proof (induction ps)
  case (Cons p ps)
  then show ?case
    by (cases ps) (auto simp: split_on_notin split_on_append_sep)
qed simp

lemma split_on_append_sep': "split_on c (s @ c # t) = split_on c s @ split_on c t"
proof (induction s)
  case (Cons x xs)
  then show ?case
    by (cases "split_on c xs") auto
qed simp

text \<open>\<open>strings.IndexByte\<close>, -1 when absent, and \<open>bytes.Cut\<close>.\<close>

fun index_byte :: "gostring \<Rightarrow> byte \<Rightarrow> int" where
  "index_byte [] c = - 1"
| "index_byte (x # xs) c =
     (if x = c then 0 else (let j = index_byte xs c in if j < 0 then - 1 else j + 1))"

fun cut :: "gostring \<Rightarrow> byte \<Rightarrow> gostring \<times> gostring" where
  "cut [] c = ([], [])"
| "cut (x # xs) c = (if x = c then ([], xs) else (let (l, r) = cut xs c in (x # l, r)))"

lemma cut_rest_length: "length (snd (cut s c)) \<le> length s"
  by (induction s) (auto split: prod.splits)

lemma cut_rest_shorter: "s \<noteq> [] \<Longrightarrow> length (snd (cut s c)) < length s"
  by (cases s) (auto simp: case_prod_beta cut_rest_length le_imp_less_Suc)

lemma cut_split: "cut s c = (hd (split_on c s), join_with [c] (tl (split_on c s)))"
proof (induction s)
  case (Cons x xs)
  then show ?case
    using join_split [of c xs] by (cases "split_on c xs") auto
qed simp

text \<open>
  \<open>TrimSpace\<close>: the Unicode white space of \<open>unicode.IsSpace\<close>, each as its UTF-8 bytes. UTF-8 is
  self-synchronising, so the last rune is white space exactly when the string ends in one of
  these byte sequences.
\<close>

definition spaces :: "gostring list" where
  "spaces = [[9], [10], [11], [12], [13], [32], [0xC2, 0x85], [0xC2, 0xA0], [0xE1, 0x9A, 0x80],
     [0xE2, 0x80, 0x80], [0xE2, 0x80, 0x81], [0xE2, 0x80, 0x82], [0xE2, 0x80, 0x83],
     [0xE2, 0x80, 0x84], [0xE2, 0x80, 0x85], [0xE2, 0x80, 0x86], [0xE2, 0x80, 0x87],
     [0xE2, 0x80, 0x88], [0xE2, 0x80, 0x89], [0xE2, 0x80, 0x8A], [0xE2, 0x80, 0xA8],
     [0xE2, 0x80, 0xA9], [0xE2, 0x80, 0xAF], [0xE2, 0x81, 0x9F], [0xE3, 0x80, 0x80]]"

fun trim_front :: "nat \<Rightarrow> gostring list \<Rightarrow> gostring \<Rightarrow> gostring" where
  "trim_front 0 ws s = s"
| "trim_front (Suc n) ws s =
     (case find (has_prefix s) ws of None \<Rightarrow> s | Some w \<Rightarrow> trim_front n ws (drop (length w) s))"

definition trim_left_space :: "gostring \<Rightarrow> gostring" where
  "trim_left_space s = trim_front (length s) spaces s"

definition trim_right_space :: "gostring \<Rightarrow> gostring" where
  "trim_right_space s = rev (trim_front (length s) (map rev spaces) (rev s))"

definition trim_space :: "gostring \<Rightarrow> gostring" where
  "trim_space s = trim_right_space (trim_left_space s)"

text \<open>
  \<open>strings.ToLower\<close>: ASCII strings byte by byte; any other string goes through the Unicode
  tables, the argument \<open>uni\<close>.
\<close>

definition lower_byte :: "byte \<Rightarrow> byte" where
  "lower_byte b = (if 65 \<le> b \<and> b \<le> 90 then b + 32 else b)"

definition to_lower :: "(gostring \<Rightarrow> gostring) \<Rightarrow> gostring \<Rightarrow> gostring" where
  "to_lower uni s = (if list_all (\<lambda>b. b < 0x80) s then map lower_byte s else uni s)"

text \<open>\<open>strings.Contains\<close>.\<close>

fun contains :: "gostring \<Rightarrow> gostring \<Rightarrow> bool" where
  "contains [] sub = (sub = [])"
| "contains (x # xs) sub = (has_prefix (x # xs) sub \<or> contains xs sub)"

section \<open>strconv\<close>

definition is_digit :: "byte \<Rightarrow> bool" where
  "is_digit b \<longleftrightarrow> 48 \<le> b \<and> b \<le> 57"

fun dec_value :: "nat \<Rightarrow> gostring \<Rightarrow> nat" where
  "dec_value acc [] = acc"
| "dec_value acc (c # cs) = dec_value (10 * acc + (unat c - 48)) cs"

text \<open>\<open>strconv.Atoi\<close>; an error is \<open>None\<close>.\<close>

definition atoi :: "gostring \<Rightarrow> int option" where
  "atoi s =
     (let neg = (s \<noteq> [] \<and> hd s = 45);
          ds = (if s \<noteq> [] \<and> (hd s = 45 \<or> hd s = 43) then tl s else s);
          v = (if neg then - int (dec_value 0 ds) else int (dec_value 0 ds))
      in if ds = [] \<or> \<not> list_all is_digit ds then None
         else if v < - (2 ^ 63) \<or> 2 ^ 63 \<le> v then None
         else Some v)"

text \<open>\<open>strconv.FormatInt(i, 10)\<close>.\<close>

fun nat_digits :: "nat \<Rightarrow> gostring" where
  "nat_digits n = (if n < 10 then [of_nat (48 + n)] else nat_digits (n div 10) @ [of_nat (48 + n mod 10)])"

declare nat_digits.simps [simp del]

definition format_int :: "i64 \<Rightarrow> gostring" where
  "format_int i = (if sint i < 0 then 45 # nat_digits (nat (- sint i)) else nat_digits (nat (sint i)))"

lemma unat_digit_byte: "k < 10 \<Longrightarrow> unat (48 + of_nat k :: byte) = 48 + k"
proof -
  assume "k < 10"
  then have "unat (of_nat (48 + k) :: byte) = 48 + k"
    unfolding unat_of_nat by simp
  then show ?thesis by simp
qed

lemma nat_digits_bytes: "b \<in> set (nat_digits n) \<Longrightarrow> is_digit b"
proof (induction n rule: nat_digits.induct)
  case (1 n)
  have digit: "is_digit (of_nat (48 + k))" if "k < 10" for k
    using that by (simp add: is_digit_def word_le_nat_alt unat_digit_byte)
  show ?case
    using "1.prems" "1.IH" digit [of n] digit [of "n mod 10"]
    by (subst (asm) nat_digits.simps) (auto split: if_splits)
qed

lemma nat_digits_nonempty [simp]: "nat_digits n \<noteq> []"
  by (subst nat_digits.simps) simp

lemma dec_value_append: "dec_value acc (xs @ ys) = dec_value (dec_value acc xs) ys"
  by (induction xs arbitrary: acc) auto

lemma dec_value_nat_digits: "dec_value 0 (nat_digits n) = n"
proof (induction n rule: nat_digits.induct)
  case (1 n)
  have d: "unat (of_nat (48 + k) :: byte) - 48 = k" if "k < 10" for k
    using that by (simp add: unat_digit_byte)
  show ?case
    using 1 d [of n] d [of "n mod 10"]
    by (subst nat_digits.simps) (auto simp: dec_value_append)
qed

lemma nat_digits_inj: "nat_digits m = nat_digits n \<Longrightarrow> m = n"
  by (metis dec_value_nat_digits)

lemma nat_digits_no_sign: "hd (nat_digits n) \<noteq> 45" "hd (nat_digits n) \<noteq> 43"
  using nat_digits_bytes [of "hd (nat_digits n)" n] by (auto simp: is_digit_def)

lemma atoi_nat_digits: "n < 2 ^ 63 \<Longrightarrow> atoi (nat_digits n) = Some (int n)"
  by (auto simp: atoi_def Let_def nat_digits_no_sign dec_value_nat_digits list_all_iff
      dest: nat_digits_bytes)

lemma format_int_bytes: "b \<in> set (format_int i) \<Longrightarrow> is_digit b \<or> b = 45"
  by (auto simp: format_int_def dest: nat_digits_bytes split: if_splits)

lemma format_int_nonempty [simp]: "format_int i \<noteq> []"
  by (simp add: format_int_def)

lemma format_int_inj: "format_int i = format_int j \<Longrightarrow> i = j"
proof -
  assume eq: "format_int i = format_int j"
  have minus: "hd (nat_digits n) \<noteq> 45" for n
    using nat_digits_bytes [of "hd (nat_digits n)" n] by (auto simp: is_digit_def)
  have "sint i = sint j"
  proof (cases "sint i < 0"; cases "sint j < 0")
    assume "sint i < 0" "sint j < 0"
    with eq show ?thesis
      by (auto simp: format_int_def dest!: nat_digits_inj)
  next
    assume "\<not> sint i < 0" "\<not> sint j < 0"
    with eq show ?thesis
      by (auto simp: format_int_def dest!: nat_digits_inj)
  next
    assume "sint i < 0" "\<not> sint j < 0"
    with eq minus [of "nat (sint j)"] show ?thesis
      by (auto simp: format_int_def dest: arg_cong [of _ _ hd])
  next
    assume "\<not> sint i < 0" "sint j < 0"
    with eq minus [of "nat (sint i)"] show ?thesis
      by (auto simp: format_int_def dest: arg_cong [of _ _ hd])
  qed
  then show ?thesis by (rule signed_word_eqI)
qed

end
