(* ===== verification/Ids.thy ===== *)
theory Ids
  imports GoLib
begin

text \<open>
  Identifiers (\<open>pkg/id/id.go\<close>). An identifier is a 64-bit snowflake whose bits 12 to 21 hold the
  node that made it; \<open>Author\<close> reads them back and \<open>getNodeID\<close> chooses this node's number from the
  environment or from the first usable network interface. The snowflake generator and the hash
  are third-party code: the generator appears through its documented bit layout only, the hash
  is the argument \<open>xxhash\<close>.
\<close>

definition nodeIDCount :: int where
  "nodeIDCount = 1024"

definition nodeIDMask :: i64 where
  "nodeIDMask = 1023"

definition Author :: "i64 \<Rightarrow> i64" where
  "Author i = (signed_drop_bit 12 i) AND nodeIDMask"

definition Mine :: "i64 \<Rightarrow> i64 \<Rightarrow> bool" where
  "Mine myID i \<longleftrightarrow> Author i = myID"

text \<open>Go's \<open>%\<close> truncates towards zero: the result has the sign of the dividend.\<close>

definition go_rem :: "int \<Rightarrow> int \<Rightarrow> int" where
  "go_rem a b = sgn a * (\<bar>a\<bar> mod \<bar>b\<bar>)"

text \<open>
  \<open>getNodeID\<close>: \<open>env\<close> is the value of \<open>BELPHEGOR_NODE_ID\<close> if set, \<open>ifaces\<close> the result of
  \<open>net.Interfaces()\<close> (\<open>None\<close> on error), each interface its up flag and hardware address.
\<close>

record iface =
  if_up :: bool
  if_hw :: "byte list"

definition hashed_node :: "(byte list \<Rightarrow> u64) \<Rightarrow> byte list \<Rightarrow> int" where
  "hashed_node xxhash hw = uint (xxhash hw mod 1024)"

fun node_from_ifaces :: "(byte list \<Rightarrow> u64) \<Rightarrow> iface list \<Rightarrow> int" where
  "node_from_ifaces xxhash [] = 1"
| "node_from_ifaces xxhash (i # is) =
     (if if_up i \<and> if_hw i \<noteq> [] then hashed_node xxhash (if_hw i) else node_from_ifaces xxhash is)"

definition getNodeID ::
  "(byte list \<Rightarrow> u64) \<Rightarrow> gostring option \<Rightarrow> iface list option \<Rightarrow> int" where
  "getNodeID xxhash env ifaces =
     (case Option.bind env atoi of
        Some n \<Rightarrow>
          (let nid = go_rem n nodeIDCount in if nid < 0 then nid + nodeIDCount else nid)
      | None \<Rightarrow>
          (case ifaces of None \<Rightarrow> 1 | Some is \<Rightarrow> node_from_ifaces xxhash is))"

text \<open>The documented layout of a snowflake: time, node, sequence number.\<close>

definition snowflake :: "u64 \<Rightarrow> u64 \<Rightarrow> u64 \<Rightarrow> i64" where
  "snowflake t node step = push_bit 22 t OR push_bit 12 node OR step"

text \<open>
  The generator: its snowflake node is made at the first use, and keeps its own state. \<open>NewNode\<close> gives
  nothing for a number it refuses, and then the code panics.
\<close>

definition nextID :: "(int \<Rightarrow> 'n option) \<Rightarrow> ('n \<Rightarrow> i64 \<times> 'n) \<Rightarrow> int \<Rightarrow> 'n option \<Rightarrow> (i64 \<times> 'n option) option" where
  "nextID NewNode Generate myID g =
     (case (case g of None \<Rightarrow> NewNode myID | Some node \<Rightarrow> Some node) of
        None \<Rightarrow> None
      | Some node \<Rightarrow> (case Generate node of (i, node') \<Rightarrow> Some (i, Some node')))"

fun next_ids :: "(int \<Rightarrow> 'n option) \<Rightarrow> ('n \<Rightarrow> i64 \<times> 'n) \<Rightarrow> int \<Rightarrow> 'n option \<Rightarrow> nat \<Rightarrow> i64 list option" where
  "next_ids NewNode Generate myID g 0 = Some []"
| "next_ids NewNode Generate myID g (Suc k) =
     (case nextID NewNode Generate myID g of
        None \<Rightarrow> None
      | Some (i, g') \<Rightarrow> map_option (\<lambda>is. i # is) (next_ids NewNode Generate myID g' k))"

section \<open>Lemmas\<close>

lemma Author_bits: "bit (Author i) n \<longleftrightarrow> n < 10 \<and> bit i (12 + n)"
proof -
  have mask: "(1023 :: i64) = mask 10"
    by (simp add: mask_eq_exp_minus_1)
  show ?thesis
    by (auto simp: Author_def nodeIDMask_def mask bit_and_iff bit_mask_iff bit_signed_drop_bit_iff
        dest: bit_imp_le_length)
qed

lemma Author_bound: "Author i < 1024"
  using and_mask_less' [of 10 "signed_drop_bit 12 i"]
  by (simp add: Author_def nodeIDMask_def mask_eq_exp_minus_1)

lemma Author_snowflake:
  assumes "node < 1024" and "step < 4096"
  shows "Author (snowflake t node step) = node"
proof (rule bit_word_eqI)
  fix n assume n: "n < LENGTH(64)"
  have node: "bit node k \<Longrightarrow> k < 10" and step: "bit step k \<Longrightarrow> k < 12" for k
    using assms word_less_bit [of node 10] word_less_bit [of step 12] by auto
  show "bit (Author (snowflake t node step)) n = bit node n"
    using n node [of n] step [of "12 + n"]
    by (auto simp: Author_bits snowflake_def bit_or_iff bit_push_bit_iff)
qed

lemma go_rem_bound: "b \<noteq> 0 \<Longrightarrow> \<bar>go_rem a b\<bar> < \<bar>b\<bar>"
  by (simp add: go_rem_def abs_mult sgn_if)

lemma hashed_node_bound: "0 \<le> hashed_node xxhash hw \<and> hashed_node xxhash hw < nodeIDCount"
  by (simp add: hashed_node_def nodeIDCount_def uint_mod)

lemma node_from_ifaces_bound:
  "0 \<le> node_from_ifaces xxhash is \<and> node_from_ifaces xxhash is < nodeIDCount"
  by (induction "is") (auto simp: hashed_node_bound, auto simp: nodeIDCount_def)

lemma getNodeID_range: "0 \<le> getNodeID xxhash env ifaces \<and> getNodeID xxhash env ifaces < nodeIDCount"
proof (cases "Option.bind env atoi")
  case None
  then show ?thesis
    using node_from_ifaces_bound
    by (auto simp: getNodeID_def nodeIDCount_def split: option.splits)
next
  case (Some n)
  then show ?thesis
    using go_rem_bound [of nodeIDCount n]
    by (auto simp: getNodeID_def Let_def nodeIDCount_def)
qed

lemma getNodeID_env:
  "env = Some v \<Longrightarrow> atoi v = Some n \<Longrightarrow> getNodeID xxhash env ifaces = n mod nodeIDCount"
  by (simp add: getNodeID_def Let_def go_rem_def nodeIDCount_def sgn_if)
     (auto simp: zmod_zminus1_eq_if)

lemma getNodeID_word:
  "word_of_int (getNodeID xxhash env ifaces) < (1024 :: i64)"
  "uint (word_of_int (getNodeID xxhash env ifaces) :: i64) = getNodeID xxhash env ifaces"
  using getNodeID_range [of xxhash env ifaces]
  by (simp_all add: nodeIDCount_def word_less_def take_bit_int_eq_self uint_word_of_int)

text \<open>
  With a snowflake library that takes every number below 1024 and puts it into its identifiers, making
  identifiers never panics, and they are this node's own. \<open>made k node\<close> says that the node was made for
  the number \<open>k\<close>.
\<close>

lemma next_ids_mine:
  assumes "\<And>k. 0 \<le> k \<Longrightarrow> k < 1024 \<Longrightarrow> \<exists>node. NewNode k = Some node \<and> made k node"
    and "\<And>k node i node'. made k node \<Longrightarrow> Generate node = (i, node') \<Longrightarrow> Author i = word_of_int k \<and> made k node'"
    and "\<And>node. g = Some node \<Longrightarrow> made (getNodeID xxhash env ifaces) node"
  shows "\<exists>is. next_ids NewNode Generate (getNodeID xxhash env ifaces) g n = Some is \<and> length is = n
    \<and> list_all (Mine (word_of_int (getNodeID xxhash env ifaces))) is"
  using assms(3)
proof (induction n arbitrary: g)
  case (Suc n)
  let ?k = "getNodeID xxhash env ifaces"
  obtain node where node: "(case g of None \<Rightarrow> NewNode ?k | Some node \<Rightarrow> Some node) = Some node" "made ?k node"
    using assms(1) [of ?k] getNodeID_range [of xxhash env ifaces] Suc.prems
    by (cases g) (auto simp: nodeIDCount_def)
  obtain i node' where i: "Generate node = (i, node')" by fastforce
  from assms(2) [OF node(2) i] have m: "Author i = word_of_int ?k" "made ?k node'" by simp_all
  then obtain "is" where "next_ids NewNode Generate ?k (Some node') n = Some is" "length is = n"
    "list_all (Mine (word_of_int ?k)) is"
    using Suc.IH [of "Some node'"] by auto
  moreover have "Mine (word_of_int ?k) i" by (simp add: Mine_def m(1))
  ultimately show ?case
    using node(1) i by (simp add: nextID_def)
qed simp

section \<open>Properties\<close>

text \<open>Every way of choosing the node number (environment, interface hash, fallback) gives a number
  that fits the 10 node bits of an identifier, and \<open>Mine\<close> recognises exactly the identifiers
  generated by a node with that number, whatever their time and sequence bits.\<close>

theorem mine_exactly_own:
  assumes "node < 1024" and "step < 4096"
  shows "Mine (word_of_int (getNodeID xxhash env ifaces)) (snowflake t node step)
    \<longleftrightarrow> uint node = getNodeID xxhash env ifaces"
  unfolding Mine_def Author_snowflake [OF assms]
  using getNodeID_word(2) [of xxhash env ifaces] by (metis word_uint_eq_iff)

theorem mine_exactly_own_witness:
  "Mine (word_of_int (getNodeID (\<lambda>_. 0) (Some (str ''-3'')) None)) (snowflake 77 1021 4095)"
proof -
  have "getNodeID (\<lambda>_. 0) (Some (str ''-3'')) None = 1021" by code_simp
  with mine_exactly_own [of 1021 4095 "\<lambda>_. 0" "Some (str ''-3'')" None 77] show ?thesis by simp
qed

end
