(* ===== verification/Mime.thy ===== *)
theory Mime
  imports GoLib
begin

text \<open>
  Content types (\<open>pkg/mime/mime.go\<close>): the \<open>Type\<close> enumeration, the table of supported MIME
  labels, the classification of a label and the sniffing of raw bytes by their magic numbers.
  \<open>uni\<close> is the Unicode part of \<open>strings.ToLower\<close> (see \<open>GoLib\<close>).
\<close>

datatype mime_type =
  TypeUnknown | TypeText | TypeImage | TypePath | TypeAudio | TypeVideo | TypeBinary

definition IsImage :: "mime_type \<Rightarrow> bool" where
  "IsImage t \<longleftrightarrow> t = TypeImage"

definition IsText :: "mime_type \<Rightarrow> bool" where
  "IsText t \<longleftrightarrow> t = TypeText"

definition IsPath :: "mime_type \<Rightarrow> bool" where
  "IsPath t \<longleftrightarrow> t = TypePath"

fun mime_String :: "mime_type \<Rightarrow> gostring" where
  "mime_String TypeText = str ''text''"
| "mime_String TypeImage = str ''image''"
| "mime_String TypePath = str ''path''"
| "mime_String TypeAudio = str ''audio''"
| "mime_String TypeVideo = str ''video''"
| "mime_String TypeBinary = str ''binary''"
| "mime_String TypeUnknown = str ''unknown''"

definition imageTypes :: "(gostring \<times> mime_type) list" where
  "imageTypes =
    [(str ''image/png'', TypeImage), (str ''image/jpeg'', TypeImage), (str ''image/jpg'', TypeImage),
     (str ''image/gif'', TypeImage), (str ''image/bmp'', TypeImage), (str ''image/webp'', TypeImage)]"

definition textTypes :: "(gostring \<times> mime_type) list" where
  "textTypes =
    [(str ''text/plain'', TypeText), (str ''text/plain;charset=utf-8'', TypeText),
     (str ''utf8_string'', TypeText), (str ''text'', TypeText), (str ''string'', TypeText)]"

definition pathTypes :: "(gostring \<times> mime_type) list" where
  "pathTypes =
    [(str ''text/uri-list'', TypePath), (str ''application/x-cf-hdrop'', TypePath),
     (str ''application/x-ms-hdrop'', TypePath), (str ''x-special/gnome-copied-files'', TypePath)]"

text \<open>The keys of the three tables are distinct, so the order they are merged in does not matter.\<close>

definition supportedTypes :: "gostring \<Rightarrow> mime_type option" where
  "supportedTypes = map_of (imageTypes @ textTypes @ pathTypes)"

definition IsSupported :: "(gostring \<Rightarrow> gostring) \<Rightarrow> gostring \<Rightarrow> bool" where
  "IsSupported uni mimeType \<longleftrightarrow> supportedTypes (to_lower uni mimeType) \<noteq> None"

definition AsType :: "(gostring \<Rightarrow> gostring) \<Rightarrow> gostring \<Rightarrow> mime_type" where
  "AsType uni mimeType =
     (case supportedTypes (to_lower uni mimeType) of None \<Rightarrow> TypeUnknown | Some typ \<Rightarrow> typ)"

definition normalizeMime :: "(gostring \<Rightarrow> gostring) \<Rightarrow> gostring \<Rightarrow> gostring" where
  "normalizeMime uni ct0 =
     (let ct = to_lower uni (trim_space ct0); i = index_byte ct 59
      in if 0 \<le> i then trim_space (take (nat i) ct) else ct)"

definition classifyMime :: "(gostring \<Rightarrow> gostring) \<Rightarrow> gostring \<Rightarrow> mime_type" where
  "classifyMime uni ct0 =
     (let ct = normalizeMime uni ct0 in
      case supportedTypes ct of
        Some v \<Rightarrow> v
      | None \<Rightarrow>
          if has_prefix ct (str ''image/'') then TypeImage
          else if has_prefix ct (str ''text/'') then TypeText
          else if has_prefix ct (str ''video/'') then TypeVideo
          else if has_prefix ct (str ''audio/'') then TypeAudio
          else if has_prefix ct (str ''application/'') then TypeBinary
          else if ct = [] then TypeUnknown
          else TypeBinary)"

text \<open>\<open>len(data) >= n && bytes.Equal(data[:n], magic)\<close> is a prefix test.\<close>

definition fromBytesSniff :: "byte list \<Rightarrow> gostring" where
  "fromBytesSniff data =
     (if has_prefix data [0x89, 0x50, 0x4E, 0x47] then str ''image/png''
      else if has_prefix data [0xFF, 0xD8] then str ''image/jpeg''
      else if has_prefix data [0x47, 0x49, 0x46, 0x38] then str ''image/gif''
      else if has_prefix data [0x42, 0x4D] then str ''image/bmp''
      else if 12 \<le> length data \<and> take 4 (drop 8 data) = str ''WEBP'' then str ''image/webp''
      else if has_prefix data [0x25, 0x50, 0x44, 0x46] then str ''application/pdf''
      else if has_prefix data [0x50, 0x4B, 0x03, 0x04] then str ''application/zip''
      else if has_prefix data [0x52, 0x61, 0x72, 0x21] then str ''application/x-rar-compressed''
      else if has_prefix data [0x1F, 0x8B] then str ''application/gzip''
      else str ''text'')"

definition mime_From :: "(gostring \<Rightarrow> gostring) \<Rightarrow> byte list \<Rightarrow> mime_type" where
  "mime_From uni src = classifyMime uni (fromBytesSniff src)"

section \<open>Lemmas\<close>

definition image_magic :: "byte list \<Rightarrow> bool" where
  "image_magic data \<longleftrightarrow>
     has_prefix data [0x89, 0x50, 0x4E, 0x47] \<or> has_prefix data [0xFF, 0xD8]
     \<or> has_prefix data [0x47, 0x49, 0x46, 0x38] \<or> has_prefix data [0x42, 0x4D]
     \<or> 12 \<le> length data \<and> take 4 (drop 8 data) = str ''WEBP''"

definition archive_magic :: "byte list \<Rightarrow> bool" where
  "archive_magic data \<longleftrightarrow>
     has_prefix data [0x25, 0x50, 0x44, 0x46] \<or> has_prefix data [0x50, 0x4B, 0x03, 0x04]
     \<or> has_prefix data [0x52, 0x61, 0x72, 0x21] \<or> has_prefix data [0x1F, 0x8B]"

text \<open>The labels the sniffer produces, classified.\<close>

lemma classify_labels:
  "classifyMime uni (str ''image/png'') = TypeImage"
  "classifyMime uni (str ''image/jpeg'') = TypeImage"
  "classifyMime uni (str ''image/gif'') = TypeImage"
  "classifyMime uni (str ''image/bmp'') = TypeImage"
  "classifyMime uni (str ''image/webp'') = TypeImage"
  "classifyMime uni (str ''application/pdf'') = TypeBinary"
  "classifyMime uni (str ''application/zip'') = TypeBinary"
  "classifyMime uni (str ''application/x-rar-compressed'') = TypeBinary"
  "classifyMime uni (str ''application/gzip'') = TypeBinary"
  "classifyMime uni (str ''text'') = TypeText"
  by code_simp+

lemma mime_From_spec:
  "mime_From uni data =
     (if image_magic data then TypeImage
      else if archive_magic data then TypeBinary else TypeText)"
  unfolding mime_From_def fromBytesSniff_def image_magic_def archive_magic_def
  by (simp add: classify_labels del: str_Cons)

section \<open>Properties\<close>

text \<open>The content type given to raw clipboard bytes: an image exactly when they start with one of the
  known image signatures, binary when they start with one of the archive or document signatures,
  and text otherwise. Unknown, path, audio and video are never inferred from bytes.\<close>

theorem mime_From_complete:
  "mime_From uni data =
     (if image_magic data then TypeImage
      else if archive_magic data then TypeBinary else TypeText)"
  by (rule mime_From_spec)

end
