(* ===== verification/Metadata.thy ===== *)
theory Metadata
  imports GoLib
begin

text \<open>
  Version comparison (\<open>internal/metadata/metadata.go\<close>): the handshake refuses a peer whose major
  version differs. \<open>strings.Split\<close> never returns an empty slice for a non-empty separator, so the
  code's guard on \<open>len(parts) == 0\<close> is the \<open>[]\<close> branch that is never taken.
\<close>

definition freshest :: gostring where
  "freshest = str ''freshest''"

definition extractMajor :: "gostring \<Rightarrow> int" where
  "extractMajor v0 =
     (let v1 = trim_prefix v0 (str ''v.'');
          v = trim_prefix v1 (str ''v'')
      in case split_on 46 v of
           [] \<Rightarrow> 0
         | part # _ \<Rightarrow> (case atoi part of None \<Rightarrow> 0 | Some major \<Rightarrow> major))"

definition IsMajorDifference :: "gostring \<Rightarrow> gostring \<Rightarrow> bool" where
  "IsMajorDifference v1 v2 \<longleftrightarrow>
     (if v1 = freshest \<or> v2 = freshest then False else extractMajor v1 \<noteq> extractMajor v2)"

section \<open>Lemmas\<close>

lemma IsMajorDifference_sym: "IsMajorDifference v1 v2 = IsMajorDifference v2 v1"
  by (auto simp: IsMajorDifference_def)

lemma IsMajorDifference_refl: "\<not> IsMajorDifference v v"
  by (simp add: IsMajorDifference_def)

text \<open>The texts a release version can have in front of its major number.\<close>

definition version_prefix :: "gostring \<Rightarrow> bool" where
  "version_prefix p \<longleftrightarrow> p = [] \<or> p = str ''v'' \<or> p = str ''v.''"

definition release :: "gostring \<Rightarrow> nat \<Rightarrow> gostring \<Rightarrow> gostring" where
  "release p n rest = p @ nat_digits n @ 46 # rest"

lemma nat_digits_hd: "\<exists>d ds. nat_digits n = d # ds \<and> is_digit d"
  using nat_digits_bytes [of _ n] nat_digits_nonempty [of n] by (cases "nat_digits n") auto

lemma extractMajor_release:
  assumes "version_prefix p" and "n < 2 ^ 63"
  shows "extractMajor (release p n rest) = int n"
proof -
  obtain d ds where d: "nat_digits n = d # ds" "is_digit d"
    using nat_digits_hd by blast
  then have d': "d \<noteq> 118" "d \<noteq> 46" by (auto simp: is_digit_def)
  have "trim_prefix (trim_prefix (release p n rest) (str ''v.'')) (str ''v'') = nat_digits n @ 46 # rest"
    using assms(1) d d' by (auto simp: version_prefix_def release_def trim_prefix_def)
  moreover have "46 \<notin> set (nat_digits n)"
    by (auto dest: nat_digits_bytes simp: is_digit_def)
  ultimately show ?thesis
    using assms(2) by (simp add: extractMajor_def split_on_append_sep atoi_nat_digits)
qed

lemma release_not_freshest:
  assumes "version_prefix p"
  shows "release p n rest \<noteq> freshest"
proof -
  obtain d ds where "nat_digits n = d # ds" "is_digit d"
    using nat_digits_hd by blast
  with assms show ?thesis
    by (auto simp: version_prefix_def release_def freshest_def is_digit_def)
qed

section \<open>Properties\<close>

text \<open>Two released versions, with or without a leading \<open>v\<close> or \<open>v.\<close>, are refused a common
  session exactly when their major numbers differ; minor and patch parts never matter.\<close>

theorem major_difference_releases:
  assumes "version_prefix p" and "version_prefix q" and "m < 2 ^ 63" and "n < 2 ^ 63"
  shows "IsMajorDifference (release p m rest) (release q n rest') \<longleftrightarrow> m \<noteq> n"
  using assms by (simp add: IsMajorDifference_def release_not_freshest extractMajor_release)

theorem major_difference_releases_witness:
  "IsMajorDifference (release (str ''v'') 3 (str ''9.1'')) (release [] 2 (str ''9.1''))"
  using major_difference_releases [of "str ''v''" "[]" 3 2 "str ''9.1''" "str ''9.1''"]
  by (simp add: version_prefix_def)

end
