(* ===== verification/SyncMap.thy ===== *)
theory SyncMap
  imports Prelude
begin

text \<open>
  The concurrent map of \<open>pkg/storage/syncmap.go\<close>: Go's \<open>sync.Map\<close> beside an atomic counter. Each
  operation is first given as a whole; the step relation at the end splits it into the atomic
  actions of the code (the map operation, then the counter) and interleaves any number of
  goroutines. The locale \<open>key_store\<close> is what the node relies on.
\<close>

record ('k, 'v) sync_map =
  sm_m :: "('k, 'v) gomap"
  sm_count :: i64

definition NewSyncMapStorage :: "('k, 'v) sync_map" where
  "NewSyncMapStorage = \<lparr>sm_m = [], sm_count = 0\<rparr>"

text \<open>The two atomic operations of \<open>sync.Map\<close> the code uses; the flag is Go's \<open>loaded\<close>.\<close>

definition LoadOrStore :: "('k, 'v) gomap \<Rightarrow> 'k \<Rightarrow> 'v \<Rightarrow> bool \<times> ('k, 'v) gomap" where
  "LoadOrStore m k v = (case map_of m k of Some _ \<Rightarrow> (True, m) | None \<Rightarrow> (False, AList.update k v m))"

definition LoadAndDelete :: "('k, 'v) gomap \<Rightarrow> 'k \<Rightarrow> bool \<times> ('k, 'v) gomap" where
  "LoadAndDelete m k = (case map_of m k of Some _ \<Rightarrow> (True, AList.delete k m) | None \<Rightarrow> (False, m))"

definition sm_Add :: "('k, 'v) sync_map \<Rightarrow> 'k \<Rightarrow> 'v \<Rightarrow> ('k, 'v) sync_map" where
  "sm_Add s k v =
     (let (loaded, m) = LoadOrStore (sm_m s) k v; s' = s\<lparr>sm_m := m\<rparr>
      in if loaded then s' else s'\<lparr>sm_count := sm_count s' + 1\<rparr>)"

definition sm_Delete :: "('k, 'v) sync_map \<Rightarrow> 'k \<Rightarrow> ('k, 'v) sync_map" where
  "sm_Delete s k =
     (let (loaded, m) = LoadAndDelete (sm_m s) k; s' = s\<lparr>sm_m := m\<rparr>
      in if loaded then s'\<lparr>sm_count := sm_count s' + (- 1)\<rparr> else s')"

definition sm_Get :: "('k, 'v) sync_map \<Rightarrow> 'k \<Rightarrow> 'v option" where
  "sm_Get s k = map_of (sm_m s) k"

definition sm_Exist :: "('k, 'v) sync_map \<Rightarrow> 'k \<Rightarrow> bool" where
  "sm_Exist s k \<longleftrightarrow> map_of (sm_m s) k \<noteq> None"

text \<open>\<open>Range\<close> visits the entries until the callback, which threads a state, returns false.\<close>

fun range_map :: "('k, 'v) gomap \<Rightarrow> ('k \<Rightarrow> 'v \<Rightarrow> 's \<Rightarrow> bool \<times> 's) \<Rightarrow> 's \<Rightarrow> 's" where
  "range_map [] fn st = st"
| "range_map ((k, v) # m) fn st = (let (go, st') = fn k v st in if go then range_map m fn st' else st')"

definition sm_Tap :: "('k, 'v) sync_map \<Rightarrow> ('k \<Rightarrow> 'v \<Rightarrow> 's \<Rightarrow> bool \<times> 's) \<Rightarrow> 's \<Rightarrow> 's" where
  "sm_Tap s fn st = range_map (sm_m s) fn st"

definition sm_Len :: "('k, 'v) sync_map \<Rightarrow> int" where
  "sm_Len s = sint (sm_count s)"

section \<open>What a store promises\<close>

locale key_store =
  fixes add :: "'s \<Rightarrow> 'k \<Rightarrow> 'v \<Rightarrow> 's"
    and del :: "'s \<Rightarrow> 'k \<Rightarrow> 's"
    and get :: "'s \<Rightarrow> 'k \<Rightarrow> 'v option"
    and len :: "'s \<Rightarrow> int"
    and ok :: "'s \<Rightarrow> bool"
    and big :: "'s \<Rightarrow> bool"
  assumes ok_add: "ok s \<Longrightarrow> ok (add s k v)"
    and ok_del: "ok s \<Longrightarrow> ok (del s k)"
    and get_add: "ok s \<Longrightarrow> get (add s k v) = (if get s k = None then (get s)(k \<mapsto> v) else get s)"
    and get_del: "ok s \<Longrightarrow> get (del s k) = (get s)(k := None)"
    and get_finite: "ok s \<Longrightarrow> finite (dom (get s))"
    and len_card: "ok s \<Longrightarrow> \<not> big s \<Longrightarrow> len s = int (card (dom (get s)))"
begin

lemma first_write_wins: "ok s \<Longrightarrow> get s k = Some v \<Longrightarrow> get (add s k w) k = Some v"
  by (simp add: get_add)

lemma delete_then_add: "ok s \<Longrightarrow> get (add (del s k) k v) = (get s)(k \<mapsto> v)"
  by (simp add: get_add ok_del get_del)

lemma add_grows: "ok s \<Longrightarrow> get s k = None \<Longrightarrow> \<not> big s \<Longrightarrow> \<not> big (add s k v) \<Longrightarrow> len (add s k v) = len s + 1"
  using get_finite [of s] by (simp add: len_card ok_add get_add domIff)

lemma add_present: "ok s \<Longrightarrow> get s k \<noteq> None \<Longrightarrow> \<not> big s \<Longrightarrow> \<not> big (add s k v) \<Longrightarrow> len (add s k v) = len s"
  by (simp add: len_card ok_add get_add not_None_eq [symmetric] del: not_None_eq)

lemma del_shrinks:
  "ok s \<Longrightarrow> get s k \<noteq> None \<Longrightarrow> \<not> big s \<Longrightarrow> \<not> big (del s k) \<Longrightarrow> len (del s k) = len s - 1"
proof -
  assume s: "ok s" "get s k \<noteq> None" "\<not> big s" "\<not> big (del s k)"
  then have "k \<in> dom (get s)" by blast
  with get_finite [OF s(1)] have "int (card (dom (get s) - {k})) = int (card (dom (get s))) - 1"
    by (metis card_Suc_Diff1 add_diff_cancel_left' of_nat_Suc)
  with s show ?thesis by (simp add: len_card ok_del get_del)
qed

end

section \<open>The code keeps the promise\<close>

definition sm_ok :: "('k, 'v) sync_map \<Rightarrow> bool" where
  "sm_ok s \<longleftrightarrow> gomap_ok (sm_m s) \<and> sm_count s = of_nat (length (sm_m s))"

definition sm_big :: "('k, 'v) sync_map \<Rightarrow> bool" where
  "sm_big s \<longleftrightarrow> 2 ^ 63 \<le> length (sm_m s)"

lemma sm_ok_new [inv_intros]: "sm_ok NewSyncMapStorage"
  by (simp add: sm_ok_def NewSyncMapStorage_def)

lemma map_of_None_keys: "map_of m k = None \<Longrightarrow> k \<notin> fst ` set m"
  by (simp add: map_of_eq_None_iff)

lemma sm_ok_Add [inv_intros]: "sm_ok s \<Longrightarrow> sm_ok (sm_Add s k v)"
  by (auto simp: sm_ok_def sm_Add_def LoadOrStore_def gomap_ok_update length_update_new
      dest: map_of_None_keys split: option.splits)

lemma length_delete_present:
  "gomap_ok m \<Longrightarrow> map_of m k = Some v \<Longrightarrow> length m = Suc (length (AList.delete k m))"
  using length_delete_in [of m k] by (metis map_of_SomeD fst_conv imageI)

lemma sm_ok_Delete [inv_intros]: "sm_ok s \<Longrightarrow> sm_ok (sm_Delete s k)"
  by (auto simp: sm_ok_def sm_Delete_def LoadAndDelete_def gomap_ok_delete
      dest: length_delete_present split: option.splits)

interpretation store: key_store sm_Add sm_Delete sm_Get sm_Len sm_ok sm_big
proof unfold_locales
  fix s :: "('a, 'b) sync_map" and k v
  assume ok: "sm_ok s"
  show "sm_ok (sm_Add s k v)" "sm_ok (sm_Delete s k)"
    using ok by (auto intro: inv_intros)
  show "sm_Get (sm_Add s k v) = (if sm_Get s k = None then (sm_Get s)(k \<mapsto> v) else sm_Get s)"
    by (auto simp: sm_Get_def sm_Add_def LoadOrStore_def fun_eq_iff split: option.splits)
  show "sm_Get (sm_Delete s k) = (sm_Get s)(k := None)"
    by (auto simp: sm_Get_def sm_Delete_def LoadAndDelete_def fun_eq_iff split: option.splits)
  show "finite (dom (sm_Get s))"
    unfolding sm_Get_def by (rule finite_dom_map_of)
  assume small: "\<not> sm_big s"
  then have "sint (of_nat (length (sm_m s)) :: i64) = int (length (sm_m s))"
    by (simp add: sm_big_def signed_of_nat signed_take_bit_int_eq_self)
  then show "sm_Len s = int (card (dom (sm_Get s)))"
    using ok gomap_length [of "sm_m s"] by (simp add: sm_ok_def sm_Len_def sm_Get_def dom_def)
qed

section \<open>Interleaved goroutines\<close>

text \<open>
  Each goroutine is between operations, or between the map operation of \<open>Add\<close> or \<open>Delete\<close> and
  its update of the counter.
\<close>

datatype pending = Idle | IncDue | DecDue

type_synonym ('k, 'v) sm_conf = "('k, 'v) sync_map \<times> pending list"

inductive sm_step :: "('k, 'v) sm_conf \<Rightarrow> ('k, 'v) sm_conf \<Rightarrow> bool" where
  AddStore: "i < length ps \<Longrightarrow> ps ! i = Idle \<Longrightarrow> LoadOrStore (sm_m s) k v = (loaded, m)
    \<Longrightarrow> sm_step (s, ps) (s\<lparr>sm_m := m\<rparr>, if loaded then ps else ps[i := IncDue])"
| AddCount: "i < length ps \<Longrightarrow> ps ! i = IncDue
    \<Longrightarrow> sm_step (s, ps) (s\<lparr>sm_count := sm_count s + 1\<rparr>, ps[i := Idle])"
| DelDelete: "i < length ps \<Longrightarrow> ps ! i = Idle \<Longrightarrow> LoadAndDelete (sm_m s) k = (loaded, m)
    \<Longrightarrow> sm_step (s, ps) (s\<lparr>sm_m := m\<rparr>, if loaded then ps[i := DecDue] else ps)"
| DelCount: "i < length ps \<Longrightarrow> ps ! i = DecDue
    \<Longrightarrow> sm_step (s, ps) (s\<lparr>sm_count := sm_count s + (- 1)\<rparr>, ps[i := Idle])"

inductive sm_reach :: "nat \<Rightarrow> ('k, 'v) sm_conf \<Rightarrow> bool" for n where
  start: "sm_reach n (NewSyncMapStorage, replicate n Idle)"
| step: "sm_reach n c \<Longrightarrow> sm_step c c' \<Longrightarrow> sm_reach n c'"

fun due :: "pending \<Rightarrow> i64" where
  "due Idle = 0"
| "due IncDue = 1"
| "due DecDue = - 1"

definition sm_conf_ok :: "('k, 'v) sm_conf \<Rightarrow> bool" where
  "sm_conf_ok c \<longleftrightarrow> (case c of (s, ps) \<Rightarrow>
     gomap_ok (sm_m s) \<and> sm_count s + sum_list (map due ps) = of_nat (length (sm_m s)))"

lemma sum_list_update_due:
  "i < length ps \<Longrightarrow> sum_list (map due (ps[i := p])) = sum_list (map due ps) - due (ps ! i) + due p"
  by (induction ps arbitrary: i) (auto split: nat.splits)

lemma sm_conf_ok_step: "sm_step c c' \<Longrightarrow> sm_conf_ok c \<Longrightarrow> sm_conf_ok c'"
proof (induction rule: sm_step.induct)
  case (AddStore i ps s k v loaded m)
  then show ?case
    by (auto simp: sm_conf_ok_def LoadOrStore_def sum_list_update_due gomap_ok_update
        length_update_new dest: map_of_None_keys split: option.splits)
next
  case (DelDelete i ps s k loaded m)
  show ?case
  proof (cases "map_of (sm_m s) k")
    case None
    with DelDelete show ?thesis by (simp add: sm_conf_ok_def LoadAndDelete_def)
  next
    case (Some v)
    with DelDelete.prems have len: "length (sm_m s) = Suc (length (AList.delete k (sm_m s)))"
      by (auto simp: sm_conf_ok_def intro: length_delete_present)
    with Some DelDelete have "sm_count s + sum_list (map due ps) = of_nat (length (AList.delete k (sm_m s))) + 1"
      by (simp add: sm_conf_ok_def add.commute)
    then have "sm_count s + (sum_list (map due ps) - 1) = of_nat (length (AList.delete k (sm_m s)))"
      by (simp add: algebra_simps)
    with Some DelDelete show ?thesis
      by (auto simp: sm_conf_ok_def LoadAndDelete_def sum_list_update_due gomap_ok_delete)
  qed
qed (auto simp: sm_conf_ok_def sum_list_update_due)

lemma sm_reach_ok: "sm_reach n c \<Longrightarrow> sm_conf_ok c"
proof (induction rule: sm_reach.induct)
  case start
  show ?case by (simp add: sm_conf_ok_def NewSyncMapStorage_def map_replicate sum_list_replicate)
qed (rule sm_conf_ok_step)

inductive_simps sm_step_simps: "sm_step (s, ps) c"

section \<open>Properties\<close>

text \<open>C18. Whatever the goroutines do and however their atomic actions interleave, once none of them is
  between its map operation and its counter update the counter is the number of stored keys.\<close>

theorem syncmap_count_quiescent:
  assumes "sm_reach n (s, replicate n Idle)" and "length (sm_m s) < 2 ^ 63"
  shows "sm_Len s = int (card (dom (sm_Get s)))"
proof -
  have "sm_ok s"
    using sm_reach_ok [OF assms(1)] by (simp add: sm_conf_ok_def sm_ok_def map_replicate sum_list_replicate)
  with assms(2) show ?thesis by (intro store.len_card) (simp_all add: sm_big_def)
qed

theorem syncmap_count_quiescent_witness:
  "\<exists>s :: (nat, nat) sync_map. sm_reach 2 (s, replicate 2 Idle) \<and> sm_Get s 5 = Some 7 \<and> sm_Len s = 1"
proof -
  let ?s0 = "NewSyncMapStorage :: (nat, nat) sync_map"
  let ?s1 = "?s0\<lparr>sm_m := [(5, 7)]\<rparr>"
  let ?s2 = "?s1\<lparr>sm_count := 1\<rparr>"
  have "sm_step (?s0, [Idle, Idle]) (?s1, [IncDue, Idle])"
    using sm_step.AddStore [of 0 "[Idle, Idle]" ?s0 5 7 False] by (simp add: LoadOrStore_def NewSyncMapStorage_def)
  moreover have "sm_step (?s1, [IncDue, Idle]) (?s2, [Idle, Idle])"
    using sm_step.AddCount [of 0 "[IncDue, Idle]" ?s1] by (simp add: NewSyncMapStorage_def)
  ultimately have "sm_reach 2 (?s2, replicate 2 Idle)"
    using sm_reach.start [of 2] by (auto simp: numeral_2_eq_2 intro: sm_reach.step)
  moreover from syncmap_count_quiescent [OF this]
  have "sm_Len ?s2 = int (card (dom (sm_Get ?s2)))" by simp
  ultimately show ?thesis
    by (intro exI [of _ ?s2]) (simp add: sm_Get_def dom_def)
qed

end
