(* ===== verification/Domain.thy ===== *)
theory Domain
  imports Ids Mime
begin

text \<open>
  The domain types (\<open>internal/types/domain\<close>): events with their origin and time, clipboard
  messages, announcements of messages, requests, handshakes and devices, and the identity and
  content comparisons the deduplication rests on. A Go time is its Unix seconds and nanoseconds.
\<close>

record gotime =
  unix_sec :: i64
  unix_nsec :: u32

record message =
  m_ID :: i64
  m_Data :: "byte list"
  m_MimeType :: mime_type
  m_ContentHash :: u64
  m_ContentLength :: u64
  m_Name :: gostring
  m_BatchID :: i64
  m_BatchTotal :: u32

record announce =
  a_ID :: i64
  a_MimeType :: mime_type
  a_ContentHash :: u64
  a_ContentLength :: u64
  a_BatchID :: i64
  a_BatchTotal :: u32

record device =
  d_ID :: i64
  d_Name :: gostring
  d_Arch :: gostring

record handshake =
  h_Version :: gostring
  h_MetaData :: device
  h_Port :: u32

record request =
  r_ID :: i64

record 'p event =
  From :: i64
  Created :: gotime
  Payload :: 'p

type_synonym event_message = "message event"
type_synonym event_announce = "announce event"
type_synonym event_request = "request event"
type_synonym event_handshake = "handshake event"

datatype any_event =
    EventMessage event_message
  | EventAnnounce event_announce
  | EventRequest event_request
  | EventHandshake event_handshake

text \<open>\<open>MessageID.String\<close> and \<open>NodeID.String\<close> are the decimal text of the signed value.\<close>

definition MessageID_String :: "i64 \<Rightarrow> gostring" where
  "MessageID_String m = format_int m"

definition NodeID_String :: "i64 \<Rightarrow> gostring" where
  "NodeID_String n = format_int n"

text \<open>
  This device: \<open>hostname\<close> is empty when \<open>os.Hostname\<close> failed, \<open>usr\<close> the name of the current user
  if there is one.
\<close>

definition initDefaultMetadata :: "gostring \<Rightarrow> gostring option \<Rightarrow> gostring \<Rightarrow> i64 \<Rightarrow> device" where
  "initDefaultMetadata hostname usr goarch myID =
     \<lparr>d_ID = myID,
      d_Name = (case usr of
          Some u \<Rightarrow> if hostname \<noteq> [] then u @ str ''@'' @ hostname else str ''unknown@unknown''
        | None \<Rightarrow> str ''unknown@unknown''),
      d_Arch = goarch\<rparr>"

text \<open>The zero values Go gives unset variables.\<close>

definition zero_time :: gotime where
  "zero_time = \<lparr>unix_sec = - 62135596800, unix_nsec = 0\<rparr>"

definition zero_message :: message where
  "zero_message = \<lparr>m_ID = 0, m_Data = [], m_MimeType = TypeText, m_ContentHash = 0,
     m_ContentLength = 0, m_Name = [], m_BatchID = 0, m_BatchTotal = 0\<rparr>"

definition zero_event_message :: event_message where
  "zero_event_message = \<lparr>From = 0, Created = zero_time, Payload = zero_message\<rparr>"

section \<open>Operations\<close>

text \<open>\<open>NewEvent\<close> and \<open>Message.Event\<close> stamp the event with this node and the current time.\<close>

definition NewEvent :: "i64 \<Rightarrow> gotime \<Rightarrow> 'p \<Rightarrow> 'p event" where
  "NewEvent myID now payload = \<lparr>From = myID, Created = now, Payload = payload\<rparr>"

definition Message_Event :: "i64 \<Rightarrow> gotime \<Rightarrow> message \<Rightarrow> event_message" where
  "Message_Event myID now m = \<lparr>From = myID, Created = now, Payload = m\<rparr>"

definition NewRequest :: "i64 \<Rightarrow> gotime \<Rightarrow> i64 \<Rightarrow> event_request" where
  "NewRequest myID now i = NewEvent myID now \<lparr>r_ID = i\<rparr>"

definition WithMetadata :: "device \<Rightarrow> handshake \<Rightarrow> handshake" where
  "WithMetadata d g = g\<lparr>h_MetaData := d\<rparr>"

definition WithPort :: "u16 \<Rightarrow> handshake \<Rightarrow> handshake" where
  "WithPort port g = g\<lparr>h_Port := ucast port\<rparr>"

definition NewGreet ::
  "gostring \<Rightarrow> i64 \<Rightarrow> gotime \<Rightarrow> (handshake \<Rightarrow> handshake) list \<Rightarrow> event_handshake" where
  "NewGreet version myID now opts =
     NewEvent myID now
       (foldl (\<lambda>g opt. opt g)
         \<lparr>h_Version = version, h_MetaData = \<lparr>d_ID = 0, d_Name = [], d_Arch = []\<rparr>, h_Port = 0\<rparr> opts)"

definition Message_Zero :: "message \<Rightarrow> bool" where
  "Message_Zero m \<longleftrightarrow> m_ID m = 0 \<or> m_ContentHash m = 0 \<or> m_ContentLength m = 0"

definition Message_Duplicate :: "message \<Rightarrow> message \<Rightarrow> bool" where
  "Message_Duplicate m msg \<longleftrightarrow>
     (if m_ID m = m_ID msg then True
      else if m_MimeType m \<noteq> m_MimeType msg then False
      else m_ContentHash m \<noteq> 0 \<and> m_ContentHash m = m_ContentHash msg)"

definition DuplicateByAnnounce :: "message \<Rightarrow> announce \<Rightarrow> bool" where
  "DuplicateByAnnounce m ann \<longleftrightarrow>
     (if m_ID m = a_ID ann then True
      else m_ContentHash m \<noteq> 0 \<and> m_ContentHash m = a_ContentHash ann)"

definition Message_Announce :: "message \<Rightarrow> announce" where
  "Message_Announce m = \<lparr>a_ID = m_ID m, a_MimeType = m_MimeType m, a_ContentHash = m_ContentHash m,
     a_ContentLength = m_ContentLength m, a_BatchID = m_BatchID m, a_BatchTotal = m_BatchTotal m\<rparr>"

definition Announce_Zero :: "announce \<Rightarrow> bool" where
  "Announce_Zero an \<longleftrightarrow> a_ID an = 0 \<or> a_ContentHash an = 0"

definition Announce_Duplicate :: "announce \<Rightarrow> announce \<Rightarrow> bool" where
  "Announce_Duplicate an other \<longleftrightarrow>
     (if a_ID an = a_ID other then True
      else a_ContentHash an \<noteq> 0 \<and> a_ContentHash an = a_ContentHash other)"

section \<open>Lemmas\<close>

lemma MessageID_String_inj: "MessageID_String m = MessageID_String n \<Longrightarrow> m = n"
  by (simp add: MessageID_String_def format_int_inj)

lemma Message_Duplicate_refl [simp]: "Message_Duplicate m m"
  by (simp add: Message_Duplicate_def)

lemma Message_Duplicate_sym: "Message_Duplicate m n = Message_Duplicate n m"
  by (auto simp: Message_Duplicate_def)

lemma Duplicate_imp_announce: "Message_Duplicate m n \<Longrightarrow> DuplicateByAnnounce m (Message_Announce n)"
  by (auto simp: Message_Duplicate_def DuplicateByAnnounce_def Message_Announce_def split: if_splits)

lemma zero_message_Zero [simp]: "Message_Zero zero_message"
  by (simp add: Message_Zero_def zero_message_def)

lemma Message_Announce_simps [simp]:
  "a_ID (Message_Announce m) = m_ID m"
  "a_MimeType (Message_Announce m) = m_MimeType m"
  "a_ContentHash (Message_Announce m) = m_ContentHash m"
  "a_ContentLength (Message_Announce m) = m_ContentLength m"
  "a_BatchID (Message_Announce m) = m_BatchID m"
  "a_BatchTotal (Message_Announce m) = m_BatchTotal m"
  by (simp_all add: Message_Announce_def)

end
