(* ===== verification/Batch.thy ===== *)
theory Batch
  imports Domain "HOL-Library.Multiset"
begin

text \<open>
  The batch collector (\<open>internal/channel/batch.go\<close>), which holds the parts of a multi-file copy
  until all of them are there. Go maps are association lists (see \<open>Prelude\<close>); \<open>join\<close> iterates one
  in an order Go leaves open, so its result is shown not to depend on it. The expiry timer of a
  batch is a separate atomic step, \<open>expire\<close>: what its callback does once it holds the lock.
\<close>

record batchState =
  total :: u32
  items :: "(i64, byte list) gomap"

type_synonym collector = "(i64, batchState) gomap"

definition NewBatchCollector :: collector where
  "NewBatchCollector = []"

definition batchSeparator :: gostring where
  "batchSeparator = [10]"

definition join :: "(i64, byte list) gomap \<Rightarrow> byte list" where
  "join its = join_with batchSeparator (sort (filter (\<lambda>d. d \<noteq> []) (map snd its)))"

definition Add :: "collector \<Rightarrow> message \<Rightarrow> (byte list \<times> bool) \<times> collector" where
  "Add c msg =
     (let bID = m_BatchID msg;
          state0 = (case map_of c bID of None \<Rightarrow> \<lparr>total = m_BatchTotal msg, items = []\<rparr> | Some st \<Rightarrow> st);
          state = state0\<lparr>items := AList.update (m_ID msg) (m_Data msg) (items state0)\<rparr>
      in if of_nat (length (items state)) = total state
         then ((join (items state), True), AList.delete bID c)
         else (([], False), AList.update bID state c))"

definition expire :: "collector \<Rightarrow> i64 \<Rightarrow> collector" where
  "expire c bID = AList.delete bID c"

text \<open>A sequence of additions, with every result.\<close>

fun add_all :: "collector \<Rightarrow> message list \<Rightarrow> (byte list \<times> bool) list \<times> collector" where
  "add_all c [] = ([], c)"
| "add_all c (m # ms) =
     (let (r, c') = Add c m; (rs, c'') = add_all c' ms in (r # rs, c''))"

section \<open>Invariant\<close>

definition collector_ok :: "collector \<Rightarrow> bool" where
  "collector_ok c \<longleftrightarrow> gomap_ok c
     \<and> (\<forall>b st. map_of c b = Some st \<longrightarrow>
          gomap_ok (items st) \<and> items st \<noteq> [] \<and> of_nat (length (items st)) \<noteq> total st)"

lemma collector_ok_new [inv_intros]: "collector_ok NewBatchCollector"
  by (simp add: collector_ok_def NewBatchCollector_def)

lemma collector_ok_expire [inv_intros]: "collector_ok c \<Longrightarrow> collector_ok (expire c b)"
  by (simp add: collector_ok_def expire_def gomap_ok_delete)

lemma update_nonempty [simp]: "AList.update k v m \<noteq> []"
  by (cases m) auto

lemma collector_ok_Add [inv_intros]: "collector_ok c \<Longrightarrow> collector_ok (snd (Add c m))"
  by (auto simp: collector_ok_def Add_def Let_def gomap_ok_delete gomap_ok_update split: option.splits)

lemma collector_ok_add_all [inv_intros]: "collector_ok c \<Longrightarrow> collector_ok (snd (add_all c ms))"
  by (induction ms arbitrary: c) (auto simp: case_prod_beta intro: collector_ok_Add)

section \<open>Addition\<close>

lemma Add_other: "b \<noteq> m_BatchID m \<Longrightarrow> map_of (snd (Add c m)) b = map_of c b"
  by (auto simp: Add_def Let_def)

lemma Add_not_done: "\<not> snd (fst (Add c m)) \<Longrightarrow> fst (fst (Add c m)) = []"
  by (auto simp: Add_def Let_def split: if_splits)

text \<open>Parts of one batch, each with its own identifier, and the total they announce.\<close>

definition batch_parts :: "i64 \<Rightarrow> u32 \<Rightarrow> message list \<Rightarrow> bool" where
  "batch_parts b n ms \<longleftrightarrow>
     (\<forall>m \<in> set ms. m_BatchID m = b \<and> m_BatchTotal m = n) \<and> distinct (map m_ID ms)"

definition parts_items :: "message list \<Rightarrow> (i64, byte list) gomap" where
  "parts_items ms = map (\<lambda>m. (m_ID m, m_Data m)) ms"

lemma join_mset: "mset (map snd xs) = mset (map snd ys) \<Longrightarrow> join xs = join ys"
proof -
  assume "mset (map snd xs) = mset (map snd ys)"
  then have "mset (filter (\<lambda>d. d \<noteq> []) (map snd xs)) = mset (filter (\<lambda>d. d \<noteq> []) (map snd ys))"
    by (simp only: mset_filter)
  then have "sort (filter (\<lambda>d. d \<noteq> []) (map snd xs)) = sort (filter (\<lambda>d. d \<noteq> []) (map snd ys))"
    by (metis sorted_list_of_multiset_mset)
  then show ?thesis by (simp add: join_def)
qed

text \<open>One part of a batch of which \<open>ms\<close> has already arrived.\<close>

lemma Add_part:
  assumes "batch_parts b n (ms @ [m])" and "length ms < 2 ^ 32 - 1"
    and "map_of c b = (if ms = [] then None else Some \<lparr>total = n, items = parts_items ms\<rparr>)"
  shows "Add c m =
    (if unat n = Suc (length ms) then ((join (parts_items (ms @ [m])), True), AList.delete b c)
     else (([], False), AList.update b \<lparr>total = n, items = parts_items (ms @ [m])\<rparr> c))"
proof -
  have m: "m_BatchID m = b" "m_BatchTotal m = n" and fresh: "m_ID m \<notin> fst ` set (parts_items ms)"
    using assms(1) by (auto simp: batch_parts_def parts_items_def)
  have len: "(of_nat (Suc (length ms)) = n) = (unat n = Suc (length ms))"
    using assms(2) by (intro of_nat_eq_word) simp
  show ?thesis
    using assms(3) m fresh len
    by (cases "ms = []") (auto simp: Add_def Let_def update_fresh_append parts_items_def)
qed

lemma batch_parts_prefix: "batch_parts b n (ms @ ns) \<Longrightarrow> batch_parts b n ms"
  by (auto simp: batch_parts_def)

lemma batch_parts_total: "batch_parts b n ms \<Longrightarrow> mset ms = mset ms' \<Longrightarrow> batch_parts b n ms'"
proof -
  assume p: "batch_parts b n ms" and eq: "mset ms = mset ms'"
  from eq have "mset (map m_ID ms) = mset (map m_ID ms')" by simp
  then have "distinct (map m_ID ms) = distinct (map m_ID ms')"
    by (rule mset_eq_imp_distinct_iff)
  with p show ?thesis
    unfolding batch_parts_def mset_eq_setD [OF eq] by simp
qed

lemma add_all_snoc:
  "add_all c (ms @ [m]) = (let (rs, c') = add_all c ms; (r, c'') = Add c' m in (rs @ [r], c''))"
  by (induction ms arbitrary: c) (auto simp: case_prod_beta Let_def)

text \<open>An incomplete batch: nothing is delivered and the parts are held.\<close>

lemma add_all_incomplete:
  assumes "batch_parts b n ms" and "length ms < unat n" and "map_of c b = None"
  shows "fst (add_all c ms) = replicate (length ms) ([], False)
    \<and> map_of (snd (add_all c ms)) =
        (if ms = [] then map_of c else (map_of c)(b \<mapsto> \<lparr>total = n, items = parts_items ms\<rparr>))"
  using assms
proof (induction ms rule: rev_induct)
  case (snoc m ms)
  have "unat n < 2 ^ 32"
    using unsigned_less [of n] by simp
  moreover from snoc have IH: "fst (add_all c ms) = replicate (length ms) ([], False)"
    "map_of (snd (add_all c ms)) =
        (if ms = [] then map_of c else (map_of c)(b \<mapsto> \<lparr>total = n, items = parts_items ms\<rparr>))"
    by (auto dest: batch_parts_prefix)
  ultimately have "Add (snd (add_all c ms)) m =
    (([], False), AList.update b \<lparr>total = n, items = parts_items (ms @ [m])\<rparr> (snd (add_all c ms)))"
    using snoc.prems by (subst Add_part [of b n ms m]) auto
  with IH show ?case
    by (auto simp: add_all_snoc case_prod_beta update_conv' simp flip: replicate_append_same)
qed simp

text \<open>The last part completes it.\<close>

lemma add_all_complete:
  assumes "batch_parts b n (ms @ [m])" and "unat n = Suc (length ms)" and "map_of c b = None"
  shows "fst (add_all c (ms @ [m])) =
      replicate (length ms) ([], False) @ [(join (parts_items (ms @ [m])), True)]
    \<and> map_of (snd (add_all c (ms @ [m]))) = map_of c"
proof -
  have "unat n < 2 ^ 32"
    using unsigned_less [of n] by simp
  moreover have pre: "fst (add_all c ms) = replicate (length ms) ([], False)"
    "map_of (snd (add_all c ms)) =
        (if ms = [] then map_of c else (map_of c)(b \<mapsto> \<lparr>total = n, items = parts_items ms\<rparr>))"
    using add_all_incomplete [of b n ms c] assms batch_parts_prefix by auto
  ultimately have "Add (snd (add_all c ms)) m =
    ((join (parts_items (ms @ [m])), True), AList.delete b (snd (add_all c ms)))"
    using assms by (subst Add_part [of b n ms m]) auto
  with pre assms(3) show ?thesis
    by (auto simp: add_all_snoc case_prod_beta delete_conv' fun_eq_iff)
qed

section \<open>Runs of the collector\<close>

datatype batch_op = BAdd message | BExpire i64

fun batch_step :: "collector \<Rightarrow> batch_op \<Rightarrow> collector" where
  "batch_step c (BAdd m) = snd (Add c m)"
| "batch_step c (BExpire b) = expire c b"

lemma collector_ok_run: "collector_ok c \<Longrightarrow> collector_ok (foldl batch_step c ops)"
proof (induction ops arbitrary: c)
  case (Cons op ops)
  then have "collector_ok (batch_step c op)"
    by (cases op) (auto intro: inv_intros)
  with Cons.IH show ?case by simp
qed simp

section \<open>Properties\<close>

text \<open>C16. A batch whose parts all arrive, each once, is delivered exactly once, by the last part, as
  the newline-separated sorted list of the parts' non-empty payloads; every earlier part delivers
  nothing, and afterwards the collector holds what it held before (no other batch is touched and
  nothing of this one is left).\<close>

theorem batch_delivers_once:
  assumes "batch_parts b n ms" and "ms \<noteq> []" and "unat n = length ms" and "map_of c b = None"
  shows "fst (add_all c ms) =
      replicate (length ms - 1) ([], False)
      @ [(join_with batchSeparator (sort (filter (\<lambda>d. d \<noteq> []) (map m_Data ms))), True)]
    \<and> map_of (snd (add_all c ms)) = map_of c"
proof -
  obtain ns m where ms: "ms = ns @ [m]"
    using assms(2) by (cases ms rule: rev_cases) auto
  have "map snd (parts_items ms) = map m_Data ms"
    by (simp add: parts_items_def)
  with add_all_complete [of b n ns m c] assms ms show ?thesis
    by (simp add: join_def)
qed

definition part :: "i64 \<Rightarrow> i64 \<Rightarrow> u32 \<Rightarrow> byte list \<Rightarrow> message" where
  "part i b n d = zero_message\<lparr>m_ID := i, m_BatchID := b, m_BatchTotal := n, m_Data := d\<rparr>"

theorem batch_delivers_once_witness:
  "fst (add_all NewBatchCollector [part 2 9 3 (str ''b''), part 1 9 3 (str ''a''), part 3 9 3 []]) =
     [([], False), ([], False), (str ''a'' @ [10] @ str ''b'', True)]"
  using batch_delivers_once
    [of 9 3 "[part 2 9 3 (str ''b''), part 1 9 3 (str ''a''), part 3 9 3 []]" NewBatchCollector]
  by (simp add: batch_parts_def part_def zero_message_def NewBatchCollector_def batchSeparator_def
      del: add_all.simps)

text \<open>The order in which the parts of a batch arrive is irrelevant: any two arrival orders
  deliver the same payload, also through the unordered iteration of the map of parts.\<close>

theorem batch_order_irrelevant:
  assumes "batch_parts b n ms" and "ms \<noteq> []" and "unat n = length ms" and "map_of c b = None"
    and "mset ms' = mset ms"
  shows "last (fst (add_all c ms')) = last (fst (add_all c ms)) \<and> snd (last (fst (add_all c ms)))"
proof -
  have len: "length ms' = length ms" and ne: "ms' \<noteq> []"
    using assms(2,5) by (auto dest: mset_eq_length)
  have parts': "batch_parts b n ms'"
    using batch_parts_total assms(1,5) by metis
  obtain ns m where ms: "ms = ns @ [m]"
    using assms(2) by (cases ms rule: rev_cases) auto
  obtain ns' m' where ms': "ms' = ns' @ [m']"
    using ne by (cases ms' rule: rev_cases) auto
  have "join (parts_items ms') = join (parts_items ms)"
    using assms(5) by (intro join_mset) (simp add: parts_items_def comp_def)
  with add_all_complete [of b n ns m c] add_all_complete [of b n ns' m' c] assms parts' ms ms' len
  show ?thesis by simp
qed

theorem batch_order_irrelevant_witness:
  "last (fst (add_all NewBatchCollector [part 2 9 2 (str ''b''), part 1 9 2 (str ''a'')]))
   = last (fst (add_all NewBatchCollector [part 1 9 2 (str ''a''), part 2 9 2 (str ''b'')]))"
  using batch_order_irrelevant
    [of 9 2 "[part 1 9 2 (str ''a''), part 2 9 2 (str ''b'')]" NewBatchCollector
      "[part 2 9 2 (str ''b''), part 1 9 2 (str ''a'')]"]
  by (simp add: batch_parts_def part_def zero_message_def NewBatchCollector_def del: add_all.simps)

text \<open>A batch that still misses parts delivers nothing and is held with the parts it has.\<close>

theorem batch_incomplete_held:
  assumes "batch_parts b n ms" and "ms \<noteq> []" and "length ms < unat n" and "map_of c b = None"
  shows "(\<forall>r \<in> set (fst (add_all c ms)). r = ([], False))
    \<and> map_of (snd (add_all c ms)) = (map_of c)(b \<mapsto> \<lparr>total = n, items = parts_items ms\<rparr>)"
  using add_all_incomplete [of b n ms c] assms by auto

theorem batch_incomplete_held_witness:
  "map_of (snd (add_all NewBatchCollector [part 1 9 2 (str ''a'')])) 9
     = Some \<lparr>total = 2, items = [(1, str ''a'')]\<rparr>"
  using batch_incomplete_held [of 9 2 "[part 1 9 2 (str ''a'')]" NewBatchCollector]
  by (simp add: batch_parts_def part_def zero_message_def NewBatchCollector_def parts_items_def
      del: add_all.simps)

text \<open>In every reachable state of the collector, whatever parts arrive and timers fire, each held
  batch has at least one part, holds each part once, and is not complete.\<close>

theorem batch_run_invariant: "collector_ok (foldl batch_step NewBatchCollector ops)"
  by (rule collector_ok_run) (rule collector_ok_new)

end
