(* ===== verification/Fifo.thy ===== *)
theory Fifo
  imports Prelude
begin

text \<open>
  The bounded insertion-ordered histories of \<open>internal/channel/history.go\<close>: \<open>fifo\<close> with its
  \<open>Add\<close> and \<open>Get\<close>. A Go panic (the head of an empty \<open>order\<close>) is \<open>None\<close>. The locale \<open>history\<close> is
  what the channel relies on: a history is the list of its entries, oldest first, cut to its
  last \<open>cap\<close> entries; it is interpreted on the code's definitions at the end.
\<close>

definition HistorySize :: int where
  "HistorySize = 5"

record ('k, 'v) fifo =
  limit :: int
  order :: "'k list"
  data :: "'k \<Rightarrow> 'v option"

definition new_fifo :: "int \<Rightarrow> ('k, 'v) fifo" where
  "new_fifo l = \<lparr>limit = l, order = [], data = (\<lambda>_. None)\<rparr>"

text \<open>\<open>newServedFilesHistory\<close> ignores its argument for the limit.\<close>

definition newHistory :: "int \<Rightarrow> ('k, 'v) fifo" where
  "newHistory l = new_fifo l"

definition newServedFilesHistory :: "int \<Rightarrow> ('k, 'v) fifo" where
  "newServedFilesHistory l = new_fifo HistorySize"

definition fifo_Add :: "('k, 'v) fifo \<Rightarrow> 'k \<Rightarrow> 'v \<Rightarrow> (bool \<times> ('k, 'v) fifo) option" where
  "fifo_Add h key v =
     (if data h key \<noteq> None then Some (False, h)
      else if limit h \<le> int (length (order h)) then
        (case order h of
           [] \<Rightarrow> None
         | pop # rest \<Rightarrow>
             Some (True, h\<lparr>order := rest @ [key], data := ((data h)(pop := None))(key \<mapsto> v)\<rparr>))
      else Some (True, h\<lparr>order := order h @ [key], data := (data h)(key \<mapsto> v)\<rparr>))"

definition fifo_Get :: "('k, 'v) fifo \<Rightarrow> 'k \<Rightarrow> 'v option" where
  "fifo_Get h key = data h key"

section \<open>What a history promises\<close>

definition last_n :: "nat \<Rightarrow> 'a list \<Rightarrow> 'a list" where
  "last_n n xs = drop (length xs - n) xs"

lemma last_n_short: "length xs \<le> n \<Longrightarrow> last_n n xs = xs"
  by (simp add: last_n_def)

lemma length_last_n [simp]: "length (last_n n xs) = min n (length xs)"
  by (auto simp: last_n_def)

lemma last_n_snoc: "last_n n (last_n n xs @ [x]) = last_n n (xs @ [x])"
  by (auto simp: last_n_def min_def not_le intro: arg_cong2 [where f = drop])

lemma set_last_n: "set (last_n n xs) \<subseteq> set xs"
  by (auto simp: last_n_def dest: in_set_dropD)

lemma last_n_map: "map f (last_n n xs) = last_n n (map f xs)"
  by (simp add: last_n_def drop_map)

lemma last_n_nth_in:
  "distinct xs \<Longrightarrow> i < length xs \<Longrightarrow> xs ! i \<in> set (last_n n xs) \<longleftrightarrow> length xs \<le> i + n"
  by (auto simp: last_n_def in_set_conv_nth nth_eq_iff_index_eq intro: exI [of _ "i - (length xs - n)"])

locale history =
  fixes add :: "'h \<Rightarrow> 'k \<Rightarrow> 'v \<Rightarrow> (bool \<times> 'h) option"
    and get :: "'h \<Rightarrow> 'k \<Rightarrow> 'v option"
    and entries :: "'h \<Rightarrow> ('k \<times> 'v) list"
    and inv :: "'h \<Rightarrow> bool"
    and cap :: nat
  assumes get_entries: "inv h \<Longrightarrow> get h k = map_of (entries h) k"
    and entries_distinct: "inv h \<Longrightarrow> distinct (map fst (entries h))"
    and entries_bounded: "inv h \<Longrightarrow> length (entries h) \<le> cap"
    and add_present: "inv h \<Longrightarrow> get h k \<noteq> None \<Longrightarrow> add h k v = Some (False, h)"
    and add_absent: "inv h \<Longrightarrow> get h k = None \<Longrightarrow>
      \<exists>h'. add h k v = Some (True, h') \<and> inv h' \<and> entries h' = last_n cap (entries h @ [(k, v)])"
begin

lemma add_total: "inv h \<Longrightarrow> \<exists>r h'. add h k v = Some (r, h') \<and> inv h'"
  using add_absent [of h k v] add_present [of h k v] by (cases "get h k") auto

lemma add_inv: "inv h \<Longrightarrow> add h k v = Some (r, h') \<Longrightarrow> inv h'"
  using add_total [of h k v] by auto

lemma add_result: "inv h \<Longrightarrow> add h k v = Some (r, h') \<Longrightarrow> r = (get h k = None)"
  using add_absent [of h k v] add_present [of h k v] by (cases "get h k") auto

lemma add_entries:
  "inv h \<Longrightarrow> get h k = None \<Longrightarrow> add h k v = Some (r, h')
   \<Longrightarrow> entries h' = last_n cap (entries h @ [(k, v)])"
  using add_absent [of h k v] by auto

lemma get_mem: "inv h \<Longrightarrow> get h k = Some v \<longleftrightarrow> (k, v) \<in> set (entries h)"
  by (simp add: get_entries entries_distinct)

lemma get_None: "inv h \<Longrightarrow> get h k = None \<longleftrightarrow> k \<notin> fst ` set (entries h)"
  by (simp add: get_entries map_of_eq_None_iff)

lemma add_keeps_new:
  assumes "inv h" and "0 < cap" and "add h k v = Some (True, h')"
  shows "get h' k = Some v"
proof -
  have "get h k = None"
    using add_result [OF assms(1,3)] by simp
  with assms have "entries h' = last_n cap (entries h @ [(k, v)])"
    by (auto dest: add_entries)
  moreover have "inv h'" using assms add_inv by blast
  ultimately show ?thesis
    using assms(2) by (simp add: get_mem last_n_def)
qed

lemma add_all_values:
  assumes inv: "inv h" and add: "add h k v = Some (r, h')"
    and old: "\<And>k v. get h k = Some v \<Longrightarrow> P k v" and new: "P k v"
    and res: "get h' j = Some w"
  shows "P j w"
proof (cases "get h k")
  case None
  with inv add have "entries h' = last_n cap (entries h @ [(k, v)])" "inv h'"
    by (auto dest: add_entries add_inv)
  with res set_last_n [of cap "entries h @ [(k, v)]"] have "(j, w) \<in> set (entries h @ [(k, v)])"
    by (auto simp: get_mem)
  with inv old new show ?thesis by (auto simp: get_mem)
next
  case (Some w')
  with add_present [OF inv, of k v] add have "h' = h" by simp
  with old res show ?thesis by simp
qed

end

section \<open>The code keeps the promise\<close>

definition fifo_entries :: "('k, 'v) fifo \<Rightarrow> ('k \<times> 'v) list" where
  "fifo_entries h = map (\<lambda>k. (k, the (data h k))) (order h)"

definition fifo_inv :: "int \<Rightarrow> ('k, 'v) fifo \<Rightarrow> bool" where
  "fifo_inv l h \<longleftrightarrow> limit h = l \<and> 0 < l \<and> distinct (order h) \<and> int (length (order h)) \<le> l
     \<and> dom (data h) = set (order h)"

lemma fifo_inv_new [inv_intros]: "0 < l \<Longrightarrow> fifo_inv l (new_fifo l)"
  by (simp add: fifo_inv_def new_fifo_def)

lemma fifo_entries_new [simp]: "fifo_entries (new_fifo l) = []"
  by (simp add: fifo_entries_def new_fifo_def)

lemma fifo_get_new [simp]: "fifo_Get (new_fifo l) k = None"
  by (simp add: fifo_Get_def new_fifo_def)

lemma fifo_get_entries: "fifo_inv l h \<Longrightarrow> fifo_Get h k = map_of (fifo_entries h) k"
  by (auto simp: fifo_inv_def fifo_Get_def fifo_entries_def map_of_map_keys dom_def)

lemma fifo_keys: "map fst (fifo_entries h) = order h"
  by (simp add: fifo_entries_def comp_def)

lemma fifo_add_absent:
  assumes inv: "fifo_inv l h" and new: "fifo_Get h k = None"
  shows "\<exists>h'. fifo_Add h k v = Some (True, h') \<and> fifo_inv l h'
    \<and> fifo_entries h' = last_n (nat l) (fifo_entries h @ [(k, v)])"
proof (cases "limit h \<le> int (length (order h))")
  case True
  with inv have len: "int (length (order h)) = l" by (simp add: fifo_inv_def)
  with inv obtain pop rest where ord: "order h = pop # rest"
    by (cases "order h") (auto simp: fifo_inv_def)
  with len have nl: "nat l = Suc (length rest)" by simp
  let ?h = "h\<lparr>order := rest @ [k], data := ((data h)(pop := None))(k \<mapsto> v)\<rparr>"
  have k: "k \<notin> set (order h)" and pop: "pop \<notin> set rest"
    using inv new ord by (auto simp: fifo_inv_def fifo_Get_def)
  have "fifo_Add h k v = Some (True, ?h)"
    using True new ord by (simp add: fifo_Add_def fifo_Get_def)
  moreover have "fifo_inv l ?h"
    using inv ord k pop by (auto simp: fifo_inv_def)
  moreover have "fifo_entries ?h = last_n (nat l) (fifo_entries h @ [(k, v)])"
    using ord k pop nl by (auto simp: fifo_entries_def last_n_def)
  ultimately show ?thesis by blast
next
  case False
  let ?h = "h\<lparr>order := order h @ [k], data := (data h)(k \<mapsto> v)\<rparr>"
  have k: "k \<notin> set (order h)"
    using inv new by (auto simp: fifo_inv_def fifo_Get_def)
  have "fifo_Add h k v = Some (True, ?h)"
    using False new by (simp add: fifo_Add_def fifo_Get_def)
  moreover have "fifo_inv l ?h"
    using inv False k by (auto simp: fifo_inv_def)
  moreover have "fifo_entries ?h = last_n (nat l) (fifo_entries h @ [(k, v)])"
    using inv False k by (auto simp: fifo_entries_def last_n_def fifo_inv_def)
  ultimately show ?thesis by blast
qed

interpretation hist: history fifo_Add fifo_Get fifo_entries "fifo_inv HistorySize" "nat HistorySize"
proof unfold_locales
  show "fifo_inv HistorySize h \<Longrightarrow> length (fifo_entries h) \<le> nat HistorySize" for h :: "('a, 'b) fifo"
    by (auto simp: fifo_inv_def fifo_entries_def)
  show "fifo_inv HistorySize h \<Longrightarrow> fifo_Get h k \<noteq> None \<Longrightarrow> fifo_Add h k v = Some (False, h)"
    for h :: "('a, 'b) fifo" and k v
    by (simp add: fifo_Add_def fifo_Get_def)
qed (fact fifo_get_entries, simp add: fifo_keys fifo_inv_def, fact fifo_add_absent)

end
