(* ===== verification/Channels.thy ===== *)
theory Channels
  imports Domain Fifo
begin

text \<open>
  The hub between peers, clipboard and node (\<open>internal/channel/channel.go\<close>): the last message,
  the histories of announced contents and of served files, and the two Go channels the node
  reads. A Go channel is the list of the values sent and not yet received, oldest first; a sender
  that blocks is a value waiting in that list. \<open>None\<close> is a panic of a history.
\<close>

record channel =
  lastMsg :: event_message
  fileHistory :: "(u64, event_announce) fifo"
  servedFiles :: "(i64, event_message) fifo"
  msg :: "event_message list"
  ann :: "event_announce list"
  ann_cap :: nat

definition New :: "nat \<Rightarrow> channel" where
  "New peerMaxCount =
     \<lparr>lastMsg = zero_event_message, fileHistory = newHistory HistorySize,
      servedFiles = newServedFilesHistory HistorySize, msg = [], ann = [], ann_cap = peerMaxCount\<rparr>"

definition LastMsg :: "channel \<Rightarrow> event_message" where
  "LastMsg c = lastMsg c"

definition Get :: "channel \<Rightarrow> i64 \<Rightarrow> event_message option" where
  "Get c msgID =
     (if m_ID (Payload (lastMsg c)) = msgID then Some (lastMsg c) else fifo_Get (servedFiles c) msgID)"

definition updateLastMsg :: "channel \<Rightarrow> event_message \<Rightarrow> (bool \<times> channel) option" where
  "updateLastMsg c m =
     (if \<not> Message_Zero (Payload (lastMsg c))
         \<and> Message_Duplicate (Payload (lastMsg c)) (Payload m) then Some (False, c)
      else
        (let c1 = c\<lparr>lastMsg := m\<rparr> in
         if IsPath (m_MimeType (Payload m)) then
           (case fifo_Add (servedFiles c1) (m_ID (Payload m)) m of
              None \<Rightarrow> None
            | Some (_, h) \<Rightarrow> Some (True, c1\<lparr>servedFiles := h\<rparr>))
         else Some (True, c1)))"

definition Send :: "channel \<Rightarrow> event_message \<Rightarrow> channel option" where
  "Send c m =
     (case updateLastMsg c m of
        None \<Rightarrow> None
      | Some (True, c') \<Rightarrow> Some (c'\<lparr>msg := msg c' @ [m]\<rparr>)
      | Some (False, c') \<Rightarrow> Some c')"

definition shouldUpdateAnn :: "channel \<Rightarrow> event_announce \<Rightarrow> (bool \<times> channel) option" where
  "shouldUpdateAnn c a =
     (case fifo_Add (fileHistory c) (a_ContentHash (Payload a)) a of
        None \<Rightarrow> None
      | Some (r, h) \<Rightarrow> Some (r, c\<lparr>fileHistory := h\<rparr>))"

definition Announce :: "channel \<Rightarrow> event_announce \<Rightarrow> channel option" where
  "Announce c a =
     (case shouldUpdateAnn c a of
        None \<Rightarrow> None
      | Some (True, c') \<Rightarrow> Some (c'\<lparr>ann := ann c' @ [a]\<rparr>)
      | Some (False, c') \<Rightarrow> Some c')"

text \<open>Receiving from the two channels: \<open>None\<close> when there is nothing to receive yet.\<close>

definition Messages :: "channel \<Rightarrow> (event_message \<times> channel) option" where
  "Messages c = (case msg c of [] \<Rightarrow> None | m # ms \<Rightarrow> Some (m, c\<lparr>msg := ms\<rparr>))"

definition Announcements :: "channel \<Rightarrow> (event_announce \<times> channel) option" where
  "Announcements c = (case ann c of [] \<Rightarrow> None | a # as \<Rightarrow> Some (a, c\<lparr>ann := as\<rparr>))"

fun send_all :: "channel \<Rightarrow> event_message list \<Rightarrow> channel option" where
  "send_all c [] = Some c"
| "send_all c (m # ms) = Option.bind (Send c m) (\<lambda>c'. send_all c' ms)"

section \<open>Invariant\<close>

definition served_ok :: "i64 \<Rightarrow> event_message \<Rightarrow> bool" where
  "served_ok k m \<longleftrightarrow> m_ID (Payload m) = k \<and> IsPath (m_MimeType (Payload m))"

definition announced_ok :: "u64 \<Rightarrow> event_announce \<Rightarrow> bool" where
  "announced_ok k a \<longleftrightarrow> a_ContentHash (Payload a) = k"

definition channel_ok :: "channel \<Rightarrow> bool" where
  "channel_ok c \<longleftrightarrow>
     fifo_inv HistorySize (fileHistory c) \<and> fifo_inv HistorySize (servedFiles c)
     \<and> (\<forall>k m. fifo_Get (servedFiles c) k = Some m \<longrightarrow> served_ok k m)
     \<and> (\<forall>k a. fifo_Get (fileHistory c) k = Some a \<longrightarrow> announced_ok k a)"

lemma channel_ok_New [inv_intros]: "channel_ok (New n)"
  by (simp add: channel_ok_def New_def newHistory_def newServedFilesHistory_def fifo_inv_new
      HistorySize_def fifo_get_new)

lemma updateLastMsg_ok:
  assumes ok: "channel_ok c"
  shows "\<exists>r c'. updateLastMsg c m = Some (r, c') \<and> channel_ok c'"
proof (cases "IsPath (m_MimeType (Payload m))")
  case True
  have inv: "fifo_inv HistorySize (servedFiles c)" using ok by (simp add: channel_ok_def)
  obtain r h where add: "fifo_Add (servedFiles c) (m_ID (Payload m)) m = Some (r, h)"
    and inv': "fifo_inv HistorySize h"
    using hist.add_total [OF inv, of "m_ID (Payload m)" m] by (elim exE conjE)
  have "served_ok (m_ID (Payload m)) m"
    using True by (simp add: served_ok_def)
  with ok have "served_ok j w" if "fifo_Get h j = Some w" for j w
    using hist.add_all_values [OF inv add, of served_ok j w] that unfolding channel_ok_def by blast
  with ok inv' have "channel_ok (c\<lparr>lastMsg := m, servedFiles := h\<rparr>)"
    by (simp add: channel_ok_def)
  moreover have "updateLastMsg c m = Some (False, c)
      \<or> updateLastMsg c m = Some (True, c\<lparr>lastMsg := m, servedFiles := h\<rparr>)"
    using True add by (simp add: updateLastMsg_def)
  ultimately show ?thesis using ok by blast
next
  case False
  then have "updateLastMsg c m = Some (False, c) \<or> updateLastMsg c m = Some (True, c\<lparr>lastMsg := m\<rparr>)"
    by (simp add: updateLastMsg_def)
  moreover have "channel_ok (c\<lparr>lastMsg := m\<rparr>)"
    using ok by (simp add: channel_ok_def)
  ultimately show ?thesis using ok by blast
qed

lemma Send_ok: "channel_ok c \<Longrightarrow> \<exists>c'. Send c m = Some c' \<and> channel_ok c'"
proof -
  assume "channel_ok c"
  then obtain r c' where upd: "updateLastMsg c m = Some (r, c')" and ok: "channel_ok c'"
    using updateLastMsg_ok by blast
  then have "channel_ok (c'\<lparr>msg := msg c' @ [m]\<rparr>)"
    by (simp add: channel_ok_def)
  with upd ok show ?thesis
    by (cases r) (simp_all add: Send_def)
qed

lemma Announce_ok: "channel_ok c \<Longrightarrow> \<exists>c'. Announce c a = Some c' \<and> channel_ok c'"
proof -
  assume ok: "channel_ok c"
  then have inv: "fifo_inv HistorySize (fileHistory c)" by (simp add: channel_ok_def)
  obtain r h where add: "fifo_Add (fileHistory c) (a_ContentHash (Payload a)) a = Some (r, h)"
    and inv': "fifo_inv HistorySize h"
    using hist.add_total [OF inv, of "a_ContentHash (Payload a)" a] by (elim exE conjE)
  have "announced_ok (a_ContentHash (Payload a)) a"
    by (simp add: announced_ok_def)
  with ok have "announced_ok j w" if "fifo_Get h j = Some w" for j w
    using hist.add_all_values [OF inv add, of announced_ok j w] that unfolding channel_ok_def by blast
  with ok inv' have "channel_ok (c\<lparr>fileHistory := h\<rparr>)" "channel_ok (c\<lparr>fileHistory := h, ann := ann c @ [a]\<rparr>)"
    by (simp_all add: channel_ok_def)
  with add show ?thesis
    by (cases r) (simp_all add: Announce_def shouldUpdateAnn_def)
qed

lemma Messages_ok: "channel_ok c \<Longrightarrow> Messages c = Some (m, c') \<Longrightarrow> channel_ok c'"
  by (auto simp: Messages_def channel_ok_def split: list.splits)

lemma Announcements_ok: "channel_ok c \<Longrightarrow> Announcements c = Some (a, c') \<Longrightarrow> channel_ok c'"
  by (auto simp: Announcements_def channel_ok_def split: list.splits)

lemma Get_own: "channel_ok c \<Longrightarrow> Get c k = Some m \<Longrightarrow> m_ID (Payload m) = k"
  unfolding Get_def channel_ok_def served_ok_def by (fastforce split: if_splits)

section \<open>Runs\<close>

datatype channel_op = OpSend event_message | OpAnnounce event_announce | OpMessage | OpAnnouncement

fun channel_step :: "channel \<Rightarrow> channel_op \<Rightarrow> channel option" where
  "channel_step c (OpSend m) = Send c m"
| "channel_step c (OpAnnounce a) = Announce c a"
| "channel_step c OpMessage = Some (case Messages c of None \<Rightarrow> c | Some (_, c') \<Rightarrow> c')"
| "channel_step c OpAnnouncement = Some (case Announcements c of None \<Rightarrow> c | Some (_, c') \<Rightarrow> c')"

fun channel_run :: "channel \<Rightarrow> channel_op list \<Rightarrow> channel option" where
  "channel_run c [] = Some c"
| "channel_run c (op # ops) = Option.bind (channel_step c op) (\<lambda>c'. channel_run c' ops)"

lemma channel_step_ok: "channel_ok c \<Longrightarrow> \<exists>c'. channel_step c op = Some c' \<and> channel_ok c'"
  by (cases op) (auto split: option.split dest: Messages_ok Announcements_ok intro: Send_ok Announce_ok)

lemma channel_run_ok: "channel_ok c \<Longrightarrow> \<exists>c'. channel_run c ops = Some c' \<and> channel_ok c'"
proof (induction ops arbitrary: c)
  case (Cons op ops)
  then obtain c' where "channel_step c op = Some c'" "channel_ok c'"
    using channel_step_ok by blast
  with Cons.IH show ?case by simp
qed simp

section \<open>Deduplication\<close>

lemma Send_duplicate:
  "\<not> Message_Zero (Payload (lastMsg c)) \<Longrightarrow> Message_Duplicate (Payload (lastMsg c)) (Payload m)
   \<Longrightarrow> Send c m = Some c"
  by (simp add: Send_def updateLastMsg_def)

lemma Send_new_other:
  "\<not> (\<not> Message_Zero (Payload (lastMsg c)) \<and> Message_Duplicate (Payload (lastMsg c)) (Payload m))
   \<Longrightarrow> \<not> IsPath (m_MimeType (Payload m))
   \<Longrightarrow> Send c m = Some (c\<lparr>lastMsg := m, msg := msg c @ [m]\<rparr>)"
  by (auto simp: Send_def updateLastMsg_def)

lemma Send_new_path:
  assumes ok: "channel_ok c" and path: "IsPath (m_MimeType (Payload m))"
    and new: "\<not> (\<not> Message_Zero (Payload (lastMsg c)) \<and> Message_Duplicate (Payload (lastMsg c)) (Payload m))"
    and fresh: "fifo_Get (servedFiles c) (m_ID (Payload m)) = None"
  obtains h where "Send c m = Some (c\<lparr>lastMsg := m, servedFiles := h, msg := msg c @ [m]\<rparr>)"
    and "fifo_entries h = last_n 5 (fifo_entries (servedFiles c) @ [(m_ID (Payload m), m)])"
proof -
  have inv: "fifo_inv HistorySize (servedFiles c)" using ok by (simp add: channel_ok_def)
  from hist.add_absent [OF inv fresh, of m] obtain h where
    "fifo_Add (servedFiles c) (m_ID (Payload m)) m = Some (True, h)"
    "fifo_entries h = last_n (nat HistorySize) (fifo_entries (servedFiles c) @ [(m_ID (Payload m), m)])"
    by blast
  with path new show thesis
    by (intro that [of h]) (auto simp: Send_def updateLastMsg_def HistorySize_def)
qed

lemma Send_new:
  assumes "channel_ok c"
    and new: "\<not> (\<not> Message_Zero (Payload (lastMsg c)) \<and> Message_Duplicate (Payload (lastMsg c)) (Payload m))"
  shows "\<exists>h. Send c m = Some (c\<lparr>lastMsg := m, servedFiles := h, msg := msg c @ [m]\<rparr>)"
proof (cases "IsPath (m_MimeType (Payload m))")
  case False
  have "c\<lparr>lastMsg := m, msg := msg c @ [m]\<rparr> = c\<lparr>lastMsg := m, servedFiles := servedFiles c, msg := msg c @ [m]\<rparr>"
    by (cases c) simp
  with Send_new_other [OF new False] show ?thesis by metis
next
  case True
  obtain c' where "Send c m = Some c'" using Send_ok [OF assms(1)] by blast
  with new True show ?thesis
    by (auto simp: Send_def updateLastMsg_def split: option.splits if_splits prod.splits bool.splits)
qed

text \<open>The contents announced for the first time.\<close>

fun first_by_hash :: "event_announce list \<Rightarrow> u64 set \<Rightarrow> event_announce list" where
  "first_by_hash [] seen = []"
| "first_by_hash (a # as) seen =
     (if a_ContentHash (Payload a) \<in> seen then first_by_hash as seen
      else a # first_by_hash as (insert (a_ContentHash (Payload a)) seen))"

fun announce_all :: "channel \<Rightarrow> event_announce list \<Rightarrow> channel option" where
  "announce_all c [] = Some c"
| "announce_all c (a # as) = Option.bind (Announce c a) (\<lambda>c'. announce_all c' as)"

definition ann_hashes :: "channel \<Rightarrow> u64 set" where
  "ann_hashes c = fst ` set (fifo_entries (fileHistory c))"

lemma Announce_seen:
  assumes ok: "channel_ok c" and "a_ContentHash (Payload a) \<in> ann_hashes c"
  shows "Announce c a = Some c"
proof -
  have inv: "fifo_inv HistorySize (fileHistory c)" using ok by (simp add: channel_ok_def)
  have "fifo_Get (fileHistory c) (a_ContentHash (Payload a)) \<noteq> None"
    using assms(2) hist.get_None [OF inv] by (simp add: ann_hashes_def)
  from hist.add_present [OF inv this] show ?thesis
    by (simp add: Announce_def shouldUpdateAnn_def)
qed

lemma Announce_unseen:
  assumes ok: "channel_ok c" and new: "a_ContentHash (Payload a) \<notin> ann_hashes c"
    and room: "card (ann_hashes c) < 5"
  obtains c' where "Announce c a = Some c'" and "channel_ok c'" and "ann c' = ann c @ [a]"
    and "ann_hashes c' = insert (a_ContentHash (Payload a)) (ann_hashes c)"
proof -
  have inv: "fifo_inv HistorySize (fileHistory c)" using ok by (simp add: channel_ok_def)
  have none: "fifo_Get (fileHistory c) (a_ContentHash (Payload a)) = None"
    using new hist.get_None [OF inv] by (simp add: ann_hashes_def)
  from hist.add_absent [OF inv none, of a] obtain h where
    add: "fifo_Add (fileHistory c) (a_ContentHash (Payload a)) a = Some (True, h)"
    and ent: "fifo_entries h = last_n 5 (fifo_entries (fileHistory c) @ [(a_ContentHash (Payload a), a)])"
    by (auto simp: HistorySize_def)
  have "card (ann_hashes c) = length (fifo_entries (fileHistory c))"
    using hist.entries_distinct [OF inv] distinct_card [of "map fst (fifo_entries (fileHistory c))"]
    by (simp add: ann_hashes_def)
  with ent room have ent': "fifo_entries h = fifo_entries (fileHistory c) @ [(a_ContentHash (Payload a), a)]"
    by (simp add: last_n_short)
  let ?c = "c\<lparr>fileHistory := h, ann := ann c @ [a]\<rparr>"
  have res: "Announce c a = Some ?c"
    using add by (simp add: Announce_def shouldUpdateAnn_def)
  show thesis
  proof (rule that [OF res])
    show "channel_ok ?c" using Announce_ok [OF ok, of a] res by simp
    show "ann_hashes ?c = insert (a_ContentHash (Payload a)) (ann_hashes c)"
      by (simp add: ann_hashes_def ent')
  qed simp
qed

lemma announce_all_first:
  assumes "channel_ok c"
    and "card (ann_hashes c \<union> (\<lambda>a. a_ContentHash (Payload a)) ` set as) \<le> 5"
  shows "\<exists>c'. announce_all c as = Some c' \<and> ann c' = ann c @ first_by_hash as (ann_hashes c)"
  using assms
proof (induction as arbitrary: c)
  case (Cons a as)
  let ?h = "a_ContentHash (Payload a)"
  show ?case
  proof (cases "?h \<in> ann_hashes c")
    case True
    with Cons show ?thesis by (simp add: Announce_seen insert_absorb)
  next
    case False
    have fin: "finite (ann_hashes c)" by (simp add: ann_hashes_def)
    have "card (insert ?h (ann_hashes c)) \<le> 5"
      using Cons.prems(2) by (rule order_trans [OF card_mono, rotated 2]) (auto simp: fin)
    with False fin have "card (ann_hashes c) < 5" by simp
    then obtain c' where c': "Announce c a = Some c'" "channel_ok c'" "ann c' = ann c @ [a]"
      "ann_hashes c' = insert ?h (ann_hashes c)"
      using Announce_unseen [OF Cons.prems(1) False] by blast
    with Cons.prems(2) Cons.IH [of c'] False show ?thesis by simp
  qed
qed simp

section \<open>Serving files\<close>

definition copied_files :: "event_message list \<Rightarrow> bool" where
  "copied_files ms \<longleftrightarrow>
     (\<forall>m \<in> set ms. IsPath (m_MimeType (Payload m)) \<and> \<not> Message_Zero (Payload m))
     \<and> distinct (map (\<lambda>m. m_ID (Payload m)) ms) \<and> distinct (map (\<lambda>m. m_ContentHash (Payload m)) ms)"

definition keyed :: "event_message \<Rightarrow> i64 \<times> event_message" where
  "keyed m = (m_ID (Payload m), m)"

lemma copied_files_snoc:
  "copied_files (ms @ [m]) \<Longrightarrow> copied_files ms \<and> IsPath (m_MimeType (Payload m))
     \<and> (\<forall>m' \<in> set ms. \<not> Message_Duplicate (Payload m') (Payload m))"
  unfolding copied_files_def Message_Duplicate_def Message_Zero_def
  by (simp add: image_iff) metis

lemma send_all_snoc: "send_all c (ms @ [m]) = Option.bind (send_all c ms) (\<lambda>c'. Send c' m)"
  by (induction ms arbitrary: c) (auto split: Option.bind_split)

lemma send_all_served:
  "copied_files ms \<Longrightarrow>
   \<exists>c. send_all (New n) ms = Some c \<and> channel_ok c
     \<and> fifo_entries (servedFiles c) = last_n 5 (map keyed ms) \<and> msg c = ms
     \<and> lastMsg c = (if ms = [] then zero_event_message else last ms)"
proof (induction ms rule: rev_induct)
  case Nil
  show ?case
    by (simp add: channel_ok_New, simp add: New_def newServedFilesHistory_def last_n_def)
next
  case (snoc m ms)
  then obtain c where c: "send_all (New n) ms = Some c" "channel_ok c"
    "fifo_entries (servedFiles c) = last_n 5 (map keyed ms)" "msg c = ms"
    "lastMsg c = (if ms = [] then zero_event_message else last ms)"
    using copied_files_snoc by blast
  have inv: "fifo_inv HistorySize (servedFiles c)" using c(2) by (simp add: channel_ok_def)
  have path: "IsPath (m_MimeType (Payload m))" using snoc.prems copied_files_snoc by blast
  have "m_ID (Payload m) \<notin> (\<lambda>m. m_ID (Payload m)) ` set ms"
    using snoc.prems by (auto simp: copied_files_def)
  then have "fifo_Get (servedFiles c) (m_ID (Payload m)) = None"
    using set_last_n [of 5 "map keyed ms"] c(3) hist.get_None [OF inv] by (auto simp: keyed_def)
  moreover have "\<not> (\<not> Message_Zero (Payload (lastMsg c)) \<and> Message_Duplicate (Payload (lastMsg c)) (Payload m))"
    using c(5) copied_files_snoc [OF snoc.prems] by (simp add: zero_event_message_def)
  ultimately obtain h where h: "Send c m = Some (c\<lparr>lastMsg := m, servedFiles := h, msg := msg c @ [m]\<rparr>)"
    "fifo_entries h = last_n 5 (fifo_entries (servedFiles c) @ [keyed m])"
    using Send_new_path [OF c(2) path] unfolding keyed_def by blast
  moreover have "channel_ok (c\<lparr>lastMsg := m, servedFiles := h, msg := msg c @ [m]\<rparr>)"
    using Send_ok [OF c(2), of m] h(1) by simp
  ultimately show ?case
    using c by (simp add: send_all_snoc last_n_snoc)
qed

lemma served_get:
  assumes inv: "fifo_inv HistorySize h" and ent: "fifo_entries h = last_n 5 (map keyed ms)"
    and dist: "distinct (map (\<lambda>m. m_ID (Payload m)) ms)" and i: "i < length ms"
  shows "fifo_Get h (m_ID (Payload (ms ! i))) = (if length ms \<le> i + 5 then Some (ms ! i) else None)"
proof (cases "length ms \<le> i + 5")
  case True
  have "distinct (map keyed ms)"
    using dist by (auto simp: distinct_map inj_on_def keyed_def)
  with True i have "keyed (ms ! i) \<in> set (fifo_entries h)"
    using last_n_nth_in [of "map keyed ms" i 5] ent by simp
  with True hist.get_mem [OF inv] show ?thesis by (simp add: keyed_def)
next
  case False
  have "fst ` set (fifo_entries h) = set (last_n 5 (map (\<lambda>m. m_ID (Payload m)) ms))"
    by (simp add: ent last_n_map keyed_def comp_def flip: set_map)
  with False i dist have "m_ID (Payload (ms ! i)) \<notin> fst ` set (fifo_entries h)"
    using last_n_nth_in [of "map (\<lambda>m. m_ID (Payload m)) ms" i 5] by simp
  with False hist.get_None [OF inv] show ?thesis by simp
qed

lemmas channel_facts = updateLastMsg_ok Send_ok Announce_ok Messages_ok Announcements_ok Get_own

section \<open>Properties\<close>

text \<open>No sequence of sends, announcements and receives panics (the eviction of a history never
  reads the head of an empty queue), and every state reached keeps both histories within their bound,
  in step with their maps, and filed under the identifier and the content hash of what they hold.\<close>

theorem channel_never_panics: "\<exists>c. channel_run (New n) ops = Some c \<and> channel_ok c"
  by (rule channel_run_ok) (rule channel_ok_New)

text \<open>Whatever message the channel finds for an identifier has that identifier, in every reachable
  state: a request is never answered with another message.\<close>

theorem channel_get_own:
  assumes "channel_run (New n) ops = Some c" and "Get c k = Some m"
  shows "m_ID (Payload m) = k"
  using channel_run_ok [OF channel_ok_New, of n ops] Get_own assms by auto

definition file_msg :: "i64 \<Rightarrow> event_message" where
  "file_msg i = \<lparr>From = 1, Created = zero_time,
     Payload = zero_message\<lparr>m_ID := i, m_MimeType := TypePath, m_ContentHash := i, m_ContentLength := 1\<rparr>\<rparr>"

theorem channel_get_own_witness:
  "\<exists>c m. channel_run (New 1) [OpSend (file_msg 7), OpSend (file_msg 8)] = Some c
     \<and> Get c 7 = Some m \<and> m_ID (Payload m) = 7"
proof -
  let ?ops = "[OpSend (file_msg 7), OpSend (file_msg 8)]"
  obtain c where run: "channel_run (New 1) ?ops = Some c"
    using channel_run_ok [OF channel_ok_New] by blast
  have "Get (the (channel_run (New 1) ?ops)) 7 = Some (file_msg 7)"
    by code_simp
  with run have get: "Get c 7 = Some (file_msg 7)" by simp
  from channel_get_own [OF run get] run get show ?thesis by blast
qed

text \<open>Announcing is idempotent per content: as long as the announcements carry at most five
  different contents, the node receives exactly the first announcement of each, in order, however
  often and in whatever interleaving they are repeated.\<close>

theorem announce_once_per_content:
  assumes "card ((\<lambda>a. a_ContentHash (Payload a)) ` set as) \<le> 5"
  shows "\<exists>c. announce_all (New n) as = Some c \<and> ann c = first_by_hash as {}"
proof -
  have "ann_hashes (New n) = {}" "ann (New n) = []"
    by (simp_all add: ann_hashes_def New_def newHistory_def)
  with announce_all_first [OF channel_ok_New, of n as] assms show ?thesis by simp
qed

definition file_ann :: "i64 \<Rightarrow> event_announce" where
  "file_ann i = \<lparr>From = 1, Created = zero_time, Payload = Message_Announce (Payload (file_msg i))\<rparr>"

theorem announce_once_per_content_witness:
  "\<exists>c. announce_all (New 4) [file_ann 3, file_ann 4, file_ann 3] = Some c
     \<and> ann c = [file_ann 3, file_ann 4]"
proof -
  have "a_ContentHash (Payload (file_ann i)) = i" for i
    by (simp add: file_ann_def file_msg_def)
  then have "first_by_hash [file_ann 3, file_ann 4, file_ann 3] {} = [file_ann 3, file_ann 4]"
    and "card ((\<lambda>a. a_ContentHash (Payload a)) ` set [file_ann 3, file_ann 4, file_ann 3]) \<le> 5"
    by (simp_all add: card_insert_if)
  with announce_once_per_content [of "[file_ann 3, file_ann 4, file_ann 3]" 4] show ?thesis by simp
qed

text \<open>C17. A channel serves the last five files it was sent and no other: after copying files with
  different identifiers and contents, the file at position \<open>i\<close> can be requested exactly when at most
  four came after it. (A batch may have more files than that, see the default of
  \<open>MaxClipboardFiles\<close>.)\<close>

theorem channel_serves_last_five:
  assumes "copied_files ms" and "i < length ms"
  shows "\<exists>c. send_all (New n) ms = Some c \<and> msg c = ms
    \<and> Get c (m_ID (Payload (ms ! i))) = (if length ms \<le> i + 5 then Some (ms ! i) else None)"
proof -
  let ?id = "\<lambda>m. m_ID (Payload m)"
  obtain c where c: "send_all (New n) ms = Some c" "channel_ok c"
    "fifo_entries (servedFiles c) = last_n 5 (map keyed ms)" "msg c = ms" "lastMsg c = last ms"
    using send_all_served [OF assms(1), of n] assms(2) by (auto split: if_splits)
  have inv: "fifo_inv HistorySize (servedFiles c)" using c(2) by (simp add: channel_ok_def)
  have dist: "distinct (map ?id ms)" using assms(1) by (simp add: copied_files_def)
  have "fifo_Get (servedFiles c) (?id (ms ! i)) = (if length ms \<le> i + 5 then Some (ms ! i) else None)"
    using served_get [OF inv c(3) dist assms(2)] .
  moreover have "?id (last ms) = ?id (ms ! i) \<Longrightarrow> i = length ms - 1"
    using dist assms(2) nth_eq_iff_index_eq [OF dist, of "length ms - 1" i]
    by (cases "ms = []") (auto simp: last_conv_nth)
  moreover have lst: "last ms = ms ! (length ms - 1)"
    using assms(2) by (intro last_conv_nth) auto
  ultimately show ?thesis
    using c assms(2) lst by (auto simp: Get_def)
qed

theorem channel_serves_last_five_witness:
  "\<exists>c. send_all (New 1) (map file_msg [1, 2, 3, 4, 5, 6]) = Some c \<and> Get c 1 = None"
proof -
  have "copied_files (map file_msg [1, 2, 3, 4, 5, 6])"
    by (simp add: copied_files_def file_msg_def Message_Zero_def IsPath_def)
  from channel_serves_last_five [OF this, of 0 1] show ?thesis
    by (auto simp: file_msg_def simp del: send_all.simps)
qed

end
