(* ===== verification/Pool.thy ===== *)
theory Pool
  imports Prelude
begin

text \<open>
  The buffer pool (\<open>pkg/pool/byteslice/byteslice.go\<close>), which hands out recycled arrays through
  unsafe pointers: 32 classes, class \<open>i\<close> for buffers of capacity \<open>2 ^ i\<close>. A pooled array is known
  by its address and its real length; a buffer is an array with a length and a capacity. A
  \<open>sync.Pool\<close> may return any of the arrays put into it or none: \<open>pick\<close> is that choice. Making a
  slice longer than the array behind it is memory-unsafe; \<open>Get\<close> then returns \<open>Overrun\<close>.
\<close>

record arr =
  arr_addr :: nat
  arr_len :: nat

record buffer =
  buf_arr :: arr
  buf_len :: nat
  buf_cap :: nat

type_synonym pool = "arr list list"

definition max_int32 :: int where
  "max_int32 = 2147483647"

definition NewPool :: pool where
  "NewPool = replicate 32 []"

text \<open>\<open>bits.Len32\<close>: the number of bits needed for the value.\<close>

fun bit_len :: "nat \<Rightarrow> nat" where
  "bit_len n = (if n = 0 then 0 else Suc (bit_len (n div 2)))"

declare bit_len.simps [simp del]

definition index :: "u32 \<Rightarrow> u32" where
  "index n = of_nat (bit_len (unat (n - 1)))"

datatype get_result = NilBuf | Buf buffer | Overrun

text \<open>\<open>addr\<close> is the address the allocator gives a new array.\<close>

definition pool_Get :: "pool \<Rightarrow> nat \<Rightarrow> nat option \<Rightarrow> int \<Rightarrow> get_result \<times> pool" where
  "pool_Get p addr pick sz =
     (if sz \<le> 0 then (NilBuf, p)
      else if max_int32 < sz then
        (Buf \<lparr>buf_arr = \<lparr>arr_addr = addr, arr_len = nat sz\<rparr>, buf_len = nat sz, buf_cap = nat sz\<rparr>, p)
      else
        (let idx = unat (index (word_of_int sz));
             bag = p ! idx;
             fresh = Buf \<lparr>buf_arr = \<lparr>arr_addr = addr, arr_len = 2 ^ idx\<rparr>, buf_len = nat sz, buf_cap = 2 ^ idx\<rparr>
         in case pick of
              None \<Rightarrow> (fresh, p)
            | Some j \<Rightarrow>
                if j < length bag then
                  (if arr_len (bag ! j) < 2 ^ idx then Overrun
                   else Buf \<lparr>buf_arr = bag ! j, buf_len = nat sz, buf_cap = 2 ^ idx\<rparr>,
                   p[idx := take j bag @ drop (Suc j) bag])
                else (fresh, p)))"

definition pool_Put :: "pool \<Rightarrow> buffer \<Rightarrow> pool" where
  "pool_Put p buf =
     (let sz = buf_cap buf in
      if sz = 0 \<or> max_int32 < int sz then p
      else
        (let idx0 = unat (index (of_nat sz));
             idx = (if sz \<noteq> 2 ^ idx0 then idx0 - 1 else idx0)
         in p[idx := buf_arr buf # p ! idx]))"

section \<open>The size class of a buffer\<close>

lemma bit_len_bound: "n < 2 ^ bit_len n"
proof (induction n rule: bit_len.induct)
  case (1 n)
  then show ?case by (subst bit_len.simps) auto
qed

lemma bit_len_min: "0 < n \<Longrightarrow> 2 ^ (bit_len n - 1) \<le> n"
proof (induction n rule: bit_len.induct)
  case (1 n)
  show ?case
  proof (cases "n div 2 = 0")
    case True
    with 1 show ?thesis by (subst bit_len.simps) (simp add: bit_len.simps [of 0])
  next
    case False
    then have "0 < bit_len (n div 2)"
      by (subst bit_len.simps) simp
    with 1 False show ?thesis
      by (subst bit_len.simps) (auto simp: not_less_eq_eq power_eq_if [of 2 "bit_len (n div 2)"])
  qed
qed

lemma bit_len_le: "n < 2 ^ k \<Longrightarrow> bit_len n \<le> k"
proof (induction n arbitrary: k rule: bit_len.induct)
  case (1 n)
  then show ?case
    by (subst bit_len.simps) (cases k, auto)
qed

lemma index_class:
  assumes "0 < n" and "n < 2 ^ 31"
  shows "unat (index (of_nat n)) = bit_len (n - 1)" and "bit_len (n - 1) \<le> 31"
proof -
  have "unat (of_nat n - 1 :: u32) = n - 1"
  proof -
    have "of_nat n - 1 = (of_nat (n - 1) :: u32)" using assms(1) by simp
    moreover have "unat (of_nat (n - 1) :: u32) = n - 1"
      using assms(2) by (intro of_nat_inverse) auto
    ultimately show ?thesis by simp
  qed
  moreover show le: "bit_len (n - 1) \<le> 31" using assms by (intro bit_len_le) simp
  moreover have "unat (of_nat (bit_len (n - 1)) :: u32) = bit_len (n - 1)"
    using le by (intro of_nat_inverse) auto
  ultimately show "unat (index (of_nat n)) = bit_len (n - 1)"
    by (simp add: index_def)
qed

section \<open>Invariant\<close>

text \<open>Every pooled array is at least as long as the slices its class makes of it.\<close>

definition pool_ok :: "pool \<Rightarrow> bool" where
  "pool_ok p \<longleftrightarrow> length p = 32 \<and> (\<forall>i < 32. \<forall>a \<in> set (p ! i). 2 ^ i \<le> arr_len a)"

definition buffer_ok :: "buffer \<Rightarrow> bool" where
  "buffer_ok b \<longleftrightarrow> buf_len b \<le> buf_cap b \<and> buf_cap b \<le> arr_len (buf_arr b)"

lemma pool_ok_new [inv_intros]: "pool_ok NewPool"
  by (simp add: pool_ok_def NewPool_def)

lemma pool_ok_update:
  "pool_ok p \<Longrightarrow> i < 32 \<Longrightarrow> (\<And>a. a \<in> set bag \<Longrightarrow> 2 ^ i \<le> arr_len a) \<Longrightarrow> pool_ok (p[i := bag])"
  by (auto simp: pool_ok_def nth_list_update)

lemma pool_ok_Put [inv_intros]:
  assumes p: "pool_ok p" and b: "buffer_ok b"
  shows "pool_ok (pool_Put p b)"
proof (cases "buf_cap b = 0 \<or> max_int32 < int (buf_cap b)")
  case False
  define n where "n = buf_cap b"
  define k where "k = bit_len (n - 1)"
  define idx where "idx = (if n \<noteq> 2 ^ k then k - 1 else k)"
  have n: "0 < n" "n < 2 ^ 31" using False by (auto simp: n_def max_int32_def)
  have k: "unat (index (of_nat n)) = k" "k \<le> 31" using index_class [OF n] by (simp_all add: k_def)
  have "2 ^ idx \<le> n"
  proof (cases "n = 2 ^ k")
    case False
    show ?thesis
    proof (cases "n - 1 = 0")
      case True
      with n False show ?thesis by (simp add: k_def bit_len.simps [of 0])
    next
      case nz: False
      then have "2 ^ (k - 1) \<le> n - 1" using bit_len_min [of "n - 1"] by (simp add: k_def)
      with False show ?thesis by (simp add: idx_def)
    qed
  qed (simp add: idx_def)
  with b have "2 ^ idx \<le> arr_len (buf_arr b)" by (simp add: buffer_ok_def n_def)
  moreover have "idx < 32" using k by (auto simp: idx_def)
  moreover have "pool_Put p b = p[idx := buf_arr b # p ! idx]"
    using False k by (simp add: pool_Put_def Let_def idx_def n_def)
  ultimately show ?thesis
    using p by (auto simp: pool_ok_def nth_list_update)
qed (simp add: pool_Put_def p)

text \<open>The buffer handed out has the length asked for and stays within its array.\<close>

lemma pool_Get_ok:
  assumes p: "pool_ok p" and sz: "0 < sz"
  shows "\<exists>b p'. pool_Get p addr pick sz = (Buf b, p') \<and> pool_ok p' \<and> buffer_ok b \<and> buf_len b = nat sz"
proof (cases "max_int32 < sz")
  case True
  with sz p show ?thesis by (simp add: pool_Get_def buffer_ok_def)
next
  case False
  define k where "k = bit_len (nat sz - 1)"
  have n: "0 < nat sz" "nat sz < 2 ^ 31" using False sz by (auto simp: max_int32_def)
  have w: "(word_of_int sz :: u32) = of_nat (nat sz)" using sz by simp
  have k: "unat (index (word_of_int sz)) = k" "k \<le> 31"
    using index_class [OF n] unfolding k_def w by simp_all
  have "nat sz - 1 < 2 ^ k" unfolding k_def by (rule bit_len_bound)
  then have fits: "nat sz \<le> 2 ^ k" using n(1) by linarith
  have bag: "2 ^ k \<le> arr_len (p ! k ! j)" if "j < length (p ! k)" for j
    using p k(2) that by (auto simp: pool_ok_def)
  have rest: "pool_ok (p[k := take j (p ! k) @ drop (Suc j) (p ! k)])" for j
    using p k(2) by (intro pool_ok_update) (auto simp: pool_ok_def dest: in_set_takeD in_set_dropD)
  show ?thesis
  proof (cases "\<exists>j. pick = Some j \<and> j < length (p ! k)")
    case True
    then obtain j where j: "pick = Some j" "j < length (p ! k)" by blast
    with bag [of j] rest [of j] fits sz False k show ?thesis
      by (simp add: pool_Get_def Let_def buffer_ok_def)
  next
    case nopick: False
    with fits sz False k p show ?thesis
      by (auto simp: pool_Get_def Let_def buffer_ok_def split: option.split)
  qed
qed

section \<open>Runs\<close>

text \<open>
  Any history of requests and returns. A buffer given back is any well-formed one: its slice lies
  within its array, wherever it came from (\<open>append\<close> may have replaced the array).
\<close>

datatype pool_op = OpGet nat "nat option" int | OpPut buffer

fun pool_step :: "pool \<Rightarrow> pool_op \<Rightarrow> pool" where
  "pool_step p (OpGet addr pick sz) = snd (pool_Get p addr pick sz)"
| "pool_step p (OpPut b) = pool_Put p b"

fun op_ok :: "pool_op \<Rightarrow> bool" where
  "op_ok (OpGet _ _ _) = True"
| "op_ok (OpPut b) = buffer_ok b"

lemma pool_ok_run: "pool_ok p \<Longrightarrow> \<forall>op \<in> set ops. op_ok op \<Longrightarrow> pool_ok (foldl pool_step p ops)"
proof (induction ops arbitrary: p)
  case (Cons op ops)
  have "pool_ok (pool_step p op)"
  proof (cases op)
    case (OpGet addr pick sz)
    with Cons.prems(1) pool_Get_ok [of p sz addr pick] show ?thesis
      by (cases "0 < sz") (auto, simp add: pool_Get_def)
  next
    case (OpPut b)
    with Cons.prems show ?thesis by (simp add: pool_ok_Put)
  qed
  with Cons show ?case by simp
qed simp

section \<open>Properties\<close>

text \<open>C19. The unsafe slices of the pool are memory-safe: after any history of requests and returned
  buffers, and whichever recycled array is picked, a request for a positive size yields a buffer of
  that length which lies within the array behind it; it never overruns and is never nil.\<close>

theorem pool_memory_safe:
  assumes "\<forall>op \<in> set ops. op_ok op" and "0 < sz"
  shows "\<exists>b. fst (pool_Get (foldl pool_step NewPool ops) addr pick sz) = Buf b
    \<and> buf_len b = nat sz \<and> buf_len b \<le> buf_cap b \<and> buf_cap b \<le> arr_len (buf_arr b)"
proof -
  have "pool_ok (foldl pool_step NewPool ops)"
    by (rule pool_ok_run [OF pool_ok_new assms(1)])
  from pool_Get_ok [OF this assms(2), of addr pick] show ?thesis
    by (auto simp: buffer_ok_def)
qed

definition odd_buf :: buffer where
  "odd_buf = \<lparr>buf_arr = \<lparr>arr_addr = 0, arr_len = 7\<rparr>, buf_len = 2, buf_cap = 7\<rparr>"

theorem pool_memory_safe_witness:
  "\<exists>b. fst (pool_Get (foldl pool_step NewPool [OpPut odd_buf]) 1 (Some 0) 4) = Buf b
     \<and> buf_len b = 4 \<and> buf_cap b \<le> arr_len (buf_arr b)"
proof -
  have "\<forall>op \<in> set [OpPut odd_buf]. op_ok op"
    by (simp add: buffer_ok_def odd_buf_def)
  from pool_memory_safe [OF this, of 4 1 "Some 0"] show ?thesis
    by (auto simp del: foldl_Cons foldl_Nil)
qed

end
