(* ===== verification/Varint.thy ===== *)
theory Varint
  imports Prelude
begin

text \<open>
  Base-128 integers. \<open>varint\<close> is the encoding the protobuf format documents; the generated
  decoders under \<open>internal/types/proto\<close> repeat one loop that reads it, at the width of the field
  being decoded: \<open>varint_loop\<close>. The main lemma is that the loop reads back what was encoded,
  truncated to its width, and that it accepts nothing longer than ten bytes.
\<close>

lemma unat_drop7: "unat (drop_bit 7 v) = unat v div 128" for v :: u64
  by (subst unat_drop_bit_eq) (simp add: drop_bit_eq_div)

function varint :: "u64 \<Rightarrow> byte list" where
  "varint v = (if v < 0x80 then [ucast v] else (ucast v AND 0x7F OR 0x80) # varint (drop_bit 7 v))"
  by auto
termination
proof (relation "measure unat")
  show "wf (measure (unat :: u64 \<Rightarrow> nat))" by simp
  fix v :: u64
  assume "\<not> v < 0x80"
  then have "128 \<le> unat v" by (simp add: word_less_nat_alt)
  then have "unat v div 128 < unat v" by simp
  then show "(drop_bit 7 v, v) \<in> measure unat"
    by (simp add: unat_drop7)
qed

declare varint.simps [simp del]

datatype wire_error =
    ErrIntOverflow
  | ErrUnexpectedEOF
  | ErrInvalidLength
  | ErrEndGroup gostring
  | ErrIllegalTag gostring i32 u64
  | ErrWrongWireType nat gostring
  | ErrOther gostring

text \<open>The loop of the generated decoders; \<open>acc\<close> is the variable it accumulates in.\<close>

function varint_loop ::
  "nat \<Rightarrow> 'a::len word \<Rightarrow> byte list \<Rightarrow> nat \<Rightarrow> wire_error + 'a word \<times> nat" where
  "varint_loop shift acc dAtA iNdEx =
     (if 64 \<le> shift then Inl ErrIntOverflow
      else if length dAtA \<le> iNdEx then Inl ErrUnexpectedEOF
      else
        (let b = dAtA ! iNdEx;
             acc' = acc OR push_bit shift (ucast (b AND 0x7F))
         in if b < 0x80 then Inr (acc', Suc iNdEx)
            else varint_loop (shift + 7) acc' dAtA (Suc iNdEx)))"
  by auto
termination by (relation "measure (\<lambda>(shift, _). 71 - shift)") auto

declare varint_loop.simps [simp del]

section \<open>Lemmas\<close>

lemma varint_nonempty [simp]: "varint v \<noteq> []"
  by (subst varint.simps) simp

lemma varint_length_pos [simp]: "0 < length (varint v)"
  by simp

lemma varint_length_pos' [simp]: "Suc 0 \<le> length (varint v)"
  using varint_length_pos [of v] by linarith

text \<open>The bits of one group and of the rest.\<close>

lemma varint_split_bits:
  "ucast v = (ucast ((ucast v :: byte) AND 0x7F) :: 'a::len word) OR push_bit 7 (ucast (drop_bit 7 v))"
  for v :: u64
proof (rule bit_word_eqI)
  fix n assume n: "n < LENGTH('a)"
  have m: "(0x7F :: byte) = mask 7" by (simp add: mask_eq_exp_minus_1)
  show "bit (ucast v :: 'a word) n
      = bit ((ucast ((ucast v :: byte) AND 0x7F) :: 'a word) OR push_bit 7 (ucast (drop_bit 7 v))) n"
    using n by (cases "n < 7") (auto simp: m bit_simps)
qed

lemma varint_group_high: "((ucast v AND 0x7F OR 0x80) AND 0x7F :: byte) = ucast v AND 0x7F" for v :: u64
proof -
  have "(0x80 :: byte) AND 0x7F = 0" by simp
  then show ?thesis by (simp add: and.commute [of _ "0x7F"] bit.conj_disj_distrib and.left_commute)
qed

lemma varint_group_not_less: "\<not> ((b AND 0x7F) OR 0x80 :: byte) < 0x80"
proof -
  have "bit ((b AND 0x7F) OR 0x80 :: byte) 7"
    by (simp add: bit_or_iff bit_and_iff)
  then show ?thesis
    using word_less_bit [of "(b AND 0x7F) OR 0x80 :: byte" 7 7] by auto
qed

lemma varint_small_byte: "v < 0x80 \<Longrightarrow> (ucast v :: byte) < 0x80" for v :: u64
  by (simp add: word_less_nat_alt unsigned_ucast_eq take_bit_nat_eq_self)

lemma varint_small_mask: "v < 0x80 \<Longrightarrow> (ucast (ucast v AND 0x7F :: byte) :: 'a::len word) = ucast v" for v :: u64
proof (rule bit_word_eqI)
  fix n assume v: "v < 0x80" and n: "n < LENGTH('a)"
  have m: "(0x7F :: byte) = mask 7" by (simp add: mask_eq_exp_minus_1)
  have "bit v n \<Longrightarrow> n < 7" using word_less_bit [of v 7 n] v by simp
  with n show "bit (ucast (ucast v AND 0x7F :: byte) :: 'a word) n = bit (ucast v :: 'a word) n"
    by (auto simp: m bit_simps)
qed

lemma varint_loop_reads:
  assumes "drop iNdEx dAtA = varint v @ rest" and "shift < 64" and "unat v < 2 ^ (64 - shift)"
  shows "varint_loop shift acc dAtA iNdEx
    = Inr (acc OR push_bit shift (ucast v), iNdEx + length (varint v))"
  using assms
proof (induction v arbitrary: shift acc iNdEx rule: varint.induct)
  case (1 v)
  have idx: "iNdEx < length dAtA"
    using "1.prems"(1) by (rule drop_eq_append_length) simp
  then have b: "dAtA ! iNdEx = hd (varint v)"
    using "1.prems"(1) nth_drop_hd [OF idx] by (cases "varint v") auto
  show ?case
  proof (cases "v < 0x80")
    case True
    then have "varint v = [ucast v]" by (subst varint.simps) simp
    with True b idx "1.prems"(2) show ?thesis
      by (subst varint_loop.simps) (simp add: varint_small_byte varint_small_mask)
  next
    case False
    let ?g = "ucast v AND 0x7F OR 0x80 :: byte"
    have vs: "varint v = ?g # varint (drop_bit 7 v)"
      using False by (subst varint.simps) simp
    have big: "128 \<le> unat v" using False by (simp add: word_less_nat_alt)
    have sh: "shift + 7 < 64"
    proof (rule ccontr)
      assume "\<not> shift + 7 < 64"
      then have "(2::nat) ^ (64 - shift) \<le> 2 ^ 7"
        by (intro power_increasing) auto
      with big "1.prems"(3) show False by simp
    qed
    have "unat (drop_bit 7 v) < 2 ^ (64 - (shift + 7))"
    proof -
      have "64 - shift = 7 + (64 - (shift + 7))" using sh by simp
      then have "unat v < 2 ^ 7 * 2 ^ (64 - (shift + 7))"
        using "1.prems"(3) by (metis power_add)
      then show ?thesis
        by (simp add: unat_drop7 less_mult_imp_div_less mult.commute)
    qed
    moreover have "drop (Suc iNdEx) dAtA = varint (drop_bit 7 v) @ rest"
      using "1.prems"(1) vs nth_drop_hd [OF idx] by simp
    ultimately have IH: "varint_loop (shift + 7) acc' dAtA (Suc iNdEx)
        = Inr (acc' OR push_bit (shift + 7) (ucast (drop_bit 7 v)), Suc iNdEx + length (varint (drop_bit 7 v)))"
      for acc' :: "'a word"
      using "1.IH" [OF False, of "Suc iNdEx" "shift + 7" acc'] sh by simp
    have bits: "push_bit shift (ucast (ucast v AND 0x7F :: byte) :: 'a word)
        OR push_bit (shift + 7) (ucast (drop_bit 7 v)) = push_bit shift (ucast v)"
      by (subst (3) varint_split_bits) (simp add: push_bit_or push_bit_push_bit add.commute)
    have "dAtA ! iNdEx = ?g" using b vs by simp
    with idx "1.prems"(2) show ?thesis
      by (subst varint_loop.simps)
        (simp add: IH varint_group_high varint_group_not_less vs or.assoc bits)
  qed
qed

lemma varint_loop_varint [step_simps]:
  "drop iNdEx dAtA = varint v @ rest \<Longrightarrow>
   varint_loop 0 0 dAtA iNdEx = Inr (ucast v :: 'a::len word, iNdEx + length (varint v))"
  using varint_loop_reads [of iNdEx dAtA v rest 0 0] unsigned_less [of v] by simp

text \<open>The loop always returns; on success it has moved forward and stayed within the data.\<close>

lemma varint_loop_progress:
  "varint_loop shift acc dAtA iNdEx = Inr (v, j) \<Longrightarrow> iNdEx < j \<and> j \<le> length dAtA"
proof (induction shift acc dAtA iNdEx rule: varint_loop.induct)
  case (1 shift acc dAtA iNdEx)
  from "1.prems" show ?case
    by (subst (asm) varint_loop.simps) (auto simp: Let_def dest: "1.IH" [rotated -1] split: if_splits)
qed

end
