(* ===== verification/Wire.thy ===== *)
theory Wire
  imports Varint
begin

text \<open>
  What the generated codecs of \<open>internal/types/proto/*_vtproto.pb.go\<close> have in common, factored into
  the building blocks every message is written with. Encoders fill a buffer from its end:
  a writer takes the buffer and the index \<open>i\<close> and returns both. Decoders are a loop over tagged
  fields at index \<open>iNdEx\<close>. An outer \<open>None\<close> is a call that does not return normally (a runtime
  panic, such as an index out of range, or an endless loop); \<open>Inl\<close> is a returned error.

  \<open>protohelpers\<close> and the \<open>timestamppb\<close> codec are libraries: they are the fields of a record \<open>H\<close>
  given to every definition, and \<open>helpers_ok\<close> is what their documentation promises.
\<close>

record timestamp =
  ts_Seconds :: i64
  ts_Nanos :: i32

type_synonym wbuf = "byte list \<times> nat"
type_synonym writer = "wbuf \<Rightarrow> (wire_error + wbuf) option"
type_synonym marshaler = "byte list \<Rightarrow> (wire_error + wbuf) option"

record helpers =
  EncodeVarint :: "byte list \<Rightarrow> nat \<Rightarrow> u64 \<Rightarrow> (byte list \<times> nat) option"
  SizeOfVarint :: "u64 \<Rightarrow> nat"
  Skip :: "byte list \<Rightarrow> wire_error + i64"
  TsSizeVT :: "timestamp \<Rightarrow> nat"
  TsMarshal :: "timestamp \<Rightarrow> marshaler"
  TsUnmarshal :: "timestamp \<Rightarrow> byte list \<Rightarrow> wire_error + timestamp"

section \<open>Writing\<close>

text \<open>\<open>i--; dAtA[i] = b\<close>\<close>

fun put_byte :: "byte \<Rightarrow> writer" where
  "put_byte b (buf, i) =
     (if i = 0 \<or> length buf < i then None else Some (Inr (buf[i - 1 := b], i - 1)))"

text \<open>\<open>i -= len(s); copy(dAtA[i:], s)\<close>\<close>

fun copy_back :: "byte list \<Rightarrow> writer" where
  "copy_back s (buf, i) =
     (let j = i - length s in
      if i < length s \<or> length buf < j then None
      else Some (Inr (take j buf @ take (length buf - j) s @ drop (j + length s) buf, j)))"

text \<open>\<open>i = protohelpers.EncodeVarint(dAtA, i, v)\<close>\<close>

fun write_varint :: "helpers \<Rightarrow> u64 \<Rightarrow> writer" where
  "write_varint H v (buf, i) =
     (case EncodeVarint H buf i v of None \<Rightarrow> None | Some r \<Rightarrow> Some (Inr r))"

fun seqw :: "writer list \<Rightarrow> writer" where
  "seqw [] s = Some (Inr s)"
| "seqw (w # ws) s =
     (case w s of None \<Rightarrow> None | Some (Inl e) \<Rightarrow> Some (Inl e) | Some (Inr s') \<Rightarrow> seqw ws s')"

definition whenw :: "bool \<Rightarrow> writer \<Rightarrow> writer" where
  "whenw b w = (if b then w else seqw [])"

text \<open>\<open>size, err := msh(dAtA[:i]); i -= size\<close>, and the same followed by the length and the tag.\<close>

fun write_nested :: "marshaler \<Rightarrow> (nat \<Rightarrow> writer) \<Rightarrow> writer" where
  "write_nested msh continue (buf, i) =
     (case msh (take i buf) of
        None \<Rightarrow> None
      | Some (Inl e) \<Rightarrow> Some (Inl e)
      | Some (Inr (sub, sz)) \<Rightarrow> if i < sz then None else continue sz (sub @ drop i buf, i - sz))"

definition write_message :: "helpers \<Rightarrow> byte \<Rightarrow> marshaler \<Rightarrow> writer" where
  "write_message H tag msh =
     write_nested msh (\<lambda>sz. seqw [write_varint H (of_nat sz), put_byte tag])"

text \<open>Writing from the end of the buffer; the result is the buffer and \<open>len(dAtA) - i\<close>.\<close>

definition run_writer :: "writer \<Rightarrow> marshaler" where
  "run_writer w dAtA =
     (case w (dAtA, length dAtA) of
        None \<Rightarrow> None
      | Some (Inl e) \<Rightarrow> Some (Inl e)
      | Some (Inr (buf, i)) \<Rightarrow> Some (Inr (buf, length dAtA - i)))"

text \<open>\<open>MarshalVT\<close> of a non-nil receiver and \<open>MarshalToVT\<close>, the same for every message type.\<close>

definition vt_Marshal :: "nat \<Rightarrow> marshaler \<Rightarrow> (wire_error + byte list) option" where
  "vt_Marshal sz msh =
     (case msh (replicate sz 0) of
        None \<Rightarrow> None
      | Some (Inl e) \<Rightarrow> Some (Inl e)
      | Some (Inr (buf, n)) \<Rightarrow> if length buf < n then None else Some (Inr (take n buf)))"

definition vt_MarshalTo :: "nat \<Rightarrow> marshaler \<Rightarrow> marshaler" where
  "vt_MarshalTo sz msh dAtA =
     (if length dAtA < sz then None
      else (case msh (take sz dAtA) of
              None \<Rightarrow> None
            | Some (Inl e) \<Rightarrow> Some (Inl e)
            | Some (Inr (buf, n)) \<Rightarrow> Some (Inr (buf @ drop sz dAtA, n))))"

section \<open>Reading\<close>

definition read_tag :: "gostring \<Rightarrow> byte list \<Rightarrow> nat \<Rightarrow> wire_error + i32 \<times> nat \<times> nat" where
  "read_tag name dAtA iNdEx =
     (case varint_loop 0 (0 :: u64) dAtA iNdEx of
        Inl e \<Rightarrow> Inl e
      | Inr (wire, j) \<Rightarrow>
          (let fieldNum = ucast (drop_bit 3 wire) :: i32; wireType = unat (wire AND 7)
           in if wireType = 4 then Inl (ErrEndGroup name)
              else if sint fieldNum \<le> 0 then Inl (ErrIllegalTag name fieldNum wire)
              else Inr (fieldNum, wireType, j)))"

type_synonym 'm decoded = "(wire_error + 'm \<times> nat) option"

definition varint_field ::
  "gostring \<Rightarrow> nat \<Rightarrow> byte list \<Rightarrow> nat \<Rightarrow> ('a::len word \<Rightarrow> 'm) \<Rightarrow> 'm decoded" where
  "varint_field field wireType dAtA iNdEx upd =
     (if wireType \<noteq> 0 then Some (Inl (ErrWrongWireType wireType field))
      else (case varint_loop 0 0 dAtA iNdEx of
              Inl e \<Rightarrow> Some (Inl e)
            | Inr (v, j) \<Rightarrow> Some (Inr (upd v, j))))"

text \<open>A length-delimited field; \<open>postIndex\<close> is computed in 64 bits and may wrap.\<close>

definition bytes_field ::
  "gostring \<Rightarrow> nat \<Rightarrow> byte list \<Rightarrow> nat \<Rightarrow> (byte list \<Rightarrow> (wire_error + 'm) option) \<Rightarrow> 'm decoded" where
  "bytes_field field wireType dAtA iNdEx upd =
     (if wireType \<noteq> 2 then Some (Inl (ErrWrongWireType wireType field))
      else (case varint_loop 0 (0 :: i64) dAtA iNdEx of
              Inl e \<Rightarrow> Some (Inl e)
            | Inr (len, j) \<Rightarrow>
                (let postIndex = sint (of_nat j + len) in
                 if sint len < 0 then Some (Inl ErrInvalidLength)
                 else if postIndex < 0 then Some (Inl ErrInvalidLength)
                 else if int (length dAtA) < postIndex then Some (Inl ErrUnexpectedEOF)
                 else if postIndex < int j then None
                 else (case upd (take (nat postIndex - j) (drop j dAtA)) of
                         None \<Rightarrow> None
                       | Some (Inl e) \<Rightarrow> Some (Inl e)
                       | Some (Inr m) \<Rightarrow> Some (Inr (m, nat postIndex))))))"

text \<open>The default case: skip the field that starts at \<open>preIndex\<close> and keep its bytes.\<close>

definition skip_field :: "helpers \<Rightarrow> byte list \<Rightarrow> nat \<Rightarrow> (byte list \<Rightarrow> 'm) \<Rightarrow> 'm decoded" where
  "skip_field H dAtA preIndex upd =
     (case Skip H (drop preIndex dAtA) of
        Inl e \<Rightarrow> Some (Inl e)
      | Inr skippy \<Rightarrow>
          (let post = sint (of_nat preIndex + skippy) in
           if sint skippy < 0 \<or> post < 0 then Some (Inl ErrInvalidLength)
           else if int (length dAtA) < post then Some (Inl ErrUnexpectedEOF)
           else if post < int preIndex then None
           else Some (Inr (upd (take (nat post - preIndex) (drop preIndex dAtA)), nat post))))"

type_synonym 'm fields = "'m \<Rightarrow> i32 \<Rightarrow> nat \<Rightarrow> nat \<Rightarrow> nat \<Rightarrow> 'm decoded"

definition tagged :: "gostring \<Rightarrow> byte list \<Rightarrow> 'm fields \<Rightarrow> 'm \<Rightarrow> nat \<Rightarrow> 'm decoded" where
  "tagged name dAtA flds m preIndex =
     (case read_tag name dAtA preIndex of
        Inl e \<Rightarrow> Some (Inl e)
      | Inr (fieldNum, wireType, iNdEx) \<Rightarrow> flds m fieldNum wireType preIndex iNdEx)"

partial_function (option) unmarshal_loop ::
  "('m \<Rightarrow> nat \<Rightarrow> 'm decoded) \<Rightarrow> nat \<Rightarrow> 'm \<Rightarrow> nat \<Rightarrow> 'm decoded" where
  [code]: "unmarshal_loop step l m iNdEx =
     (if iNdEx < l then
        Option.bind (step m iNdEx)
          (\<lambda>r. case r of Inl e \<Rightarrow> Some (Inl e) | Inr (m', j) \<Rightarrow> unmarshal_loop step l m' j)
      else Some (Inr (m, iNdEx)))"

definition unmarshal :: "gostring \<Rightarrow> (byte list \<Rightarrow> 'm fields) \<Rightarrow> 'm \<Rightarrow> byte list \<Rightarrow> (wire_error + 'm) option" where
  "unmarshal name flds m dAtA =
     (case unmarshal_loop (tagged name dAtA (flds dAtA)) (length dAtA) m 0 of
        None \<Rightarrow> None
      | Some (Inl e) \<Rightarrow> Some (Inl e)
      | Some (Inr (m', iNdEx)) \<Rightarrow>
          if length dAtA < iNdEx then Some (Inl ErrUnexpectedEOF) else Some (Inr m'))"

section \<open>What the libraries promise\<close>

definition ts_bytes :: "helpers \<Rightarrow> timestamp \<Rightarrow> byte list" where
  "ts_bytes H ts =
     (case TsMarshal H ts (replicate (TsSizeVT H ts) 0) of Some (Inr (buf, _)) \<Rightarrow> buf | _ \<Rightarrow> [])"

definition emits :: "writer \<Rightarrow> byte list \<Rightarrow> bool" where
  "emits w bs \<longleftrightarrow> (\<forall>buf i. length bs \<le> i \<longrightarrow> i \<le> length buf \<longrightarrow>
     w (buf, i) = Some (Inr (take (i - length bs) buf @ bs @ drop i buf, i - length bs)))"

definition marshals :: "marshaler \<Rightarrow> byte list \<Rightarrow> bool" where
  "marshals msh bs \<longleftrightarrow> (\<forall>buf. length bs \<le> length buf \<longrightarrow>
     msh buf = Some (Inr (take (length buf - length bs) buf @ bs, length bs)))"

text \<open>
  \<open>EncodeVarint\<close> writes the base-128 form before the offset; \<open>SizeOfVarint\<close> is its length; \<open>Skip\<close>
  returns the positive size of the first field or an error; the timestamp codec writes \<open>SizeVT\<close>
  bytes which it reads back.
\<close>

definition helpers_ok :: "helpers \<Rightarrow> bool" where
  "helpers_ok H \<longleftrightarrow>
     (\<forall>v. SizeOfVarint H v = length (varint v))
     \<and> (\<forall>buf i v. length (varint v) \<le> i \<longrightarrow> i \<le> length buf \<longrightarrow>
          EncodeVarint H buf i v =
            Some (take (i - length (varint v)) buf @ varint v @ drop i buf, i - length (varint v)))
     \<and> (\<forall>bs n. Skip H bs = Inr n \<longrightarrow> 0 < sint n)
     \<and> (\<forall>ts. length (ts_bytes H ts) = TsSizeVT H ts \<and> marshals (TsMarshal H ts) (ts_bytes H ts)
          \<and> TsUnmarshal H \<lparr>ts_Seconds = 0, ts_Nanos = 0\<rparr> (ts_bytes H ts) = Inr ts)"

section \<open>What a writer leaves in the buffer\<close>

lemma emits_put_byte [emits_intros]: "emits (put_byte b) [b]"
proof (unfold emits_def, intro allI impI)
  fix buf :: "byte list" and i
  assume "length [b] \<le> i" and i: "i \<le> length buf"
  then obtain j where j: "i = Suc j" by (cases i) auto
  with i show "put_byte b (buf, i)
      = Some (Inr (take (i - length [b]) buf @ [b] @ drop i buf, i - length [b]))"
    by (simp add: upd_conv_take_nth_drop)
qed

lemma emits_copy_back [emits_intros]: "emits (copy_back s) s"
  by (auto simp: emits_def Let_def)

lemma emits_varint [emits_intros]: "helpers_ok H \<Longrightarrow> emits (write_varint H v) (varint v)"
  unfolding helpers_ok_def emits_def by simp

lemma emits_Nil [emits_intros]: "emits (seqw []) []"
  by (simp add: emits_def)

lemma emits_Cons [emits_intros]:
  assumes w: "emits w a" and ws: "emits (seqw ws) b"
  shows "emits (seqw (w # ws)) (b @ a)"
proof (unfold emits_def, intro allI impI)
  fix buf :: "byte list" and i
  assume len: "length (b @ a) \<le> i" and i: "i \<le> length buf"
  let ?buf = "take (i - length a) buf @ a @ drop i buf"
  have 1: "w (buf, i) = Some (Inr (?buf, i - length a))"
    using w len i by (simp add: emits_def)
  have 2: "seqw ws (?buf, i - length a) = Some (Inr (take (i - length a - length b) ?buf @ b
      @ drop (i - length a) ?buf, i - length a - length b))"
    using ws len i unfolding emits_def by auto
  have "take (i - length a - length b) ?buf = take (i - length (b @ a)) buf"
    using len i by (simp add: min_def add.commute)
  moreover have "drop (i - length a) ?buf = a @ drop i buf"
    using len i by simp
  ultimately show "seqw (w # ws) (buf, i)
      = Some (Inr (take (i - length (b @ a)) buf @ (b @ a) @ drop i buf, i - length (b @ a)))"
    using 1 2 by (simp add: add.commute)
qed

lemma emits_whenw: "(c \<Longrightarrow> emits w bs) \<Longrightarrow> emits (whenw c w) (if c then bs else [])"
  by (simp add: whenw_def emits_Nil)

lemma marshals_run: "emits w bs \<Longrightarrow> marshals (run_writer w) bs"
  by (simp add: emits_def marshals_def run_writer_def)

lemma emits_nested:
  assumes msh: "marshals msh bs" and k: "emits (continue (length bs)) pre"
  shows "emits (write_nested msh continue) (pre @ bs)"
proof (unfold emits_def, intro allI impI)
  fix buf :: "byte list" and i
  assume len: "length (pre @ bs) \<le> i" and i: "i \<le> length buf"
  have "msh (take i buf) = Some (Inr (take (i - length bs) buf @ bs, length bs))"
    using msh len i unfolding marshals_def by (auto simp: min_def)
  moreover let ?buf = "take (i - length bs) buf @ bs @ drop i buf"
  have "continue (length bs) (?buf, i - length bs)
      = Some (Inr (take (i - length bs - length pre) ?buf @ pre @ drop (i - length bs) ?buf,
          i - length bs - length pre))"
    using k len i unfolding emits_def by auto
  moreover have "take (i - length bs - length pre) ?buf = take (i - length (pre @ bs)) buf"
    using len i by (simp add: min_def add.commute)
  moreover have "drop (i - length bs) ?buf = bs @ drop i buf"
    using len i by simp
  ultimately show "write_nested msh continue (buf, i)
      = Some (Inr (take (i - length (pre @ bs)) buf @ (pre @ bs) @ drop i buf, i - length (pre @ bs)))"
    using len by (simp add: add.commute)
qed

section \<open>Fields narrower than 64 bits\<close>

lemma scast_u32_zero: "(scast (w :: u32) :: u64) = 0 \<longleftrightarrow> w = 0"
proof
  assume "(scast w :: u64) = 0"
  then have "(ucast (scast w :: u64) :: u32) = 0" by simp
  moreover have "(ucast (scast w :: u64) :: u32) = w"
    by (rule bit_word_eqI) (simp add: bit_simps)
  ultimately show "w = 0" by simp
qed simp

lemma ucast_u32_zero: "(ucast (w :: u32) :: u64) = 0 \<longleftrightarrow> w = 0"
proof
  assume "(ucast w :: u64) = 0"
  then have "(ucast (ucast w :: u64) :: u32) = 0" by simp
  moreover have "(ucast (ucast w :: u64) :: u32) = w"
    by (rule bit_word_eqI) (simp add: bit_simps)
  ultimately show "w = 0" by simp
qed simp

lemma narrow_scast: "(ucast (scast (w :: u32) :: u64) :: u32) = w"
  by (rule bit_word_eqI) (simp add: bit_simps)

lemma narrow_ucast: "(ucast (ucast (w :: u32) :: u64) :: u32) = w"
  by (rule bit_word_eqI) (simp add: bit_simps)

lemmas narrow = scast_u32_zero ucast_u32_zero narrow_scast narrow_ucast

section \<open>Encoded fields\<close>

definition enc_uint :: "byte \<Rightarrow> u64 \<Rightarrow> byte list" where
  "enc_uint tag v = (if v = 0 then [] else tag # varint v)"

definition enc_bytes :: "byte \<Rightarrow> byte list \<Rightarrow> byte list" where
  "enc_bytes tag s = tag # varint (of_nat (length s)) @ s"

definition enc_string :: "byte \<Rightarrow> byte list \<Rightarrow> byte list" where
  "enc_string tag s = (if s = [] then [] else enc_bytes tag s)"

lemma emits_uint:
  assumes "helpers_ok H" and "c \<longleftrightarrow> v \<noteq> 0"
  shows "emits (whenw c (seqw [write_varint H v, put_byte tag])) (enc_uint tag v)"
proof -
  have "emits (seqw [write_varint H v, put_byte tag]) (([] @ [tag]) @ varint v)"
    using assms(1) by (intro emits_intros)
  with assms(2) show ?thesis
    by (auto simp: enc_uint_def whenw_def emits_Nil)
qed

lemma emits_string:
  assumes "helpers_ok H"
  shows "emits (whenw (s \<noteq> []) (seqw [copy_back s, write_varint H (of_nat (length s)), put_byte tag]))
    (enc_string tag s)"
proof -
  have "emits (seqw [copy_back s, write_varint H (of_nat (length s)), put_byte tag])
      ((([] @ [tag]) @ varint (of_nat (length s))) @ s)"
    using assms by (intro emits_intros)
  then show ?thesis
    by (auto simp: enc_string_def enc_bytes_def whenw_def emits_Nil)
qed

lemma emits_message:
  assumes "helpers_ok H" and "marshals msh bs"
  shows "emits (write_message H tag msh) (enc_bytes tag bs)"
proof -
  have "emits (seqw [write_varint H (of_nat (length bs)), put_byte tag])
      (([] @ [tag]) @ varint (of_nat (length bs)))"
    using assms by (intro emits_intros)
  with assms(2) have "emits (write_message H tag msh) ((([] @ [tag]) @ varint (of_nat (length bs))) @ bs)"
    unfolding write_message_def by (rule emits_nested)
  then show ?thesis by (simp add: enc_bytes_def)
qed

lemma emits_unknown: "emits (whenw (u \<noteq> []) (copy_back u)) u"
  by (cases "u = []") (simp_all add: whenw_def emits_Nil emits_copy_back del: seqw.simps)

lemma length_enc_uint:
  "helpers_ok H \<Longrightarrow> length (enc_uint tag v) = (if v = 0 then 0 else 1 + SizeOfVarint H v)"
  by (simp add: enc_uint_def helpers_ok_def)

lemma length_enc_bytes:
  "helpers_ok H \<Longrightarrow> length (enc_bytes tag s) = 1 + length s + SizeOfVarint H (of_nat (length s))"
  by (simp add: enc_bytes_def helpers_ok_def)

lemma length_enc_string:
  "helpers_ok H \<Longrightarrow> length (enc_string tag s)
     = (if 0 < length s then 1 + length s + SizeOfVarint H (of_nat (length s)) else 0)"
  by (simp add: enc_string_def length_enc_bytes)

end
