(* ===== verification/Decoding.thy ===== *)
theory Decoding
  imports Wire
begin

text \<open>
  Lemmas on the reading half of \<open>Wire\<close>: what each kind of field does on encoded input, that a
  message is read field by field, and that a decoder built from these blocks always returns on
  any bytes (it neither panics nor loops). The locale \<open>vt_message\<close> is the contract every generated
  message type fulfils and the framing of \<open>pkg/protoutil\<close> relies on.
\<close>

named_theorems total_intros \<open>decoders that return on every input\<close>

section \<open>Reading what was written\<close>

lemma ucast_byte_small: "b < 0x80 \<Longrightarrow> varint (ucast b) = [b]" for b :: byte
proof -
  assume b: "b < 0x80"
  then have "(ucast b :: u64) < 0x80"
    by (simp add: word_less_nat_alt unsigned_ucast_eq take_bit_nat_eq_self)
  moreover have "(ucast (ucast b :: u64) :: byte) = b"
    by (rule bit_word_eqI) (simp add: bit_simps)
  ultimately show ?thesis by (subst varint.simps) simp
qed

lemma tagged_step [step_simps]:
  assumes "drop i d = tag # rest" and "tag < 0x80"
    and "sint (ucast (drop_bit 3 (ucast tag :: u64)) :: i32) > 0"
    and "unat ((ucast tag :: u64) AND 7) \<noteq> 4"
  shows "tagged name d F m i
    = F m (ucast (drop_bit 3 (ucast tag :: u64))) (unat ((ucast tag :: u64) AND 7)) i (Suc i)"
proof -
  have "drop i d = varint (ucast tag) @ rest"
    using assms(1,2) by (simp add: ucast_byte_small)
  then have "varint_loop 0 (0 :: u64) d i = Inr (ucast (ucast tag :: u64), i + length (varint (ucast tag)))"
    by (rule varint_loop_varint)
  with assms show ?thesis
    by (simp add: tagged_def read_tag_def Let_def ucast_byte_small)
qed

lemma varint_field_step:
  "drop j d = varint v @ rest
   \<Longrightarrow> varint_field field 0 d j upd = Some (Inr (upd (ucast v), j + length (varint v)))"
  by (simp add: varint_field_def varint_loop_varint)

lemma sint_of_nat_small: "n < 2 ^ 63 \<Longrightarrow> sint (of_nat n :: i64) = int n"
  by (simp add: signed_of_nat signed_take_bit_int_eq_self)

lemma bytes_field_step:
  assumes d: "drop j d = varint (of_nat (length s)) @ s @ rest" and len: "length d < 2 ^ 63"
  shows "bytes_field field 2 d j upd =
    (case upd s of
       None \<Rightarrow> None
     | Some (Inl e) \<Rightarrow> Some (Inl e)
     | Some (Inr m) \<Rightarrow> Some (Inr (m, j + length (varint (of_nat (length s))) + length s)))"
proof -
  let ?v = "of_nat (length s) :: u64"
  let ?k = "j + length (varint ?v)"
  have rest: "drop ?k d = s @ rest"
    using d by (rule drop_append_drop)
  have j: "j < length d"
    using d by (rule drop_eq_append_length) simp
  have "length (drop j d) = length (varint ?v) + length s + length rest"
    by (simp add: d)
  then have fits: "?k + length s \<le> length d" using j by simp
  have "varint_loop 0 (0 :: i64) d j = Inr (?v, ?k)"
    using varint_loop_varint [OF d, where 'a = 64] by simp
  moreover have "sint ?v = int (length s)" "sint (of_nat ?k + ?v) = int (?k + length s)"
    using fits len sint_of_nat_small [of "length s"] sint_of_nat_small [of "?k + length s"]
    by simp_all
  ultimately show ?thesis
    using fits rest by (simp add: bytes_field_def Let_def nat_add_distrib split: option.split sum.split)
qed

text \<open>One field, present or absent, in the loop; \<open>f\<close> are its bytes.\<close>

lemma loop_field:
  assumes d: "drop i d = f @ rest" and skip: "f = [] \<Longrightarrow> m' = m"
    and step: "f \<noteq> [] \<Longrightarrow> step m i = Some (Inr (m', i + length f))"
  shows "unmarshal_loop step (length d) m i = unmarshal_loop step (length d) m' (i + length f)"
proof (cases "f = []")
  case False
  have "i < length d"
    using d False by (rule drop_eq_append_length)
  with step [OF False] show ?thesis
    by (subst unmarshal_loop.simps) simp
qed (simp add: skip)

lemma loop_end: "drop i d = [] \<Longrightarrow> i \<le> length d \<Longrightarrow> unmarshal_loop step (length d) m i = Some (Inr (m, length d))"
  by (subst unmarshal_loop.simps) simp

lemma unmarshal_from_loop:
  "unmarshal_loop (tagged name d (F d)) (length d) m 0 = Some (Inr (m', length d)) \<Longrightarrow> unmarshal name F m d = Some (Inr m')"
  by (simp add: unmarshal_def)

text \<open>The three kinds of fields of a message; the case distinction of the decoder is \<open>F\<close>.\<close>

definition tag_ok :: "byte \<Rightarrow> i32 \<Rightarrow> nat \<Rightarrow> bool" where
  "tag_ok tag fieldNum wireType \<longleftrightarrow>
     tag < 0x80 \<and> ucast (drop_bit 3 (ucast tag :: u64)) = fieldNum \<and> 0 < sint fieldNum
     \<and> unat ((ucast tag :: u64) AND 7) = wireType \<and> wireType \<noteq> 4"

lemma tagged_tag_ok:
  "tag_ok tag n wt \<Longrightarrow> drop i d = tag # rest \<Longrightarrow> tagged name d F m i = F m n wt i (Suc i)"
  using tagged_step [of i d tag rest name F m] by (auto simp: tag_ok_def)

lemma step_uint:
  assumes "tag_ok tag n 0" and F: "\<And>j. F m n 0 i j = varint_field field 0 d j upd"
    and "drop i d = enc_uint tag v @ rest" and "enc_uint tag v \<noteq> []"
  shows "tagged name d F m i = Some (Inr (upd (ucast v), i + length (enc_uint tag v)))"
proof -
  have d: "drop i d = tag # varint v @ rest" and e: "enc_uint tag v = tag # varint v"
    using assms(3,4) by (auto simp: enc_uint_def split: if_splits)
  have "drop (i + length [tag]) d = varint v @ rest"
    by (rule drop_append_drop) (simp add: d)
  then have "drop (Suc i) d = varint v @ rest" by simp
  then show ?thesis
    using tagged_tag_ok [OF assms(1) d, of name F m] by (simp add: F varint_field_step e)
qed

lemma step_bytes:
  assumes "tag_ok tag n 2" and F: "\<And>j. F m n 2 i j = bytes_field field 2 d j upd"
    and "drop i d = enc_bytes tag s @ rest" and "length d < 2 ^ 63" and upd: "upd s = Some (Inr m')"
  shows "tagged name d F m i = Some (Inr (m', i + length (enc_bytes tag s)))"
proof -
  have d: "drop i d = tag # varint (of_nat (length s)) @ s @ rest"
    using assms(3) by (simp add: enc_bytes_def)
  have "drop (i + length [tag]) d = varint (of_nat (length s)) @ s @ rest"
    by (rule drop_append_drop) (simp add: d)
  then have "drop (Suc i) d = varint (of_nat (length s)) @ s @ rest" by simp
  then show ?thesis
    using tagged_tag_ok [OF assms(1) d, of name F m] bytes_field_step [of "Suc i" d s rest field upd] assms(4)
    by (simp add: F enc_bytes_def upd)
qed

lemma step_string:
  assumes "tag_ok tag n 2" and "\<And>j. F m n 2 i j = bytes_field field 2 d j upd"
    and "drop i d = enc_string tag s @ rest" and "length d < 2 ^ 63"
    and "upd s = Some (Inr m')" and "enc_string tag s \<noteq> []"
  shows "tagged name d F m i = Some (Inr (m', i + length (enc_string tag s)))"
proof -
  have e: "enc_string tag s = enc_bytes tag s"
    using assms(6) by (auto simp: enc_string_def split: if_splits)
  show ?thesis
    unfolding e by (rule step_bytes [where field = field and upd = upd]) (use assms e in auto)
qed

text \<open>
  \<open>decodes step d m bs r\<close>: with the bytes \<open>bs\<close> left to read and \<open>m\<close> read so far, the loop over \<open>d\<close>
  ends in \<open>r\<close>. The rules read one field each.
\<close>

definition decodes :: "('m \<Rightarrow> nat \<Rightarrow> 'm decoded) \<Rightarrow> byte list \<Rightarrow> 'm \<Rightarrow> byte list \<Rightarrow> 'm \<Rightarrow> bool" where
  "decodes step d m bs r \<longleftrightarrow> (\<forall>i. drop i d = bs \<longrightarrow> i \<le> length d
     \<longrightarrow> unmarshal_loop step (length d) m i = Some (Inr (r, length d)))"

lemma decodes_end: "m = r \<Longrightarrow> decodes step d m [] r"
  by (simp add: decodes_def loop_end)

lemma decodes_field:
  assumes "f = [] \<Longrightarrow> m' = m"
    and "\<And>i. drop i d = f @ rest \<Longrightarrow> f \<noteq> [] \<Longrightarrow> step m i = Some (Inr (m', i + length f))"
    and "decodes step d m' rest r"
  shows "decodes step d m (f @ rest) r"
proof (unfold decodes_def, intro allI impI)
  fix i
  assume d: "drop i d = f @ rest" and i: "i \<le> length d"
  have "unmarshal_loop step (length d) m i = unmarshal_loop step (length d) m' (i + length f)"
    by (rule loop_field [OF d]) (use assms d in auto)
  moreover have "drop (i + length f) d = rest" using d by (rule drop_append_drop)
  moreover have "i + length f \<le> length d"
    using arg_cong [OF d, of length] i by simp
  ultimately show "unmarshal_loop step (length d) m i = Some (Inr (r, length d))"
    using assms(3) by (simp add: decodes_def)
qed

lemma decodes_uint:
  assumes "\<And>i j. F m n 0 i j = varint_field field 0 d j upd" and "tag_ok tag n 0"
    and "v = 0 \<Longrightarrow> upd (ucast v) = m" and "decodes (tagged name d F) d (upd (ucast v)) rest r"
  shows "decodes (tagged name d F) d m (enc_uint tag v @ rest) r"
proof (rule decodes_field [OF _ _ assms(4)])
  show "enc_uint tag v = [] \<Longrightarrow> upd (ucast v) = m"
    using assms(3) by (simp add: enc_uint_def split: if_splits)
  show "drop i d = enc_uint tag v @ rest \<Longrightarrow> enc_uint tag v \<noteq> []
      \<Longrightarrow> tagged name d F m i = Some (Inr (upd (ucast v), i + length (enc_uint tag v)))" for i
    by (rule step_uint [where F = F and upd = upd and field = field, OF assms(2)]) (rule assms(1))
qed

lemma decodes_bytes:
  assumes "\<And>i j. F m n 2 i j = bytes_field field 2 d j upd" and "tag_ok tag n 2"
    and "length d < 2 ^ 63" and "upd s = Some (Inr m')" and "decodes (tagged name d F) d m' rest r"
  shows "decodes (tagged name d F) d m (enc_bytes tag s @ rest) r"
proof (rule decodes_field [OF _ _ assms(5)])
  show "enc_bytes tag s = [] \<Longrightarrow> m' = m" by (simp add: enc_bytes_def)
  show "drop i d = enc_bytes tag s @ rest
      \<Longrightarrow> tagged name d F m i = Some (Inr (m', i + length (enc_bytes tag s)))" for i
    by (rule step_bytes [where F = F and upd = upd and field = field, OF assms(2)])
      (assumption | rule assms(1,3,4))+
qed

lemma decodes_string:
  assumes "\<And>i j. F m n 2 i j = bytes_field field 2 d j (\<lambda>s. Some (Inr (upd s)))" and "tag_ok tag n 2"
    and "length d < 2 ^ 63" and "s = [] \<Longrightarrow> upd s = m" and "decodes (tagged name d F) d (upd s) rest r"
  shows "decodes (tagged name d F) d m (enc_string tag s @ rest) r"
proof (cases "s = []")
  case True
  with assms(4,5) show ?thesis by (simp add: enc_string_def)
next
  case False
  have "decodes (tagged name d F) d m (enc_bytes tag s @ rest) r"
    by (rule decodes_bytes [OF assms(1-3) refl assms(5)])
  with False show ?thesis by (simp add: enc_string_def)
qed

lemma unmarshal_decodes:
  "decodes (tagged name d (F d)) d m d r \<Longrightarrow> unmarshal name F m d = Some (Inr r)"
  by (simp add: decodes_def unmarshal_def)

lemma tag_oks:
  "tag_ok 0x8 1 0" "tag_ok 0x10 2 0" "tag_ok 0x18 3 0" "tag_ok 0x20 4 0" "tag_ok 0x28 5 0"
  "tag_ok 0x30 6 0" "tag_ok 0x38 7 0" "tag_ok 0xa 1 2" "tag_ok 0x12 2 2" "tag_ok 0x1a 3 2"
  "tag_ok 0x22 4 2" "tag_ok 0x2a 5 2" "tag_ok 0x32 6 2"
  by (simp_all add: tag_ok_def drop_bit_eq_div)

section \<open>Decoders always return\<close>

text \<open>A case distinction over fields that returns, and moves forward unless it fails.\<close>

definition returns :: "nat \<Rightarrow> 'm decoded \<Rightarrow> bool" where
  "returns i r \<longleftrightarrow> (\<exists>e. r = Some (Inl e)) \<or> (\<exists>m j. r = Some (Inr (m, j)) \<and> i < j)"

definition total_fields :: "byte list \<Rightarrow> 'm fields \<Rightarrow> bool" where
  "total_fields d F \<longleftrightarrow> (\<forall>m n wt i j. i < j \<longrightarrow> j \<le> length d \<longrightarrow> returns i (F m n wt i j))"

definition total_upd :: "('x \<Rightarrow> (wire_error + 'm) option) \<Rightarrow> bool" where
  "total_upd f \<longleftrightarrow> (\<forall>x. f x \<noteq> None)"

lemma returns_error [total_intros]: "returns i (Some (Inl e))"
  by (simp add: returns_def)

lemma returns_if [total_intros]: "(c \<Longrightarrow> returns i a) \<Longrightarrow> (\<not> c \<Longrightarrow> returns i b) \<Longrightarrow> returns i (if c then a else b)"
  by simp

lemma returns_varint_field [total_intros]: "i < j \<Longrightarrow> returns i (varint_field field wt d j upd)"
  by (auto simp: returns_def varint_field_def dest!: varint_loop_progress split: sum.split)

lemma sint_add_small:
  assumes "0 \<le> sint (w :: i64)" and "0 \<le> sint (of_nat j + w)" and "int j < 2 ^ 63"
  shows "sint (of_nat j + w) = int j + sint w"
proof -
  have w: "sint w < 2 ^ 63" using sint_lt [of w] by simp
  have "of_nat j + w = word_of_int (int j + sint w)" by simp
  then have sum: "sint (of_nat j + w) = signed_take_bit 63 (int j + sint w)"
    using sint_sbintrunc' [of "int j + sint w", where 'a = 64] by simp
  have "int j + sint w < 2 ^ 63"
  proof (rule ccontr)
    assume "\<not> ?thesis"
    then have "sint (of_nat j + w) \<le> int j + sint w - 2 ^ 64"
      using signed_take_bit_int_less_eq [of 63 "int j + sint w"] sum by simp
    with w assms(2,3) show False by simp
  qed
  with sum assms(1) show ?thesis
    by (simp add: signed_take_bit_int_eq_self)
qed

lemma returns_bytes_field [total_intros]:
  assumes "i < j" and "length d < 2 ^ 63"
    and upd: "\<And>s. length s \<le> length d \<Longrightarrow> upd s \<noteq> None"
  shows "returns i (bytes_field field wt d j upd)"
proof (cases "varint_loop 0 (0 :: i64) d j")
  case (Inr r)
  obtain len k where r: "varint_loop 0 (0 :: i64) d j = Inr (len, k)"
    using Inr by (cases r) auto
  then have k: "j < k" "k \<le> length d"
    using varint_loop_progress by blast+
  let ?post = "sint (of_nat k + len)"
  let ?s = "take (nat ?post - k) (drop k d)"
  show ?thesis
  proof (cases "wt \<noteq> 2 \<or> sint len < 0 \<or> ?post < 0 \<or> int (length d) < ?post")
    case True
    with r show ?thesis
      by (auto simp: bytes_field_def Let_def returns_def)
  next
    case False
    then have post: "?post = int k + sint len"
      using k assms(2) by (intro sint_add_small) auto
    have "upd ?s \<noteq> None" by (rule upd) simp
    with False r post k assms(1) show ?thesis
      by (auto simp: bytes_field_def Let_def returns_def split: sum.split)
  qed
qed (simp add: bytes_field_def returns_def)

lemma returns_skip_field [total_intros]:
  assumes "helpers_ok H" and "i < j" and "j \<le> length d" and "length d < 2 ^ 63"
  shows "returns i (skip_field H d i upd)"
proof (cases "Skip H (drop i d)")
  case (Inr n)
  then have n: "0 < sint n"
    using assms(1) unfolding helpers_ok_def by blast
  let ?post = "sint (of_nat i + n)"
  show ?thesis
  proof (cases "?post < 0")
    case False
    then have "?post = int i + sint n"
      using assms n by (intro sint_add_small) auto
    with Inr n False show ?thesis
      by (auto simp: skip_field_def Let_def returns_def)
  qed (simp add: skip_field_def Inr returns_def)
qed (simp add: skip_field_def returns_def)

lemma returns_tagged:
  assumes "total_fields d F"
  shows "returns i (tagged name d F m i)"
proof (cases "read_tag name d i")
  case (Inr r)
  obtain n wt j where r: "read_tag name d i = Inr (n, wt, j)"
    using Inr by (cases r) auto
  then have "i < j" "j \<le> length d"
    by (auto simp: read_tag_def Let_def dest!: varint_loop_progress split: sum.splits if_splits)
  with assms r show ?thesis
    by (simp add: tagged_def total_fields_def)
qed (simp add: tagged_def returns_def)

lemma loop_total:
  "(\<And>m i. returns i (step m i)) \<Longrightarrow> unmarshal_loop step l m i \<noteq> None"
proof (induction "l - i" arbitrary: m i rule: less_induct)
  case less
  show ?case
  proof (cases "i < l")
    case True
    consider e where "step m i = Some (Inl e)" | m' j where "step m i = Some (Inr (m', j))" "i < j"
      using less.prems [of i m] by (auto simp: returns_def)
    then show ?thesis
    proof cases
      case 1
      then show ?thesis by (subst unmarshal_loop.simps) simp
    next
      case 2
      with True have "unmarshal_loop step l m' j \<noteq> None"
        by (intro less.hyps less.prems) auto
      with 2 True show ?thesis by (subst unmarshal_loop.simps) simp
    qed
  qed (subst unmarshal_loop.simps, simp)
qed

lemma unmarshal_total: "total_fields d (F d) \<Longrightarrow> unmarshal name F m d \<noteq> None"
  using loop_total [of "tagged name d (F d)" "length d" m 0] returns_tagged [of d "F d"]
  by (auto simp: unmarshal_def split: option.split sum.split)

section \<open>The contract of a message type\<close>

locale vt_message =
  fixes sz :: "helpers \<Rightarrow> 'm option \<Rightarrow> nat"
    and msh :: "helpers \<Rightarrow> 'm option \<Rightarrow> marshaler"
    and dec :: "helpers \<Rightarrow> 'm \<Rightarrow> byte list \<Rightarrow> (wire_error + 'm) option"
    and wire :: "helpers \<Rightarrow> 'm \<Rightarrow> byte list"
    and zero :: 'm
    and clean :: "'m \<Rightarrow> bool"
  assumes size_wire: "helpers_ok H \<Longrightarrow> sz H (Some m) = length (wire H m)"
    and marshals_wire: "helpers_ok H \<Longrightarrow> marshals (msh H (Some m)) (wire H m)"
    and dec_wire: "helpers_ok H \<Longrightarrow> clean m \<Longrightarrow> length (wire H m) < 2 ^ 63
      \<Longrightarrow> dec H zero (wire H m) = Some (Inr m)"
    and dec_total: "helpers_ok H \<Longrightarrow> length d < 2 ^ 63 \<Longrightarrow> dec H m d \<noteq> None"
begin

text \<open>\<open>MarshalVT\<close> gives exactly the wire form, and the buffer it allocates is exactly filled.\<close>

lemma marshal_exact:
  "helpers_ok H \<Longrightarrow> vt_Marshal (sz H (Some m)) (msh H (Some m)) = Some (Inr (wire H m))"
  using marshals_wire [of H m] by (simp add: vt_Marshal_def size_wire marshals_def)

text \<open>A buffer with a prefix in front (a header, an outer message) keeps the prefix.\<close>

lemma marshal_into:
  "helpers_ok H \<Longrightarrow> length buf = length (wire H m)
   \<Longrightarrow> msh H (Some m) buf = Some (Inr (wire H m, length (wire H m)))"
  using marshals_wire [of H m] by (simp add: marshals_def)

lemma marshal_roundtrip:
  "helpers_ok H \<Longrightarrow> clean m \<Longrightarrow> length (wire H m) < 2 ^ 63
   \<Longrightarrow> \<exists>bs. vt_Marshal (sz H (Some m)) (msh H (Some m)) = Some (Inr bs) \<and> dec H zero bs = Some (Inr m)"
  using marshal_exact dec_wire by blast

lemma nested_emits: "helpers_ok H \<Longrightarrow> emits (write_message H tag (msh H (Some m))) (enc_bytes tag (wire H m))"
  by (rule emits_message) (simp_all add: marshals_wire)

lemma nested_size:
  "helpers_ok H \<Longrightarrow> length (enc_bytes tag (wire H m))
     = 1 + sz H (Some m) + SizeOfVarint H (of_nat (sz H (Some m)))"
  by (simp add: length_enc_bytes size_wire)

end

end
