(* ===== verification/Framing.thy ===== *)
theory Framing
  imports Decoding
begin

text \<open>
  Length-prefixed frames (\<open>pkg/protoutil/encoder.go\<close>) for any message type with the generated
  codec: a big-endian 32-bit length and the wire form. A reader is the bytes still to come and the
  error it reports after them; a writer is a state with a \<open>Write\<close> function. Every type the program
  frames implements \<open>vtMarshaler\<close> and \<open>vtUnmarshaler\<close>, so the reflective fallbacks are not taken.
  The lemmas are proved once for any type that fulfils \<open>vt_message\<close>.
\<close>

section \<open>encoding/binary and io\<close>

definition be32 :: "u32 \<Rightarrow> byte list" where
  "be32 w = [ucast (drop_bit 24 w), ucast (drop_bit 16 w), ucast (drop_bit 8 w), ucast w]"

definition from_be32 :: "byte list \<Rightarrow> u32" where
  "from_be32 b = ucast (b ! 3) OR push_bit 8 (ucast (b ! 2)) OR push_bit 16 (ucast (b ! 1))
     OR push_bit 24 (ucast (b ! 0))"

lemma length_be32 [simp]: "length (be32 w) = 4"
  by (simp add: be32_def)

lemma from_be32_be32 [simp]: "from_be32 (be32 w) = w"
proof (rule bit_word_eqI)
  fix n assume "n < LENGTH(32)"
  then consider "n < 8" | "8 \<le> n" "n < 16" | "16 \<le> n" "n < 24" | "24 \<le> n" "n < 32"
    by fastforce
  then show "bit (from_be32 (be32 w)) n = bit w n"
    by cases (auto simp: from_be32_def be32_def bit_simps dest: bit_imp_le_length)
qed

datatype io_error = EOF | UnexpectedEOF | StreamCanceled | IOErr gostring

record reader =
  r_bytes :: "byte list"
  r_err :: io_error

text \<open>\<open>io.ReadFull\<close> into a buffer of \<open>n\<close> bytes.\<close>

definition ReadFull :: "nat \<Rightarrow> reader \<Rightarrow> (io_error + byte list) \<times> reader" where
  "ReadFull n r =
     (if n \<le> length (r_bytes r) then
        (Inr (take n (r_bytes r)), r\<lparr>r_bytes := drop n (r_bytes r)\<rparr>)
      else
        (Inl (if r_bytes r \<noteq> [] \<and> r_err r = EOF then UnexpectedEOF else r_err r), r\<lparr>r_bytes := []\<rparr>))"

section \<open>Frames\<close>

definition Length :: nat where
  "Length = 4"

definition DefaultBufferSize :: nat where
  "DefaultBufferSize = 2048"

datatype frame_error = FIo io_error | FWire wire_error

definition EncodeBytes :: "nat \<Rightarrow> marshaler \<Rightarrow> (frame_error + byte list) option" where
  "EncodeBytes sz msh =
     (let buf = replicate (Length + sz) 0 in
      case msh (drop Length buf) of
        None \<Rightarrow> None
      | Some (Inl e) \<Rightarrow> Some (Inl (FWire e))
      | Some (Inr (body, _)) \<Rightarrow> Some (Inr (be32 (of_nat sz) @ body)))"

definition dataLen :: "reader \<Rightarrow> (io_error + nat) \<times> reader" where
  "dataLen r =
     (case ReadFull Length r of
        (Inl e, r') \<Rightarrow> (Inl e, r')
      | (Inr header, r') \<Rightarrow> (Inr (unat (from_be32 header)), r'))"

text \<open>\<open>unmarshalReset\<close> is \<open>UnmarshalVT\<close> after \<open>Reset\<close>, that is, on the zero message.\<close>

definition DecodeReader ::
  "(byte list \<Rightarrow> (wire_error + 'm) option) \<Rightarrow> reader \<Rightarrow> ((frame_error + 'm) \<times> reader) option" where
  "DecodeReader unmarshalReset r =
     (case dataLen r of
        (Inl e, r1) \<Rightarrow> Some (Inl (FIo e), r1)
      | (Inr len, r1) \<Rightarrow>
          (case ReadFull len r1 of
             (Inl e, r2) \<Rightarrow> Some (Inl (FIo e), r2)
           | (Inr dat, r2) \<Rightarrow>
               (case unmarshalReset dat of
                  None \<Rightarrow> None
                | Some (Inl e) \<Rightarrow> Some (Inl (FWire e), r2)
                | Some (Inr m) \<Rightarrow> Some (Inr m, r2))))"

text \<open>
  \<open>EncodeToWriter\<close> reuses a pooled buffer: \<open>old\<close> is its whole backing array, of any contents; the
  result is the error, the writer and the array that goes back to the pool.
\<close>

definition EncodeToWriter ::
  "('w \<Rightarrow> byte list \<Rightarrow> io_error option \<times> 'w) \<Rightarrow> 'w \<Rightarrow> byte list \<Rightarrow> nat \<Rightarrow> marshaler
   \<Rightarrow> (frame_error option \<times> 'w \<times> byte list) option" where
  "EncodeToWriter write w old sz msh =
     (let need = Length + sz;
          arr = (if length old < need then replicate need 0 else old);
          buf = take need arr
      in case msh (drop Length buf) of
           None \<Rightarrow> None
         | Some (Inl e) \<Rightarrow> Some (Some (FWire e), w, arr)
         | Some (Inr (body, _)) \<Rightarrow>
             (let out = be32 (of_nat sz) @ body; (err, w') = write w out
              in Some (map_option FIo err, w', out @ drop need arr)))"

definition new_encode_buffer :: "byte list" where
  "new_encode_buffer = replicate DefaultBufferSize 0"

section \<open>Lemmas\<close>

lemma ReadFull_append: "length a = n \<Longrightarrow> ReadFull n \<lparr>r_bytes = a @ b, r_err = e\<rparr> = (Inr a, \<lparr>r_bytes = b, r_err = e\<rparr>)"
  by (simp add: ReadFull_def)

definition frame :: "byte list \<Rightarrow> byte list" where
  "frame bs = be32 (of_nat (length bs)) @ bs"

lemma length_frame [simp]: "length (frame bs) = 4 + length bs"
  by (simp add: frame_def)

lemma unat_u32_small: "n < 2 ^ 32 \<Longrightarrow> unat (of_nat n :: u32) = n"
  by (intro of_nat_inverse) simp_all

lemma u32_bound: "unat (w :: u32) < 2 ^ 32"
  using unsigned_less [of w] by simp

lemma DecodeReader_frame:
  assumes "length bs < 2 ^ 32"
  shows "DecodeReader f \<lparr>r_bytes = frame bs @ rest, r_err = e\<rparr> =
    (case f bs of
       None \<Rightarrow> None
     | Some (Inl er) \<Rightarrow> Some (Inl (FWire er), \<lparr>r_bytes = rest, r_err = e\<rparr>)
     | Some (Inr m) \<Rightarrow> Some (Inr m, \<lparr>r_bytes = rest, r_err = e\<rparr>))"
proof -
  have "dataLen \<lparr>r_bytes = frame bs @ rest, r_err = e\<rparr> = (Inr (length bs), \<lparr>r_bytes = bs @ rest, r_err = e\<rparr>)"
    using ReadFull_append [of "be32 (of_nat (length bs))" 4 "bs @ rest" e] assms
    by (simp add: dataLen_def frame_def Length_def unat_u32_small)
  then show ?thesis
    by (simp add: DecodeReader_def ReadFull_append)
qed

text \<open>What a decoded frame takes off the reader, and that decoding a frame always returns.\<close>

lemma ReadFull_rest: "ReadFull n r = (x, r') \<Longrightarrow> \<exists>k. r' = r\<lparr>r_bytes := drop k (r_bytes r)\<rparr>"
  by (auto simp: ReadFull_def split: if_splits intro: exI [of _ n] exI [of _ "length (r_bytes r)"])

lemma ReadFull_length: "ReadFull n r = (Inr bs, r') \<Longrightarrow> length bs = n"
  by (auto simp: ReadFull_def split: if_splits)

lemma DecodeReader_total:
  assumes "\<And>bs. length bs < 2 ^ 32 \<Longrightarrow> f bs \<noteq> None"
  shows "DecodeReader f r \<noteq> None"
proof (cases "dataLen r")
  case (Pair x r1)
  show ?thesis
  proof (cases x)
    case (Inr len)
    then have len: "len < 2 ^ 32"
      using Pair u32_bound by (auto simp: dataLen_def split: prod.splits sum.splits)
    obtain y r2 where y: "ReadFull len r1 = (y, r2)" by fastforce
    show ?thesis
    proof (cases y)
      case (Inr dat)
      then have "length dat = len" using y ReadFull_length by blast
      with len have "f dat \<noteq> None" by (intro assms) simp
      with Pair \<open>x = Inr len\<close> y Inr show ?thesis
        by (auto simp: DecodeReader_def split: sum.split)
    qed (simp add: DecodeReader_def Pair Inr y)
  qed (simp add: DecodeReader_def Pair)
qed

context vt_message
begin

lemma encode_bytes: "helpers_ok H \<Longrightarrow> EncodeBytes (sz H (Some m)) (msh H (Some m)) = Some (Inr (frame (wire H m)))"
  by (simp add: EncodeBytes_def Let_def size_wire marshal_into frame_def)

text \<open>The bytes written do not depend on what the pooled buffer held.\<close>

lemma encode_to_writer:
  assumes "helpers_ok H"
  shows "\<exists>arr. EncodeToWriter write w old (sz H (Some m)) (msh H (Some m))
    = Some (map_option FIo (fst (write w (frame (wire H m)))), snd (write w (frame (wire H m))), arr)"
  using assms
  by (auto simp: EncodeToWriter_def Let_def size_wire marshal_into frame_def Length_def split: prod.split)

lemma decode_frame:
  assumes "helpers_ok H" and "clean m" and "length (wire H m) < 2 ^ 32"
  shows "DecodeReader (dec H zero) \<lparr>r_bytes = frame (wire H m) @ rest, r_err = e\<rparr>
    = Some (Inr m, \<lparr>r_bytes = rest, r_err = e\<rparr>)"
  using dec_wire [OF assms(1,2)] assms(3) by (simp add: DecodeReader_frame)

lemma decode_total: "helpers_ok H \<Longrightarrow> DecodeReader (dec H m) r \<noteq> None"
  using dec_total [of H] by (intro DecodeReader_total) simp

end

end
