(* ===== verification/Reference.thy ===== *)
theory Reference
  imports Framing
begin

text \<open>
  A concrete instance of the library functions the codecs are parameterised by, following the
  protobuf encoding document: it shows that \<open>helpers_ok\<close> can be met, and the concrete runs of the
  development use it. The time stamp is the message \<open>google.protobuf.Timestamp\<close> (seconds in field 1,
  nanoseconds in field 2).
\<close>

definition ref_EncodeVarint :: "byte list \<Rightarrow> nat \<Rightarrow> u64 \<Rightarrow> (byte list \<times> nat) option" where
  "ref_EncodeVarint buf i v =
     (let bs = varint v in
      if length bs \<le> i \<and> i \<le> length buf then Some (take (i - length bs) buf @ bs @ drop i buf, i - length bs)
      else None)"

definition ref_Skip :: "byte list \<Rightarrow> wire_error + i64" where
  "ref_Skip bs =
     (case read_tag [] bs 0 of
        Inl e \<Rightarrow> Inl e
      | Inr (_, wireType, j) \<Rightarrow>
          (let done = (\<lambda>k. if k < 2 ^ 62 then Inr (of_nat k) else Inl ErrInvalidLength) in
           if wireType = 0 then
             (case varint_loop 0 (0 :: u64) bs j of Inl e \<Rightarrow> Inl e | Inr (_, k) \<Rightarrow> done k)
           else if wireType = 1 then done (j + 8)
           else if wireType = 2 then
             (case varint_loop 0 (0 :: u64) bs j of Inl e \<Rightarrow> Inl e | Inr (v, k) \<Rightarrow> done (k + unat v))
           else if wireType = 5 then done (j + 4)
           else Inl (ErrOther [])))"

definition Timestamp_wire :: "timestamp \<Rightarrow> byte list" where
  "Timestamp_wire ts = enc_uint 0x8 (ts_Seconds ts) @ enc_uint 0x10 (scast (ts_Nanos ts))"

definition Timestamp_fields :: "byte list \<Rightarrow> timestamp fields" where
  "Timestamp_fields dAtA ts fieldNum wireType preIndex iNdEx =
     (if fieldNum = 1 then
        varint_field (str ''Seconds'') wireType dAtA iNdEx (\<lambda>v. ts\<lparr>ts_Seconds := v\<rparr>)
      else if fieldNum = 2 then
        varint_field (str ''Nanos'') wireType dAtA iNdEx (\<lambda>v. ts\<lparr>ts_Nanos := v\<rparr>)
      else Some (Inl (ErrOther [])))"

definition ref_TsUnmarshal :: "timestamp \<Rightarrow> byte list \<Rightarrow> wire_error + timestamp" where
  "ref_TsUnmarshal ts dAtA =
     (case unmarshal (str ''Timestamp'') Timestamp_fields ts dAtA of None \<Rightarrow> Inl (ErrOther []) | Some r \<Rightarrow> r)"

definition ref_TsMarshal :: "timestamp \<Rightarrow> marshaler" where
  "ref_TsMarshal ts buf =
     (let bs = Timestamp_wire ts in
      if length bs \<le> length buf then Some (Inr (take (length buf - length bs) buf @ bs, length bs)) else None)"

definition ref_helpers :: helpers where
  "ref_helpers = \<lparr>EncodeVarint = ref_EncodeVarint, SizeOfVarint = (\<lambda>v. length (varint v)), Skip = ref_Skip,
     TsSizeVT = (\<lambda>ts. length (Timestamp_wire ts)), TsMarshal = ref_TsMarshal, TsUnmarshal = ref_TsUnmarshal\<rparr>"

lemma ref_Skip_positive: "ref_Skip bs = Inr n \<Longrightarrow> 0 < sint n"
proof -
  assume s: "ref_Skip bs = Inr n"
  have small: "0 < sint (of_nat k :: i64)" if "0 < k" "k < 2 ^ 62" for k
    using that by (simp add: sint_of_nat_small)
  from s obtain x wt j where t: "read_tag [] bs 0 = Inr (x, wt, j)"
    by (cases "read_tag [] bs 0") (auto simp: ref_Skip_def)
  then have j: "0 < j"
    by (auto simp: read_tag_def Let_def dest!: varint_loop_progress split: sum.splits if_splits)
  have "\<exists>k. 0 < k \<and> k < 2 ^ 62 \<and> n = of_nat k"
  proof (cases "varint_loop 0 (0 :: u64) bs j")
    case (Inl e)
    with s t j show ?thesis
      by (auto simp: ref_Skip_def Let_def split: if_splits intro: exI [of _ "j + 8"] exI [of _ "j + 4"])
  next
    case (Inr r)
    obtain v k where r: "r = (v, k)" by fastforce
    with Inr have "0 < k" using varint_loop_progress [of 0 0 bs j v k] by simp
    with s t j Inr r show ?thesis
      by (auto simp: ref_Skip_def Let_def split: if_splits
          intro: exI [of _ k] exI [of _ "k + unat v"] exI [of _ "j + 8"] exI [of _ "j + 4"])
  qed
  with small show ?thesis by blast
qed

lemma Timestamp_cases:
  "Timestamp_fields d ts 1 wt i j = varint_field (str ''Seconds'') wt d j (\<lambda>v. ts\<lparr>ts_Seconds := v\<rparr>)"
  "Timestamp_fields d ts 2 wt i j = varint_field (str ''Nanos'') wt d j (\<lambda>v. ts\<lparr>ts_Nanos := v\<rparr>)"
  by (simp_all add: Timestamp_fields_def)

lemma ref_ts_roundtrip: "ref_TsUnmarshal \<lparr>ts_Seconds = 0, ts_Nanos = 0\<rparr> (Timestamp_wire ts) = Inr ts"
proof -
  let ?d = "Timestamp_wire ts" and ?z = "\<lparr>ts_Seconds = 0, ts_Nanos = 0\<rparr>"
  have wire: "?d = enc_uint 0x8 (ts_Seconds ts) @ enc_uint 0x10 (scast (ts_Nanos ts)) @ []"
    by (simp add: Timestamp_wire_def)
  have "decodes (tagged (str ''Timestamp'') ?d (Timestamp_fields ?d)) ?d ?z \<dots> ts"
    by ((rule decodes_uint, rule Timestamp_cases, rule tag_oks, simp add: narrow)
        | (rule decodes_end, simp add: narrow))+
  then have "decodes (tagged (str ''Timestamp'') ?d (Timestamp_fields ?d)) ?d ?z ?d ts"
    by (simp only: wire)
  then have "unmarshal (str ''Timestamp'') Timestamp_fields ?z ?d = Some (Inr ts)"
    by (rule unmarshal_decodes)
  then show ?thesis by (simp add: ref_TsUnmarshal_def)
qed

lemma ref_helpers_ok: "helpers_ok ref_helpers"
  by (auto simp: helpers_ok_def ref_helpers_def ref_EncodeVarint_def Let_def ref_Skip_positive ts_bytes_def
      ref_TsMarshal_def marshals_def ref_ts_roundtrip)

end
