(* ===== verification/PbMessages.thy ===== *)
theory PbMessages
  imports Reference
begin

text \<open>
  The generated codec of \<open>message.proto\<close> (\<open>internal/types/proto/message_vtproto.pb.go\<close>): messages,
  announcements and requests, each with its size, its writer and its reader, in terms of the
  building blocks of \<open>Wire\<close>. A nil pointer is \<open>None\<close>. Each type is shown to fulfil the contract
  \<open>vt_message\<close>; \<open>*_wire\<close> is the encoding in the order of the bytes.
\<close>

section \<open>Message\<close>

record p_message =
  pm_ID :: i64
  pm_ContentLength :: u64
  pm_MimeType :: i32
  pm_ContentHash :: u64
  pm_Name :: gostring
  pm_BatchID :: i64
  pm_BatchTotal :: u32
  pm_unknown :: "byte list"

definition zero_p_message :: p_message where
  "zero_p_message = \<lparr>pm_ID = 0, pm_ContentLength = 0, pm_MimeType = 0, pm_ContentHash = 0,
     pm_Name = [], pm_BatchID = 0, pm_BatchTotal = 0, pm_unknown = []\<rparr>"

fun Message_MarshalToSizedBufferVT :: "helpers \<Rightarrow> p_message option \<Rightarrow> marshaler" where
  "Message_MarshalToSizedBufferVT H None dAtA = Some (Inr (dAtA, 0))"
| "Message_MarshalToSizedBufferVT H (Some m) dAtA = run_writer (seqw [
     whenw (pm_unknown m \<noteq> []) (copy_back (pm_unknown m)),
     whenw (pm_BatchTotal m \<noteq> 0) (seqw [write_varint H (ucast (pm_BatchTotal m)), put_byte 0x38]),
     whenw (pm_BatchID m \<noteq> 0) (seqw [write_varint H (pm_BatchID m), put_byte 0x30]),
     whenw (pm_Name m \<noteq> []) (seqw [copy_back (pm_Name m),
       write_varint H (of_nat (length (pm_Name m))), put_byte 0x2a]),
     whenw (pm_ContentHash m \<noteq> 0) (seqw [write_varint H (pm_ContentHash m), put_byte 0x20]),
     whenw (pm_MimeType m \<noteq> 0) (seqw [write_varint H (scast (pm_MimeType m)), put_byte 0x18]),
     whenw (pm_ContentLength m \<noteq> 0) (seqw [write_varint H (pm_ContentLength m), put_byte 0x10]),
     whenw (pm_ID m \<noteq> 0) (seqw [write_varint H (pm_ID m), put_byte 0x8])]) dAtA"

fun Message_SizeVT :: "helpers \<Rightarrow> p_message option \<Rightarrow> nat" where
  "Message_SizeVT H None = 0"
| "Message_SizeVT H (Some m) =
     (if pm_ID m \<noteq> 0 then 1 + SizeOfVarint H (pm_ID m) else 0)
     + (if pm_ContentLength m \<noteq> 0 then 1 + SizeOfVarint H (pm_ContentLength m) else 0)
     + (if pm_MimeType m \<noteq> 0 then 1 + SizeOfVarint H (scast (pm_MimeType m)) else 0)
     + (if pm_ContentHash m \<noteq> 0 then 1 + SizeOfVarint H (pm_ContentHash m) else 0)
     + (let l = length (pm_Name m) in if 0 < l then 1 + l + SizeOfVarint H (of_nat l) else 0)
     + (if pm_BatchID m \<noteq> 0 then 1 + SizeOfVarint H (pm_BatchID m) else 0)
     + (if pm_BatchTotal m \<noteq> 0 then 1 + SizeOfVarint H (ucast (pm_BatchTotal m)) else 0)
     + length (pm_unknown m)"

definition Message_MarshalVT :: "helpers \<Rightarrow> p_message option \<Rightarrow> (wire_error + byte list) option" where
  "Message_MarshalVT H m = vt_Marshal (Message_SizeVT H m) (Message_MarshalToSizedBufferVT H m)"

definition Message_MarshalToVT :: "helpers \<Rightarrow> p_message option \<Rightarrow> marshaler" where
  "Message_MarshalToVT H m = vt_MarshalTo (Message_SizeVT H m) (Message_MarshalToSizedBufferVT H m)"

definition Message_fields :: "helpers \<Rightarrow> byte list \<Rightarrow> p_message fields" where
  "Message_fields H dAtA m fieldNum wireType preIndex iNdEx =
     (if fieldNum = 1 then
        varint_field (str ''ID'') wireType dAtA iNdEx (\<lambda>v. m\<lparr>pm_ID := v\<rparr>)
      else if fieldNum = 2 then
        varint_field (str ''ContentLength'') wireType dAtA iNdEx (\<lambda>v. m\<lparr>pm_ContentLength := v\<rparr>)
      else if fieldNum = 3 then
        varint_field (str ''MimeType'') wireType dAtA iNdEx (\<lambda>v. m\<lparr>pm_MimeType := v\<rparr>)
      else if fieldNum = 4 then
        varint_field (str ''ContentHash'') wireType dAtA iNdEx (\<lambda>v. m\<lparr>pm_ContentHash := v\<rparr>)
      else if fieldNum = 5 then
        bytes_field (str ''Name'') wireType dAtA iNdEx (\<lambda>s. Some (Inr (m\<lparr>pm_Name := s\<rparr>)))
      else if fieldNum = 6 then
        varint_field (str ''BatchID'') wireType dAtA iNdEx (\<lambda>v. m\<lparr>pm_BatchID := v\<rparr>)
      else if fieldNum = 7 then
        varint_field (str ''BatchTotal'') wireType dAtA iNdEx (\<lambda>v. m\<lparr>pm_BatchTotal := v\<rparr>)
      else skip_field H dAtA preIndex (\<lambda>s. m\<lparr>pm_unknown := pm_unknown m @ s\<rparr>))"

definition Message_UnmarshalVT ::
  "helpers \<Rightarrow> p_message \<Rightarrow> byte list \<Rightarrow> (wire_error + p_message) option" where
  "Message_UnmarshalVT H = unmarshal (str ''Message'') (Message_fields H)"

definition Message_wire :: "helpers \<Rightarrow> p_message \<Rightarrow> byte list" where
  "Message_wire H m =
     enc_uint 0x8 (pm_ID m) @ enc_uint 0x10 (pm_ContentLength m) @ enc_uint 0x18 (scast (pm_MimeType m))
     @ enc_uint 0x20 (pm_ContentHash m) @ enc_string 0x2a (pm_Name m) @ enc_uint 0x30 (pm_BatchID m)
     @ enc_uint 0x38 (ucast (pm_BatchTotal m)) @ pm_unknown m"

lemma Message_emits:
  assumes "helpers_ok H"
  shows "marshals (Message_MarshalToSizedBufferVT H (Some m)) (Message_wire H m)"
proof -
  note f = emits_uint [OF assms] emits_string [OF assms] emits_unknown
  have "Message_wire H m = (((((((([] @ enc_uint 0x8 (pm_ID m)) @ enc_uint 0x10 (pm_ContentLength m))
      @ enc_uint 0x18 (scast (pm_MimeType m))) @ enc_uint 0x20 (pm_ContentHash m))
      @ enc_string 0x2a (pm_Name m)) @ enc_uint 0x30 (pm_BatchID m))
      @ enc_uint 0x38 (ucast (pm_BatchTotal m))) @ pm_unknown m)"
    by (simp add: Message_wire_def)
  moreover have "emits (seqw [
     whenw (pm_unknown m \<noteq> []) (copy_back (pm_unknown m)),
     whenw (pm_BatchTotal m \<noteq> 0) (seqw [write_varint H (ucast (pm_BatchTotal m)), put_byte 0x38]),
     whenw (pm_BatchID m \<noteq> 0) (seqw [write_varint H (pm_BatchID m), put_byte 0x30]),
     whenw (pm_Name m \<noteq> []) (seqw [copy_back (pm_Name m),
       write_varint H (of_nat (length (pm_Name m))), put_byte 0x2a]),
     whenw (pm_ContentHash m \<noteq> 0) (seqw [write_varint H (pm_ContentHash m), put_byte 0x20]),
     whenw (pm_MimeType m \<noteq> 0) (seqw [write_varint H (scast (pm_MimeType m)), put_byte 0x18]),
     whenw (pm_ContentLength m \<noteq> 0) (seqw [write_varint H (pm_ContentLength m), put_byte 0x10]),
     whenw (pm_ID m \<noteq> 0) (seqw [write_varint H (pm_ID m), put_byte 0x8])]) \<dots>"
    by (intro emits_Cons emits_Nil f) (simp_all add: narrow)
  ultimately show ?thesis
    using marshals_run by (fastforce simp: marshals_def)
qed

lemma Message_size: "helpers_ok H \<Longrightarrow> Message_SizeVT H (Some m) = length (Message_wire H m)"
  by (simp add: Message_wire_def length_enc_uint length_enc_string narrow Let_def)

lemma Message_total:
  assumes "helpers_ok H" and "length d < 2 ^ 63"
  shows "Message_UnmarshalVT H m d \<noteq> None"
  unfolding Message_UnmarshalVT_def
  by (rule unmarshal_total, unfold total_fields_def Message_fields_def)
    (intro allI impI total_intros assms, simp_all)

lemma Message_cases:
  "Message_fields H d m 1 wt i j = varint_field (str ''ID'') wt d j (\<lambda>v. m\<lparr>pm_ID := v\<rparr>)"
  "Message_fields H d m 2 wt i j = varint_field (str ''ContentLength'') wt d j (\<lambda>v. m\<lparr>pm_ContentLength := v\<rparr>)"
  "Message_fields H d m 3 wt i j = varint_field (str ''MimeType'') wt d j (\<lambda>v. m\<lparr>pm_MimeType := v\<rparr>)"
  "Message_fields H d m 4 wt i j = varint_field (str ''ContentHash'') wt d j (\<lambda>v. m\<lparr>pm_ContentHash := v\<rparr>)"
  "Message_fields H d m 5 wt i j = bytes_field (str ''Name'') wt d j (\<lambda>s. Some (Inr (m\<lparr>pm_Name := s\<rparr>)))"
  "Message_fields H d m 6 wt i j = varint_field (str ''BatchID'') wt d j (\<lambda>v. m\<lparr>pm_BatchID := v\<rparr>)"
  "Message_fields H d m 7 wt i j = varint_field (str ''BatchTotal'') wt d j (\<lambda>v. m\<lparr>pm_BatchTotal := v\<rparr>)"
  by (simp_all add: Message_fields_def)

lemma Message_decode:
  assumes "pm_unknown m = []" and "length (Message_wire H m) < 2 ^ 63"
  shows "Message_UnmarshalVT H zero_p_message (Message_wire H m) = Some (Inr m)"
proof -
  let ?d = "Message_wire H m"
  have wire: "?d = enc_uint 0x8 (pm_ID m) @ enc_uint 0x10 (pm_ContentLength m)
      @ enc_uint 0x18 (scast (pm_MimeType m)) @ enc_uint 0x20 (pm_ContentHash m)
      @ enc_string 0x2a (pm_Name m) @ enc_uint 0x30 (pm_BatchID m)
      @ enc_uint 0x38 (ucast (pm_BatchTotal m)) @ []"
    by (simp add: Message_wire_def assms(1))
  have "decodes (tagged (str ''Message'') ?d (Message_fields H ?d)) ?d zero_p_message \<dots> m"
    by ((rule decodes_uint, rule Message_cases, rule tag_oks, simp add: zero_p_message_def narrow)
        | (rule decodes_string, rule Message_cases, rule tag_oks, rule assms(2), simp add: zero_p_message_def)
        | (rule decodes_end, simp add: zero_p_message_def narrow assms(1)))+
  then have "decodes (tagged (str ''Message'') ?d (Message_fields H ?d)) ?d zero_p_message ?d m"
    by (simp only: wire)
  then show ?thesis
    unfolding Message_UnmarshalVT_def by (rule unmarshal_decodes)
qed

interpretation message_codec: vt_message Message_SizeVT Message_MarshalToSizedBufferVT
  Message_UnmarshalVT Message_wire zero_p_message "\<lambda>m. pm_unknown m = []"
  by unfold_locales (simp_all only: Message_size Message_emits Message_decode Message_total
      not_False_eq_True)

section \<open>Announce\<close>

record p_announce =
  pa_ID :: i64
  pa_ContentLength :: u64
  pa_MimeType :: i32
  pa_ContentHash :: u64
  pa_BatchID :: i64
  pa_BatchTotal :: u32
  pa_unknown :: "byte list"

definition zero_p_announce :: p_announce where
  "zero_p_announce = \<lparr>pa_ID = 0, pa_ContentLength = 0, pa_MimeType = 0, pa_ContentHash = 0, pa_BatchID = 0, pa_BatchTotal = 0, pa_unknown = []\<rparr>"

fun Announce_MarshalToSizedBufferVT :: "helpers \<Rightarrow> p_announce option \<Rightarrow> marshaler" where
  "Announce_MarshalToSizedBufferVT H None dAtA = Some (Inr (dAtA, 0))"
| "Announce_MarshalToSizedBufferVT H (Some m) dAtA = run_writer (seqw [
     whenw (pa_unknown m \<noteq> []) (copy_back (pa_unknown m)),
     whenw (pa_BatchTotal m \<noteq> 0) (seqw [write_varint H (ucast (pa_BatchTotal m)), put_byte 0x30]),
     whenw (pa_BatchID m \<noteq> 0) (seqw [write_varint H (pa_BatchID m), put_byte 0x28]),
     whenw (pa_ContentHash m \<noteq> 0) (seqw [write_varint H (pa_ContentHash m), put_byte 0x20]),
     whenw (pa_MimeType m \<noteq> 0) (seqw [write_varint H (scast (pa_MimeType m)), put_byte 0x18]),
     whenw (pa_ContentLength m \<noteq> 0) (seqw [write_varint H (pa_ContentLength m), put_byte 0x10]),
     whenw (pa_ID m \<noteq> 0) (seqw [write_varint H (pa_ID m), put_byte 0x8])]) dAtA"

fun Announce_SizeVT :: "helpers \<Rightarrow> p_announce option \<Rightarrow> nat" where
  "Announce_SizeVT H None = 0"
| "Announce_SizeVT H (Some m) =
     (if pa_ID m \<noteq> 0 then 1 + SizeOfVarint H (pa_ID m) else 0)
     + (if pa_ContentLength m \<noteq> 0 then 1 + SizeOfVarint H (pa_ContentLength m) else 0)
     + (if pa_MimeType m \<noteq> 0 then 1 + SizeOfVarint H (scast (pa_MimeType m)) else 0)
     + (if pa_ContentHash m \<noteq> 0 then 1 + SizeOfVarint H (pa_ContentHash m) else 0)
     + (if pa_BatchID m \<noteq> 0 then 1 + SizeOfVarint H (pa_BatchID m) else 0)
     + (if pa_BatchTotal m \<noteq> 0 then 1 + SizeOfVarint H (ucast (pa_BatchTotal m)) else 0)
     + length (pa_unknown m)"

definition Announce_MarshalVT :: "helpers \<Rightarrow> p_announce option \<Rightarrow> (wire_error + byte list) option" where
  "Announce_MarshalVT H m = vt_Marshal (Announce_SizeVT H m) (Announce_MarshalToSizedBufferVT H m)"

definition Announce_MarshalToVT :: "helpers \<Rightarrow> p_announce option \<Rightarrow> marshaler" where
  "Announce_MarshalToVT H m = vt_MarshalTo (Announce_SizeVT H m) (Announce_MarshalToSizedBufferVT H m)"

definition Announce_fields :: "helpers \<Rightarrow> byte list \<Rightarrow> p_announce fields" where
  "Announce_fields H dAtA m fieldNum wireType preIndex iNdEx =
     (if fieldNum = 1 then
        varint_field (str ''ID'') wireType dAtA iNdEx (\<lambda>v. m\<lparr>pa_ID := v\<rparr>)
      else if fieldNum = 2 then
        varint_field (str ''ContentLength'') wireType dAtA iNdEx (\<lambda>v. m\<lparr>pa_ContentLength := v\<rparr>)
      else if fieldNum = 3 then
        varint_field (str ''MimeType'') wireType dAtA iNdEx (\<lambda>v. m\<lparr>pa_MimeType := v\<rparr>)
      else if fieldNum = 4 then
        varint_field (str ''ContentHash'') wireType dAtA iNdEx (\<lambda>v. m\<lparr>pa_ContentHash := v\<rparr>)
      else if fieldNum = 5 then
        varint_field (str ''BatchID'') wireType dAtA iNdEx (\<lambda>v. m\<lparr>pa_BatchID := v\<rparr>)
      else if fieldNum = 6 then
        varint_field (str ''BatchTotal'') wireType dAtA iNdEx (\<lambda>v. m\<lparr>pa_BatchTotal := v\<rparr>)
      else skip_field H dAtA preIndex (\<lambda>s. m\<lparr>pa_unknown := pa_unknown m @ s\<rparr>))"

definition Announce_UnmarshalVT ::
  "helpers \<Rightarrow> p_announce \<Rightarrow> byte list \<Rightarrow> (wire_error + p_announce) option" where
  "Announce_UnmarshalVT H = unmarshal (str ''Announce'') (Announce_fields H)"

definition Announce_wire :: "helpers \<Rightarrow> p_announce \<Rightarrow> byte list" where
  "Announce_wire H m =
     enc_uint 0x8 (pa_ID m)
     @ enc_uint 0x10 (pa_ContentLength m)
     @ enc_uint 0x18 (scast (pa_MimeType m))
     @ enc_uint 0x20 (pa_ContentHash m)
     @ enc_uint 0x28 (pa_BatchID m)
     @ enc_uint 0x30 (ucast (pa_BatchTotal m))
     @ pa_unknown m"

lemma Announce_emits:
  assumes "helpers_ok H"
  shows "marshals (Announce_MarshalToSizedBufferVT H (Some m)) (Announce_wire H m)"
proof -
  note f = emits_uint [OF assms] emits_string [OF assms] emits_unknown
  have "Announce_wire H m = ((((((([] @ enc_uint 0x8 (pa_ID m))
      @ enc_uint 0x10 (pa_ContentLength m))
      @ enc_uint 0x18 (scast (pa_MimeType m)))
      @ enc_uint 0x20 (pa_ContentHash m))
      @ enc_uint 0x28 (pa_BatchID m))
      @ enc_uint 0x30 (ucast (pa_BatchTotal m)))
      @ pa_unknown m)"
    by (simp add: Announce_wire_def)
  moreover have "emits (seqw [
     whenw (pa_unknown m \<noteq> []) (copy_back (pa_unknown m)),
     whenw (pa_BatchTotal m \<noteq> 0) (seqw [write_varint H (ucast (pa_BatchTotal m)), put_byte 0x30]),
     whenw (pa_BatchID m \<noteq> 0) (seqw [write_varint H (pa_BatchID m), put_byte 0x28]),
     whenw (pa_ContentHash m \<noteq> 0) (seqw [write_varint H (pa_ContentHash m), put_byte 0x20]),
     whenw (pa_MimeType m \<noteq> 0) (seqw [write_varint H (scast (pa_MimeType m)), put_byte 0x18]),
     whenw (pa_ContentLength m \<noteq> 0) (seqw [write_varint H (pa_ContentLength m), put_byte 0x10]),
     whenw (pa_ID m \<noteq> 0) (seqw [write_varint H (pa_ID m), put_byte 0x8])]) \<dots>"
    by (intro emits_Cons emits_Nil f) (simp_all add: narrow)
  ultimately show ?thesis
    using marshals_run by (fastforce simp: marshals_def)
qed

lemma Announce_size: "helpers_ok H \<Longrightarrow> Announce_SizeVT H (Some m) = length (Announce_wire H m)"
  by (simp add: Announce_wire_def length_enc_uint length_enc_string narrow Let_def)

lemma Announce_total:
  assumes "helpers_ok H" and "length d < 2 ^ 63"
  shows "Announce_UnmarshalVT H m d \<noteq> None"
  unfolding Announce_UnmarshalVT_def
  by (rule unmarshal_total, unfold total_fields_def Announce_fields_def)
    (intro allI impI total_intros assms, simp_all)

lemma Announce_cases:
  "Announce_fields H d m 1 wt i j = varint_field (str ''ID'') wt d j (\<lambda>v. m\<lparr>pa_ID := v\<rparr>)"
  "Announce_fields H d m 2 wt i j = varint_field (str ''ContentLength'') wt d j (\<lambda>v. m\<lparr>pa_ContentLength := v\<rparr>)"
  "Announce_fields H d m 3 wt i j = varint_field (str ''MimeType'') wt d j (\<lambda>v. m\<lparr>pa_MimeType := v\<rparr>)"
  "Announce_fields H d m 4 wt i j = varint_field (str ''ContentHash'') wt d j (\<lambda>v. m\<lparr>pa_ContentHash := v\<rparr>)"
  "Announce_fields H d m 5 wt i j = varint_field (str ''BatchID'') wt d j (\<lambda>v. m\<lparr>pa_BatchID := v\<rparr>)"
  "Announce_fields H d m 6 wt i j = varint_field (str ''BatchTotal'') wt d j (\<lambda>v. m\<lparr>pa_BatchTotal := v\<rparr>)"
  by (simp_all add: Announce_fields_def)

lemma Announce_decode:
  assumes "pa_unknown m = []" and "length (Announce_wire H m) < 2 ^ 63"
  shows "Announce_UnmarshalVT H zero_p_announce (Announce_wire H m) = Some (Inr m)"
proof -
  let ?d = "Announce_wire H m"
  have wire: "?d = enc_uint 0x8 (pa_ID m)
      @ enc_uint 0x10 (pa_ContentLength m)
      @ enc_uint 0x18 (scast (pa_MimeType m))
      @ enc_uint 0x20 (pa_ContentHash m)
      @ enc_uint 0x28 (pa_BatchID m)
      @ enc_uint 0x30 (ucast (pa_BatchTotal m)) @ []"
    by (simp add: Announce_wire_def assms(1))
  have "decodes (tagged (str ''Announce'') ?d (Announce_fields H ?d)) ?d zero_p_announce \<dots> m"
    by ((rule decodes_uint, rule Announce_cases, rule tag_oks, simp add: zero_p_announce_def narrow)
        | (rule decodes_string, rule Announce_cases, rule tag_oks, rule assms(2), simp add: zero_p_announce_def)
        | (rule decodes_end, simp add: zero_p_announce_def narrow assms(1)))+
  then have "decodes (tagged (str ''Announce'') ?d (Announce_fields H ?d)) ?d zero_p_announce ?d m"
    by (simp only: wire)
  then show ?thesis
    unfolding Announce_UnmarshalVT_def by (rule unmarshal_decodes)
qed

interpretation announce_codec: vt_message Announce_SizeVT Announce_MarshalToSizedBufferVT
  Announce_UnmarshalVT Announce_wire zero_p_announce "\<lambda>m. pa_unknown m = []"
  by unfold_locales (simp_all only: Announce_size Announce_emits Announce_decode Announce_total not_False_eq_True)

section \<open>RequestMessage\<close>

record p_request =
  pr_ID :: i64
  pr_unknown :: "byte list"

definition zero_p_request :: p_request where
  "zero_p_request = \<lparr>pr_ID = 0, pr_unknown = []\<rparr>"

fun RequestMessage_MarshalToSizedBufferVT :: "helpers \<Rightarrow> p_request option \<Rightarrow> marshaler" where
  "RequestMessage_MarshalToSizedBufferVT H None dAtA = Some (Inr (dAtA, 0))"
| "RequestMessage_MarshalToSizedBufferVT H (Some m) dAtA = run_writer (seqw [
     whenw (pr_unknown m \<noteq> []) (copy_back (pr_unknown m)),
     whenw (pr_ID m \<noteq> 0) (seqw [write_varint H (pr_ID m), put_byte 0x8])]) dAtA"

fun RequestMessage_SizeVT :: "helpers \<Rightarrow> p_request option \<Rightarrow> nat" where
  "RequestMessage_SizeVT H None = 0"
| "RequestMessage_SizeVT H (Some m) =
     (if pr_ID m \<noteq> 0 then 1 + SizeOfVarint H (pr_ID m) else 0)
     + length (pr_unknown m)"

definition RequestMessage_MarshalVT :: "helpers \<Rightarrow> p_request option \<Rightarrow> (wire_error + byte list) option" where
  "RequestMessage_MarshalVT H m = vt_Marshal (RequestMessage_SizeVT H m) (RequestMessage_MarshalToSizedBufferVT H m)"

definition RequestMessage_MarshalToVT :: "helpers \<Rightarrow> p_request option \<Rightarrow> marshaler" where
  "RequestMessage_MarshalToVT H m = vt_MarshalTo (RequestMessage_SizeVT H m) (RequestMessage_MarshalToSizedBufferVT H m)"

definition RequestMessage_fields :: "helpers \<Rightarrow> byte list \<Rightarrow> p_request fields" where
  "RequestMessage_fields H dAtA m fieldNum wireType preIndex iNdEx =
     (if fieldNum = 1 then
        varint_field (str ''ID'') wireType dAtA iNdEx (\<lambda>v. m\<lparr>pr_ID := v\<rparr>)
      else skip_field H dAtA preIndex (\<lambda>s. m\<lparr>pr_unknown := pr_unknown m @ s\<rparr>))"

definition RequestMessage_UnmarshalVT ::
  "helpers \<Rightarrow> p_request \<Rightarrow> byte list \<Rightarrow> (wire_error + p_request) option" where
  "RequestMessage_UnmarshalVT H = unmarshal (str ''RequestMessage'') (RequestMessage_fields H)"

definition RequestMessage_wire :: "helpers \<Rightarrow> p_request \<Rightarrow> byte list" where
  "RequestMessage_wire H m =
     enc_uint 0x8 (pr_ID m)
     @ pr_unknown m"

lemma RequestMessage_emits:
  assumes "helpers_ok H"
  shows "marshals (RequestMessage_MarshalToSizedBufferVT H (Some m)) (RequestMessage_wire H m)"
proof -
  note f = emits_uint [OF assms] emits_string [OF assms] emits_unknown
  have "RequestMessage_wire H m = (([] @ enc_uint 0x8 (pr_ID m))
      @ pr_unknown m)"
    by (simp add: RequestMessage_wire_def)
  moreover have "emits (seqw [
     whenw (pr_unknown m \<noteq> []) (copy_back (pr_unknown m)),
     whenw (pr_ID m \<noteq> 0) (seqw [write_varint H (pr_ID m), put_byte 0x8])]) \<dots>"
    by (intro emits_Cons emits_Nil f) (simp_all add: narrow)
  ultimately show ?thesis
    using marshals_run by (fastforce simp: marshals_def)
qed

lemma RequestMessage_size: "helpers_ok H \<Longrightarrow> RequestMessage_SizeVT H (Some m) = length (RequestMessage_wire H m)"
  by (simp add: RequestMessage_wire_def length_enc_uint length_enc_string narrow Let_def)

lemma RequestMessage_total:
  assumes "helpers_ok H" and "length d < 2 ^ 63"
  shows "RequestMessage_UnmarshalVT H m d \<noteq> None"
  unfolding RequestMessage_UnmarshalVT_def
  by (rule unmarshal_total, unfold total_fields_def RequestMessage_fields_def)
    (intro allI impI total_intros assms, simp_all)

lemma RequestMessage_cases:
  "RequestMessage_fields H d m 1 wt i j = varint_field (str ''ID'') wt d j (\<lambda>v. m\<lparr>pr_ID := v\<rparr>)"
  by (simp_all add: RequestMessage_fields_def)

lemma RequestMessage_decode:
  assumes "pr_unknown m = []" and "length (RequestMessage_wire H m) < 2 ^ 63"
  shows "RequestMessage_UnmarshalVT H zero_p_request (RequestMessage_wire H m) = Some (Inr m)"
proof -
  let ?d = "RequestMessage_wire H m"
  have wire: "?d = enc_uint 0x8 (pr_ID m) @ []"
    by (simp add: RequestMessage_wire_def assms(1))
  have "decodes (tagged (str ''RequestMessage'') ?d (RequestMessage_fields H ?d)) ?d zero_p_request \<dots> m"
    by ((rule decodes_uint, rule RequestMessage_cases, rule tag_oks, simp add: zero_p_request_def narrow)
        | (rule decodes_string, rule RequestMessage_cases, rule tag_oks, rule assms(2), simp add: zero_p_request_def)
        | (rule decodes_end, simp add: zero_p_request_def narrow assms(1)))+
  then have "decodes (tagged (str ''RequestMessage'') ?d (RequestMessage_fields H ?d)) ?d zero_p_request ?d m"
    by (simp only: wire)
  then show ?thesis
    unfolding RequestMessage_UnmarshalVT_def by (rule unmarshal_decodes)
qed

interpretation request_codec: vt_message RequestMessage_SizeVT RequestMessage_MarshalToSizedBufferVT
  RequestMessage_UnmarshalVT RequestMessage_wire zero_p_request "\<lambda>m. pr_unknown m = []"
  by unfold_locales (simp_all only: RequestMessage_size RequestMessage_emits RequestMessage_decode RequestMessage_total not_False_eq_True)

end
