(* ===== verification/PbHandshake.thy ===== *)
theory PbHandshake
  imports PbMessages
begin

text \<open>
  The generated codecs of \<open>device.proto\<close> and \<open>handshake.proto\<close>. A handshake carries its device as a
  nested message, whose decoder is called on the bytes of the field.
\<close>

section \<open>Device\<close>

record p_device =
  pd_Name :: gostring
  pd_Arch :: gostring
  pd_ID :: i64
  pd_unknown :: "byte list"

definition zero_p_device :: p_device where
  "zero_p_device = \<lparr>pd_Name = [], pd_Arch = [], pd_ID = 0, pd_unknown = []\<rparr>"

fun Device_MarshalToSizedBufferVT :: "helpers \<Rightarrow> p_device option \<Rightarrow> marshaler" where
  "Device_MarshalToSizedBufferVT H None dAtA = Some (Inr (dAtA, 0))"
| "Device_MarshalToSizedBufferVT H (Some m) dAtA = run_writer (seqw [
     whenw (pd_unknown m \<noteq> []) (copy_back (pd_unknown m)),
     whenw (pd_ID m \<noteq> 0) (seqw [write_varint H (pd_ID m), put_byte 0x18]),
     whenw (pd_Arch m \<noteq> []) (seqw [copy_back (pd_Arch m),
       write_varint H (of_nat (length (pd_Arch m))), put_byte 0x12]),
     whenw (pd_Name m \<noteq> []) (seqw [copy_back (pd_Name m),
       write_varint H (of_nat (length (pd_Name m))), put_byte 0xa])]) dAtA"

fun Device_SizeVT :: "helpers \<Rightarrow> p_device option \<Rightarrow> nat" where
  "Device_SizeVT H None = 0"
| "Device_SizeVT H (Some m) =
     (let l = length (pd_Name m) in if 0 < l then 1 + l + SizeOfVarint H (of_nat l) else 0)
     + (let l = length (pd_Arch m) in if 0 < l then 1 + l + SizeOfVarint H (of_nat l) else 0)
     + (if pd_ID m \<noteq> 0 then 1 + SizeOfVarint H (pd_ID m) else 0)
     + length (pd_unknown m)"

definition Device_MarshalVT :: "helpers \<Rightarrow> p_device option \<Rightarrow> (wire_error + byte list) option" where
  "Device_MarshalVT H m = vt_Marshal (Device_SizeVT H m) (Device_MarshalToSizedBufferVT H m)"

definition Device_MarshalToVT :: "helpers \<Rightarrow> p_device option \<Rightarrow> marshaler" where
  "Device_MarshalToVT H m = vt_MarshalTo (Device_SizeVT H m) (Device_MarshalToSizedBufferVT H m)"

definition Device_fields :: "helpers \<Rightarrow> byte list \<Rightarrow> p_device fields" where
  "Device_fields H dAtA m fieldNum wireType preIndex iNdEx =
     (if fieldNum = 1 then
        bytes_field (str ''Name'') wireType dAtA iNdEx (\<lambda>s. Some (Inr (m\<lparr>pd_Name := s\<rparr>)))
      else if fieldNum = 2 then
        bytes_field (str ''Arch'') wireType dAtA iNdEx (\<lambda>s. Some (Inr (m\<lparr>pd_Arch := s\<rparr>)))
      else if fieldNum = 3 then
        varint_field (str ''ID'') wireType dAtA iNdEx (\<lambda>v. m\<lparr>pd_ID := v\<rparr>)
      else skip_field H dAtA preIndex (\<lambda>s. m\<lparr>pd_unknown := pd_unknown m @ s\<rparr>))"

definition Device_UnmarshalVT ::
  "helpers \<Rightarrow> p_device \<Rightarrow> byte list \<Rightarrow> (wire_error + p_device) option" where
  "Device_UnmarshalVT H = unmarshal (str ''Device'') (Device_fields H)"

definition Device_wire :: "helpers \<Rightarrow> p_device \<Rightarrow> byte list" where
  "Device_wire H m =
     enc_string 0xa (pd_Name m)
     @ enc_string 0x12 (pd_Arch m)
     @ enc_uint 0x18 (pd_ID m)
     @ pd_unknown m"

lemma Device_emits:
  assumes "helpers_ok H"
  shows "marshals (Device_MarshalToSizedBufferVT H (Some m)) (Device_wire H m)"
proof -
  note f = emits_uint [OF assms] emits_string [OF assms] emits_unknown
  have "Device_wire H m = (((([] @ enc_string 0xa (pd_Name m))
      @ enc_string 0x12 (pd_Arch m))
      @ enc_uint 0x18 (pd_ID m))
      @ pd_unknown m)"
    by (simp add: Device_wire_def)
  moreover have "emits (seqw [
     whenw (pd_unknown m \<noteq> []) (copy_back (pd_unknown m)),
     whenw (pd_ID m \<noteq> 0) (seqw [write_varint H (pd_ID m), put_byte 0x18]),
     whenw (pd_Arch m \<noteq> []) (seqw [copy_back (pd_Arch m),
       write_varint H (of_nat (length (pd_Arch m))), put_byte 0x12]),
     whenw (pd_Name m \<noteq> []) (seqw [copy_back (pd_Name m),
       write_varint H (of_nat (length (pd_Name m))), put_byte 0xa])]) \<dots>"
    by (intro emits_Cons emits_Nil f) (simp_all add: narrow)
  ultimately show ?thesis
    using marshals_run by (fastforce simp: marshals_def)
qed

lemma Device_size: "helpers_ok H \<Longrightarrow> Device_SizeVT H (Some m) = length (Device_wire H m)"
  by (simp add: Device_wire_def length_enc_uint length_enc_string narrow Let_def)

lemma Device_total:
  assumes "helpers_ok H" and "length d < 2 ^ 63"
  shows "Device_UnmarshalVT H m d \<noteq> None"
  unfolding Device_UnmarshalVT_def
  by (rule unmarshal_total, unfold total_fields_def Device_fields_def)
    (intro allI impI total_intros assms, simp_all)

lemma Device_cases:
  "Device_fields H d m 1 wt i j = bytes_field (str ''Name'') wt d j (\<lambda>s. Some (Inr (m\<lparr>pd_Name := s\<rparr>)))"
  "Device_fields H d m 2 wt i j = bytes_field (str ''Arch'') wt d j (\<lambda>s. Some (Inr (m\<lparr>pd_Arch := s\<rparr>)))"
  "Device_fields H d m 3 wt i j = varint_field (str ''ID'') wt d j (\<lambda>v. m\<lparr>pd_ID := v\<rparr>)"
  by (simp_all add: Device_fields_def)

lemma Device_decode:
  assumes "pd_unknown m = []" and "length (Device_wire H m) < 2 ^ 63"
  shows "Device_UnmarshalVT H zero_p_device (Device_wire H m) = Some (Inr m)"
proof -
  let ?d = "Device_wire H m"
  have wire: "?d = enc_string 0xa (pd_Name m)
      @ enc_string 0x12 (pd_Arch m)
      @ enc_uint 0x18 (pd_ID m) @ []"
    by (simp add: Device_wire_def assms(1))
  have "decodes (tagged (str ''Device'') ?d (Device_fields H ?d)) ?d zero_p_device \<dots> m"
    by ((rule decodes_uint, rule Device_cases, rule tag_oks, simp add: zero_p_device_def narrow)
        | (rule decodes_string, rule Device_cases, rule tag_oks, rule assms(2), simp add: zero_p_device_def)
        | (rule decodes_end, simp add: zero_p_device_def narrow assms(1)))+
  then have "decodes (tagged (str ''Device'') ?d (Device_fields H ?d)) ?d zero_p_device ?d m"
    by (simp only: wire)
  then show ?thesis
    unfolding Device_UnmarshalVT_def by (rule unmarshal_decodes)
qed

interpretation device_codec: vt_message Device_SizeVT Device_MarshalToSizedBufferVT
  Device_UnmarshalVT Device_wire zero_p_device "\<lambda>m. pd_unknown m = []"
  by unfold_locales (simp_all only: Device_size Device_emits Device_decode Device_total not_False_eq_True)

section \<open>Handshake\<close>

record p_handshake =
  ph_Version :: gostring
  ph_Device :: "p_device option"
  ph_Port :: u32
  ph_unknown :: "byte list"

definition zero_p_handshake :: p_handshake where
  "zero_p_handshake = \<lparr>ph_Version = [], ph_Device = None, ph_Port = 0, ph_unknown = []\<rparr>"

fun Handshake_MarshalToSizedBufferVT :: "helpers \<Rightarrow> p_handshake option \<Rightarrow> marshaler" where
  "Handshake_MarshalToSizedBufferVT H None dAtA = Some (Inr (dAtA, 0))"
| "Handshake_MarshalToSizedBufferVT H (Some m) dAtA = run_writer (seqw [
     whenw (ph_unknown m \<noteq> []) (copy_back (ph_unknown m)),
     whenw (ph_Port m \<noteq> 0) (seqw [write_varint H (ucast (ph_Port m)), put_byte 0x18]),
     whenw (ph_Device m \<noteq> None)
       (write_message H 0x12 (Device_MarshalToSizedBufferVT H (ph_Device m))),
     whenw (ph_Version m \<noteq> []) (seqw [copy_back (ph_Version m),
       write_varint H (of_nat (length (ph_Version m))), put_byte 0xa])]) dAtA"

fun Handshake_SizeVT :: "helpers \<Rightarrow> p_handshake option \<Rightarrow> nat" where
  "Handshake_SizeVT H None = 0"
| "Handshake_SizeVT H (Some m) =
     (let l = length (ph_Version m) in if 0 < l then 1 + l + SizeOfVarint H (of_nat l) else 0)
     + (if ph_Device m \<noteq> None then
          (let l = Device_SizeVT H (ph_Device m) in 1 + l + SizeOfVarint H (of_nat l)) else 0)
     + (if ph_Port m \<noteq> 0 then 1 + SizeOfVarint H (ucast (ph_Port m)) else 0)
     + length (ph_unknown m)"

definition Handshake_MarshalVT :: "helpers \<Rightarrow> p_handshake option \<Rightarrow> (wire_error + byte list) option" where
  "Handshake_MarshalVT H m = vt_Marshal (Handshake_SizeVT H m) (Handshake_MarshalToSizedBufferVT H m)"

definition Handshake_MarshalToVT :: "helpers \<Rightarrow> p_handshake option \<Rightarrow> marshaler" where
  "Handshake_MarshalToVT H m = vt_MarshalTo (Handshake_SizeVT H m) (Handshake_MarshalToSizedBufferVT H m)"

text \<open>Decoding the device merges into the one already there, or into a new one.\<close>

definition Handshake_device ::
  "helpers \<Rightarrow> p_handshake \<Rightarrow> byte list \<Rightarrow> (wire_error + p_handshake) option" where
  "Handshake_device H m s =
     (case Device_UnmarshalVT H (case ph_Device m of None \<Rightarrow> zero_p_device | Some d \<Rightarrow> d) s of
        None \<Rightarrow> None
      | Some (Inl e) \<Rightarrow> Some (Inl e)
      | Some (Inr d) \<Rightarrow> Some (Inr (m\<lparr>ph_Device := Some d\<rparr>)))"

definition Handshake_fields :: "helpers \<Rightarrow> byte list \<Rightarrow> p_handshake fields" where
  "Handshake_fields H dAtA m fieldNum wireType preIndex iNdEx =
     (if fieldNum = 1 then
        bytes_field (str ''Version'') wireType dAtA iNdEx (\<lambda>s. Some (Inr (m\<lparr>ph_Version := s\<rparr>)))
      else if fieldNum = 2 then
        bytes_field (str ''Device'') wireType dAtA iNdEx (Handshake_device H m)
      else if fieldNum = 3 then
        varint_field (str ''Port'') wireType dAtA iNdEx (\<lambda>v. m\<lparr>ph_Port := v\<rparr>)
      else skip_field H dAtA preIndex (\<lambda>s. m\<lparr>ph_unknown := ph_unknown m @ s\<rparr>))"

definition Handshake_UnmarshalVT ::
  "helpers \<Rightarrow> p_handshake \<Rightarrow> byte list \<Rightarrow> (wire_error + p_handshake) option" where
  "Handshake_UnmarshalVT H = unmarshal (str ''Handshake'') (Handshake_fields H)"

definition Handshake_device_wire :: "helpers \<Rightarrow> p_handshake \<Rightarrow> byte list" where
  "Handshake_device_wire H m =
     (case ph_Device m of None \<Rightarrow> [] | Some d \<Rightarrow> enc_bytes 0x12 (Device_wire H d))"

definition Handshake_wire :: "helpers \<Rightarrow> p_handshake \<Rightarrow> byte list" where
  "Handshake_wire H m =
     enc_string 0xa (ph_Version m) @ Handshake_device_wire H m @ enc_uint 0x18 (ucast (ph_Port m))
     @ ph_unknown m"

definition Handshake_clean :: "p_handshake \<Rightarrow> bool" where
  "Handshake_clean m \<longleftrightarrow> ph_unknown m = [] \<and> (\<forall>d. ph_Device m = Some d \<longrightarrow> pd_unknown d = [])"

lemma Handshake_device_emits:
  assumes "helpers_ok H"
  shows "emits (whenw (ph_Device m \<noteq> None)
      (write_message H 0x12 (Device_MarshalToSizedBufferVT H (ph_Device m)))) (Handshake_device_wire H m)"
proof (cases "ph_Device m")
  case None
  then show ?thesis by (simp add: whenw_def Handshake_device_wire_def emits_Nil del: seqw.simps)
next
  case (Some d)
  with device_codec.nested_emits [OF assms, of "0x12" d] show ?thesis
    by (simp add: whenw_def Handshake_device_wire_def)
qed

lemma Handshake_emits:
  assumes "helpers_ok H"
  shows "marshals (Handshake_MarshalToSizedBufferVT H (Some m)) (Handshake_wire H m)"
proof -
  note f = emits_uint [OF assms] emits_string [OF assms] emits_unknown Handshake_device_emits [OF assms]
  have "Handshake_wire H m = ((([] @ enc_string 0xa (ph_Version m)) @ Handshake_device_wire H m)
      @ enc_uint 0x18 (ucast (ph_Port m))) @ ph_unknown m"
    by (simp add: Handshake_wire_def)
  moreover have "emits (seqw [
     whenw (ph_unknown m \<noteq> []) (copy_back (ph_unknown m)),
     whenw (ph_Port m \<noteq> 0) (seqw [write_varint H (ucast (ph_Port m)), put_byte 0x18]),
     whenw (ph_Device m \<noteq> None)
       (write_message H 0x12 (Device_MarshalToSizedBufferVT H (ph_Device m))),
     whenw (ph_Version m \<noteq> []) (seqw [copy_back (ph_Version m),
       write_varint H (of_nat (length (ph_Version m))), put_byte 0xa])]) \<dots>"
    by (intro emits_Cons emits_Nil f) (simp_all add: narrow)
  ultimately show ?thesis
    using marshals_run by (fastforce simp: marshals_def)
qed

lemma Handshake_size: "helpers_ok H \<Longrightarrow> Handshake_SizeVT H (Some m) = length (Handshake_wire H m)"
  by (cases "ph_Device m")
    (simp_all add: Handshake_wire_def Handshake_device_wire_def length_enc_uint length_enc_string
      length_enc_bytes device_codec.size_wire narrow Let_def del: Device_SizeVT.simps)

lemma Handshake_device_total: "helpers_ok H \<Longrightarrow> length s < 2 ^ 63 \<Longrightarrow> Handshake_device H m s \<noteq> None"
  using device_codec.dec_total [of H s "case ph_Device m of None \<Rightarrow> zero_p_device | Some d \<Rightarrow> d"]
  by (auto simp: Handshake_device_def split: option.splits sum.splits)

lemma Handshake_total:
  assumes "helpers_ok H" and "length d < 2 ^ 63"
  shows "Handshake_UnmarshalVT H m d \<noteq> None"
  unfolding Handshake_UnmarshalVT_def
  by (rule unmarshal_total, unfold total_fields_def Handshake_fields_def)
    (intro allI impI total_intros assms Handshake_device_total,
      use assms in \<open>simp_all add: Handshake_device_total\<close>)

lemma Handshake_cases:
  "Handshake_fields H d m 1 wt i j = bytes_field (str ''Version'') wt d j (\<lambda>s. Some (Inr (m\<lparr>ph_Version := s\<rparr>)))"
  "Handshake_fields H d m 2 wt i j = bytes_field (str ''Device'') wt d j (Handshake_device H m)"
  "Handshake_fields H d m 3 wt i j = varint_field (str ''Port'') wt d j (\<lambda>v. m\<lparr>ph_Port := v\<rparr>)"
  by (simp_all add: Handshake_fields_def)

lemma Handshake_device_decode:
  assumes "helpers_ok H" and "ph_Device m = None" and "pd_unknown d = []" and "length (Device_wire H d) < 2 ^ 63"
  shows "Handshake_device H m (Device_wire H d) = Some (Inr (m\<lparr>ph_Device := Some d\<rparr>))"
  using device_codec.dec_wire [OF assms(1,3,4)] assms(2) by (simp add: Handshake_device_def)

lemma Handshake_decode:
  assumes H: "helpers_ok H" and clean: "Handshake_clean m" and len: "length (Handshake_wire H m) < 2 ^ 63"
  shows "Handshake_UnmarshalVT H zero_p_handshake (Handshake_wire H m) = Some (Inr m)"
proof -
  let ?d = "Handshake_wire H m"
  let ?m1 = "zero_p_handshake\<lparr>ph_Version := ph_Version m\<rparr>"
  let ?m2 = "?m1\<lparr>ph_Device := ph_Device m\<rparr>"
  let ?F = "tagged (str ''Handshake'') ?d (Handshake_fields H ?d)"
  have wire: "?d = enc_string 0xa (ph_Version m) @ Handshake_device_wire H m
      @ enc_uint 0x18 (ucast (ph_Port m)) @ []"
    using clean by (simp add: Handshake_wire_def Handshake_clean_def)
  have port: "decodes ?F ?d ?m2 (enc_uint 0x18 (ucast (ph_Port m)) @ []) m"
    by (rule decodes_uint, rule Handshake_cases, rule tag_oks, simp add: zero_p_handshake_def narrow,
        rule decodes_end) (use clean in \<open>simp add: zero_p_handshake_def narrow Handshake_clean_def\<close>)
  have dev: "decodes ?F ?d ?m1 (Handshake_device_wire H m @ enc_uint 0x18 (ucast (ph_Port m)) @ []) m"
  proof (cases "ph_Device m")
    case None
    with port show ?thesis by (simp add: Handshake_device_wire_def zero_p_handshake_def)
  next
    case (Some d)
    have "length (Device_wire H d) < 2 ^ 63"
      using len Some by (simp add: Handshake_wire_def Handshake_device_wire_def enc_bytes_def)
    then have "Handshake_device H ?m1 (Device_wire H d) = Some (Inr ?m2)"
      using Handshake_device_decode [OF H, of ?m1 d] clean Some
      by (simp add: Handshake_clean_def zero_p_handshake_def)
    from decodes_bytes [where F = "Handshake_fields H ?d" and n = 2, OF Handshake_cases(2) _ len this port]
    show ?thesis
      by (simp add: Handshake_device_wire_def Some tag_oks)
  qed
  have "decodes ?F ?d zero_p_handshake (enc_string 0xa (ph_Version m) @ Handshake_device_wire H m
      @ enc_uint 0x18 (ucast (ph_Port m)) @ []) m"
    by (rule decodes_string, rule Handshake_cases, rule tag_oks, rule len, simp add: zero_p_handshake_def,
        rule dev)
  then have "decodes ?F ?d zero_p_handshake ?d m"
    by (simp only: wire)
  then show ?thesis
    unfolding Handshake_UnmarshalVT_def by (rule unmarshal_decodes)
qed

interpretation handshake_codec: vt_message Handshake_SizeVT Handshake_MarshalToSizedBufferVT
  Handshake_UnmarshalVT Handshake_wire zero_p_handshake Handshake_clean
  by unfold_locales
    (simp_all only: Handshake_size Handshake_emits Handshake_decode Handshake_total not_False_eq_True)

end
