(* ===== verification/PbEvent.thy ===== *)
theory PbEvent
  imports PbHandshake
begin

text \<open>
  The generated codec of \<open>event.proto\<close> (\<open>internal/types/proto/event_vtproto.pb.go\<close>): an event is a
  time stamp and one of four payloads, each a nested message under its own tag. The Go interface
  value of the \<open>oneof\<close> is the datatype \<open>p_payload\<close>.
\<close>

section \<open>HeartbeatPayload\<close>

record p_heartbeat =
  pb_unknown :: "byte list"

fun HeartbeatPayload_MarshalToSizedBufferVT :: "helpers \<Rightarrow> p_heartbeat option \<Rightarrow> marshaler" where
  "HeartbeatPayload_MarshalToSizedBufferVT H None dAtA = Some (Inr (dAtA, 0))"
| "HeartbeatPayload_MarshalToSizedBufferVT H (Some m) dAtA = run_writer (seqw [
     whenw (pb_unknown m \<noteq> []) (copy_back (pb_unknown m))]) dAtA"

fun HeartbeatPayload_SizeVT :: "helpers \<Rightarrow> p_heartbeat option \<Rightarrow> nat" where
  "HeartbeatPayload_SizeVT H None = 0"
| "HeartbeatPayload_SizeVT H (Some m) = length (pb_unknown m)"

definition HeartbeatPayload_MarshalVT :: "helpers \<Rightarrow> p_heartbeat option \<Rightarrow> (wire_error + byte list) option" where
  "HeartbeatPayload_MarshalVT H m =
     vt_Marshal (HeartbeatPayload_SizeVT H m) (HeartbeatPayload_MarshalToSizedBufferVT H m)"

definition HeartbeatPayload_MarshalToVT :: "helpers \<Rightarrow> p_heartbeat option \<Rightarrow> marshaler" where
  "HeartbeatPayload_MarshalToVT H m =
     vt_MarshalTo (HeartbeatPayload_SizeVT H m) (HeartbeatPayload_MarshalToSizedBufferVT H m)"

definition HeartbeatPayload_fields :: "helpers \<Rightarrow> byte list \<Rightarrow> p_heartbeat fields" where
  "HeartbeatPayload_fields H dAtA m fieldNum wireType preIndex iNdEx =
     skip_field H dAtA preIndex (\<lambda>s. m\<lparr>pb_unknown := pb_unknown m @ s\<rparr>)"

definition HeartbeatPayload_UnmarshalVT ::
  "helpers \<Rightarrow> p_heartbeat \<Rightarrow> byte list \<Rightarrow> (wire_error + p_heartbeat) option" where
  "HeartbeatPayload_UnmarshalVT H = unmarshal (str ''HeartbeatPayload'') (HeartbeatPayload_fields H)"

lemma HeartbeatPayload_emits:
  "marshals (HeartbeatPayload_MarshalToSizedBufferVT H (Some m)) (pb_unknown m)"
proof -
  have "emits (seqw [whenw (pb_unknown m \<noteq> []) (copy_back (pb_unknown m))]) ([] @ pb_unknown m)"
    by (intro emits_Cons emits_Nil emits_unknown)
  then show ?thesis
    using marshals_run by (fastforce simp: marshals_def)
qed

lemma HeartbeatPayload_total:
  "helpers_ok H \<Longrightarrow> length d < 2 ^ 63 \<Longrightarrow> HeartbeatPayload_UnmarshalVT H m d \<noteq> None"
  unfolding HeartbeatPayload_UnmarshalVT_def
  by (rule unmarshal_total, unfold total_fields_def HeartbeatPayload_fields_def)
    (intro allI impI total_intros, simp_all)

interpretation heartbeat_codec: vt_message HeartbeatPayload_SizeVT HeartbeatPayload_MarshalToSizedBufferVT
  HeartbeatPayload_UnmarshalVT "\<lambda>H. pb_unknown" "\<lparr>pb_unknown = []\<rparr>" "\<lambda>m. pb_unknown m = []"
proof unfold_locales
  show "HeartbeatPayload_UnmarshalVT H \<lparr>pb_unknown = []\<rparr> (pb_unknown m) = Some (Inr m)"
    if "pb_unknown m = []" for H and m :: p_heartbeat
    using that by (cases m) (simp add: HeartbeatPayload_UnmarshalVT_def unmarshal_def unmarshal_loop.simps)
qed (simp_all add: HeartbeatPayload_emits HeartbeatPayload_total
    del: HeartbeatPayload_MarshalToSizedBufferVT.simps not_None_eq)

section \<open>Event\<close>

datatype p_payload =
    P_Message p_message
  | P_Handshake p_handshake
  | P_Announce p_announce
  | P_Request p_request

record p_event =
  pe_Created :: "timestamp option"
  pe_Payload :: "p_payload option"
  pe_unknown :: "byte list"

definition zero_timestamp :: timestamp where
  "zero_timestamp = \<lparr>ts_Seconds = 0, ts_Nanos = 0\<rparr>"

definition zero_p_event :: p_event where
  "zero_p_event = \<lparr>pe_Created = None, pe_Payload = None, pe_unknown = []\<rparr>"

definition Event_Message_MarshalToSizedBufferVT :: "helpers \<Rightarrow> p_message option \<Rightarrow> marshaler" where
  "Event_Message_MarshalToSizedBufferVT H m =
     run_writer (whenw (m \<noteq> None) (write_message H 0x12 (Message_MarshalToSizedBufferVT H m)))"

definition Event_Handshake_MarshalToSizedBufferVT :: "helpers \<Rightarrow> p_handshake option \<Rightarrow> marshaler" where
  "Event_Handshake_MarshalToSizedBufferVT H m =
     run_writer (whenw (m \<noteq> None) (write_message H 0x1a (Handshake_MarshalToSizedBufferVT H m)))"

definition Event_Announce_MarshalToSizedBufferVT :: "helpers \<Rightarrow> p_announce option \<Rightarrow> marshaler" where
  "Event_Announce_MarshalToSizedBufferVT H m =
     run_writer (whenw (m \<noteq> None) (write_message H 0x22 (Announce_MarshalToSizedBufferVT H m)))"

definition Event_Request_MarshalToSizedBufferVT :: "helpers \<Rightarrow> p_request option \<Rightarrow> marshaler" where
  "Event_Request_MarshalToSizedBufferVT H m =
     run_writer (whenw (m \<noteq> None) (write_message H 0x32 (RequestMessage_MarshalToSizedBufferVT H m)))"

fun payload_MarshalToSizedBufferVT :: "helpers \<Rightarrow> p_payload \<Rightarrow> marshaler" where
  "payload_MarshalToSizedBufferVT H (P_Message m) = Event_Message_MarshalToSizedBufferVT H (Some m)"
| "payload_MarshalToSizedBufferVT H (P_Handshake m) = Event_Handshake_MarshalToSizedBufferVT H (Some m)"
| "payload_MarshalToSizedBufferVT H (P_Announce m) = Event_Announce_MarshalToSizedBufferVT H (Some m)"
| "payload_MarshalToSizedBufferVT H (P_Request m) = Event_Request_MarshalToSizedBufferVT H (Some m)"

fun Event_MarshalToSizedBufferVT :: "helpers \<Rightarrow> p_event option \<Rightarrow> marshaler" where
  "Event_MarshalToSizedBufferVT H None dAtA = Some (Inr (dAtA, 0))"
| "Event_MarshalToSizedBufferVT H (Some m) dAtA = run_writer (seqw [
     whenw (pe_unknown m \<noteq> []) (copy_back (pe_unknown m)),
     (case pe_Payload m of
        None \<Rightarrow> seqw []
      | Some p \<Rightarrow> write_nested (payload_MarshalToSizedBufferVT H p) (\<lambda>_. seqw [])),
     (case pe_Created m of
        None \<Rightarrow> seqw []
      | Some ts \<Rightarrow> write_message H 0xa (TsMarshal H ts))]) dAtA"

definition Event_Message_SizeVT :: "helpers \<Rightarrow> p_message option \<Rightarrow> nat" where
  "Event_Message_SizeVT H m =
     (if m \<noteq> None then (let l = Message_SizeVT H m in 1 + l + SizeOfVarint H (of_nat l)) else 0)"

definition Event_Handshake_SizeVT :: "helpers \<Rightarrow> p_handshake option \<Rightarrow> nat" where
  "Event_Handshake_SizeVT H m =
     (if m \<noteq> None then (let l = Handshake_SizeVT H m in 1 + l + SizeOfVarint H (of_nat l)) else 0)"

definition Event_Announce_SizeVT :: "helpers \<Rightarrow> p_announce option \<Rightarrow> nat" where
  "Event_Announce_SizeVT H m =
     (if m \<noteq> None then (let l = Announce_SizeVT H m in 1 + l + SizeOfVarint H (of_nat l)) else 0)"

definition Event_Request_SizeVT :: "helpers \<Rightarrow> p_request option \<Rightarrow> nat" where
  "Event_Request_SizeVT H m =
     (if m \<noteq> None then (let l = RequestMessage_SizeVT H m in 1 + l + SizeOfVarint H (of_nat l)) else 0)"

fun payload_SizeVT :: "helpers \<Rightarrow> p_payload \<Rightarrow> nat" where
  "payload_SizeVT H (P_Message m) = Event_Message_SizeVT H (Some m)"
| "payload_SizeVT H (P_Handshake m) = Event_Handshake_SizeVT H (Some m)"
| "payload_SizeVT H (P_Announce m) = Event_Announce_SizeVT H (Some m)"
| "payload_SizeVT H (P_Request m) = Event_Request_SizeVT H (Some m)"

fun Event_SizeVT :: "helpers \<Rightarrow> p_event option \<Rightarrow> nat" where
  "Event_SizeVT H None = 0"
| "Event_SizeVT H (Some m) =
     (case pe_Created m of
        None \<Rightarrow> 0
      | Some ts \<Rightarrow> (let l = TsSizeVT H ts in 1 + l + SizeOfVarint H (of_nat l)))
     + (case pe_Payload m of None \<Rightarrow> 0 | Some p \<Rightarrow> payload_SizeVT H p)
     + length (pe_unknown m)"

definition Event_MarshalVT :: "helpers \<Rightarrow> p_event option \<Rightarrow> (wire_error + byte list) option" where
  "Event_MarshalVT H m = vt_Marshal (Event_SizeVT H m) (Event_MarshalToSizedBufferVT H m)"

definition Event_MarshalToVT :: "helpers \<Rightarrow> p_event option \<Rightarrow> marshaler" where
  "Event_MarshalToVT H m = vt_MarshalTo (Event_SizeVT H m) (Event_MarshalToSizedBufferVT H m)"

definition Event_Message_MarshalToVT :: "helpers \<Rightarrow> p_message option \<Rightarrow> marshaler" where
  "Event_Message_MarshalToVT H m = vt_MarshalTo (Event_Message_SizeVT H m) (Event_Message_MarshalToSizedBufferVT H m)"

definition Event_Handshake_MarshalToVT :: "helpers \<Rightarrow> p_handshake option \<Rightarrow> marshaler" where
  "Event_Handshake_MarshalToVT H m = vt_MarshalTo (Event_Handshake_SizeVT H m) (Event_Handshake_MarshalToSizedBufferVT H m)"

definition Event_Announce_MarshalToVT :: "helpers \<Rightarrow> p_announce option \<Rightarrow> marshaler" where
  "Event_Announce_MarshalToVT H m = vt_MarshalTo (Event_Announce_SizeVT H m) (Event_Announce_MarshalToSizedBufferVT H m)"

definition Event_Request_MarshalToVT :: "helpers \<Rightarrow> p_request option \<Rightarrow> marshaler" where
  "Event_Request_MarshalToVT H m = vt_MarshalTo (Event_Request_SizeVT H m) (Event_Request_MarshalToSizedBufferVT H m)"

text \<open>
  Decoding a field: the time stamp merges into the one already there; a payload merges into a
  payload of the same kind and replaces one of another kind.
\<close>

definition Event_created :: "helpers \<Rightarrow> p_event \<Rightarrow> byte list \<Rightarrow> (wire_error + p_event) option" where
  "Event_created H m s =
     (case TsUnmarshal H (case pe_Created m of None \<Rightarrow> zero_timestamp | Some ts \<Rightarrow> ts) s of
        Inl e \<Rightarrow> Some (Inl e)
      | Inr ts \<Rightarrow> Some (Inr (m\<lparr>pe_Created := Some ts\<rparr>)))"

definition Event_message :: "helpers \<Rightarrow> p_event \<Rightarrow> byte list \<Rightarrow> (wire_error + p_event) option" where
  "Event_message H m s =
     (case Message_UnmarshalVT H (case pe_Payload m of Some (P_Message v) \<Rightarrow> v | _ \<Rightarrow> zero_p_message) s of
        None \<Rightarrow> None
      | Some (Inl e) \<Rightarrow> Some (Inl e)
      | Some (Inr v) \<Rightarrow> Some (Inr (m\<lparr>pe_Payload := Some (P_Message v)\<rparr>)))"

definition Event_handshake :: "helpers \<Rightarrow> p_event \<Rightarrow> byte list \<Rightarrow> (wire_error + p_event) option" where
  "Event_handshake H m s =
     (case Handshake_UnmarshalVT H (case pe_Payload m of Some (P_Handshake v) \<Rightarrow> v | _ \<Rightarrow> zero_p_handshake) s of
        None \<Rightarrow> None
      | Some (Inl e) \<Rightarrow> Some (Inl e)
      | Some (Inr v) \<Rightarrow> Some (Inr (m\<lparr>pe_Payload := Some (P_Handshake v)\<rparr>)))"

definition Event_announce :: "helpers \<Rightarrow> p_event \<Rightarrow> byte list \<Rightarrow> (wire_error + p_event) option" where
  "Event_announce H m s =
     (case Announce_UnmarshalVT H (case pe_Payload m of Some (P_Announce v) \<Rightarrow> v | _ \<Rightarrow> zero_p_announce) s of
        None \<Rightarrow> None
      | Some (Inl e) \<Rightarrow> Some (Inl e)
      | Some (Inr v) \<Rightarrow> Some (Inr (m\<lparr>pe_Payload := Some (P_Announce v)\<rparr>)))"

definition Event_request :: "helpers \<Rightarrow> p_event \<Rightarrow> byte list \<Rightarrow> (wire_error + p_event) option" where
  "Event_request H m s =
     (case RequestMessage_UnmarshalVT H (case pe_Payload m of Some (P_Request v) \<Rightarrow> v | _ \<Rightarrow> zero_p_request) s of
        None \<Rightarrow> None
      | Some (Inl e) \<Rightarrow> Some (Inl e)
      | Some (Inr v) \<Rightarrow> Some (Inr (m\<lparr>pe_Payload := Some (P_Request v)\<rparr>)))"

definition Event_fields :: "helpers \<Rightarrow> byte list \<Rightarrow> p_event fields" where
  "Event_fields H dAtA m fieldNum wireType preIndex iNdEx =
     (if fieldNum = 1 then bytes_field (str ''Created'') wireType dAtA iNdEx (Event_created H m)
      else if fieldNum = 2 then bytes_field (str ''Message'') wireType dAtA iNdEx (Event_message H m)
      else if fieldNum = 3 then bytes_field (str ''Handshake'') wireType dAtA iNdEx (Event_handshake H m)
      else if fieldNum = 4 then bytes_field (str ''Announce'') wireType dAtA iNdEx (Event_announce H m)
      else if fieldNum = 6 then bytes_field (str ''Request'') wireType dAtA iNdEx (Event_request H m)
      else skip_field H dAtA preIndex (\<lambda>s. m\<lparr>pe_unknown := pe_unknown m @ s\<rparr>))"

definition Event_UnmarshalVT :: "helpers \<Rightarrow> p_event \<Rightarrow> byte list \<Rightarrow> (wire_error + p_event) option" where
  "Event_UnmarshalVT H = unmarshal (str ''Event'') (Event_fields H)"

section \<open>The contract\<close>

fun payload_wire :: "helpers \<Rightarrow> p_payload \<Rightarrow> byte list" where
  "payload_wire H (P_Message m) = enc_bytes 0x12 (Message_wire H m)"
| "payload_wire H (P_Handshake m) = enc_bytes 0x1a (Handshake_wire H m)"
| "payload_wire H (P_Announce m) = enc_bytes 0x22 (Announce_wire H m)"
| "payload_wire H (P_Request m) = enc_bytes 0x32 (RequestMessage_wire H m)"

definition created_wire :: "helpers \<Rightarrow> p_event \<Rightarrow> byte list" where
  "created_wire H m = (case pe_Created m of None \<Rightarrow> [] | Some ts \<Rightarrow> enc_bytes 0xa (ts_bytes H ts))"

definition payloads_wire :: "helpers \<Rightarrow> p_event \<Rightarrow> byte list" where
  "payloads_wire H m = (case pe_Payload m of None \<Rightarrow> [] | Some p \<Rightarrow> payload_wire H p)"

definition Event_wire :: "helpers \<Rightarrow> p_event \<Rightarrow> byte list" where
  "Event_wire H m = created_wire H m @ payloads_wire H m @ pe_unknown m"

fun payload_clean :: "p_payload \<Rightarrow> bool" where
  "payload_clean (P_Message m) = (pm_unknown m = [])"
| "payload_clean (P_Handshake m) = Handshake_clean m"
| "payload_clean (P_Announce m) = (pa_unknown m = [])"
| "payload_clean (P_Request m) = (pr_unknown m = [])"

definition Event_clean :: "p_event \<Rightarrow> bool" where
  "Event_clean m \<longleftrightarrow> pe_unknown m = [] \<and> (\<forall>p. pe_Payload m = Some p \<longrightarrow> payload_clean p)"

lemmas event_payload_defs =
  Event_Message_MarshalToSizedBufferVT_def Event_Handshake_MarshalToSizedBufferVT_def
  Event_Announce_MarshalToSizedBufferVT_def Event_Request_MarshalToSizedBufferVT_def

lemma payload_emits:
  assumes "helpers_ok H"
  shows "marshals (payload_MarshalToSizedBufferVT H p) (payload_wire H p)"
proof (cases p)
  case (P_Message m)
  with message_codec.nested_emits [OF assms] marshals_run show ?thesis
    by (fastforce simp: event_payload_defs whenw_def)
next
  case (P_Handshake m)
  with handshake_codec.nested_emits [OF assms] marshals_run show ?thesis
    by (fastforce simp: event_payload_defs whenw_def)
next
  case (P_Announce m)
  with announce_codec.nested_emits [OF assms] marshals_run show ?thesis
    by (fastforce simp: event_payload_defs whenw_def)
next
  case (P_Request m)
  with request_codec.nested_emits [OF assms] marshals_run show ?thesis
    by (fastforce simp: event_payload_defs whenw_def)
qed

lemma payload_size:
  "helpers_ok H \<Longrightarrow> payload_SizeVT H p = length (payload_wire H p)"
  by (cases p)
    (simp_all add: Event_Message_SizeVT_def Event_Handshake_SizeVT_def Event_Announce_SizeVT_def
      Event_Request_SizeVT_def message_codec.nested_size handshake_codec.nested_size
      announce_codec.nested_size request_codec.nested_size Let_def
      del: Message_SizeVT.simps Handshake_SizeVT.simps Announce_SizeVT.simps RequestMessage_SizeVT.simps)

lemma ts_contract:
  assumes "helpers_ok H"
  shows "length (ts_bytes H ts) = TsSizeVT H ts" and "marshals (TsMarshal H ts) (ts_bytes H ts)"
    and "TsUnmarshal H zero_timestamp (ts_bytes H ts) = Inr ts"
  using assms by (simp_all add: helpers_ok_def zero_timestamp_def)

lemma created_emits:
  assumes "helpers_ok H"
  shows "emits (case pe_Created m of None \<Rightarrow> seqw [] | Some ts \<Rightarrow> write_message H 0xa (TsMarshal H ts))
    (created_wire H m)"
  using emits_message [OF assms ts_contract(2) [OF assms]] emits_Nil
  by (cases "pe_Created m") (simp_all add: created_wire_def del: seqw.simps)

lemma payloads_emits:
  assumes "helpers_ok H"
  shows "emits (case pe_Payload m of
        None \<Rightarrow> seqw []
      | Some p \<Rightarrow> write_nested (payload_MarshalToSizedBufferVT H p) (\<lambda>_. seqw []))
    (payloads_wire H m)"
proof (cases "pe_Payload m")
  case None
  then show ?thesis by (simp add: payloads_wire_def emits_Nil del: seqw.simps)
next
  case (Some p)
  have "emits (write_nested (payload_MarshalToSizedBufferVT H p) (\<lambda>_. seqw [])) ([] @ payload_wire H p)"
    using payload_emits [OF assms] emits_Nil by (rule emits_nested)
  with Some show ?thesis by (simp add: payloads_wire_def)
qed

lemma Event_emits:
  assumes "helpers_ok H"
  shows "marshals (Event_MarshalToSizedBufferVT H (Some m)) (Event_wire H m)"
proof -
  have "emits (seqw [
     whenw (pe_unknown m \<noteq> []) (copy_back (pe_unknown m)),
     (case pe_Payload m of
        None \<Rightarrow> seqw []
      | Some p \<Rightarrow> write_nested (payload_MarshalToSizedBufferVT H p) (\<lambda>_. seqw [])),
     (case pe_Created m of
        None \<Rightarrow> seqw []
      | Some ts \<Rightarrow> write_message H 0xa (TsMarshal H ts))])
      ((([] @ created_wire H m) @ payloads_wire H m) @ pe_unknown m)"
    by (intro emits_Cons emits_Nil emits_unknown created_emits payloads_emits assms)
  then show ?thesis
    using marshals_run by (fastforce simp: marshals_def Event_wire_def)
qed

lemma Event_size: "helpers_ok H \<Longrightarrow> Event_SizeVT H (Some m) = length (Event_wire H m)"
  by (cases "pe_Created m"; cases "pe_Payload m")
    (simp_all add: Event_wire_def created_wire_def payloads_wire_def payload_size length_enc_bytes
      ts_contract Let_def)

lemma Event_parts_total:
  assumes "helpers_ok H" and "length s < 2 ^ 63"
  shows "Event_created H m s \<noteq> None" "Event_message H m s \<noteq> None" "Event_handshake H m s \<noteq> None"
    "Event_announce H m s \<noteq> None" "Event_request H m s \<noteq> None"
  using message_codec.dec_total [OF assms] handshake_codec.dec_total [OF assms]
    announce_codec.dec_total [OF assms] request_codec.dec_total [OF assms]
  by (simp_all add: Event_created_def Event_message_def Event_handshake_def Event_announce_def
      Event_request_def split: option.split sum.split)

lemma Event_total:
  assumes "helpers_ok H" and "length d < 2 ^ 63"
  shows "Event_UnmarshalVT H m d \<noteq> None"
  unfolding Event_UnmarshalVT_def
  by (rule unmarshal_total, unfold total_fields_def Event_fields_def)
    (intro allI impI total_intros assms Event_parts_total, use assms in simp_all)

lemma Event_cases:
  "Event_fields H d m 1 wt i j = bytes_field (str ''Created'') wt d j (Event_created H m)"
  "Event_fields H d m 2 wt i j = bytes_field (str ''Message'') wt d j (Event_message H m)"
  "Event_fields H d m 3 wt i j = bytes_field (str ''Handshake'') wt d j (Event_handshake H m)"
  "Event_fields H d m 4 wt i j = bytes_field (str ''Announce'') wt d j (Event_announce H m)"
  "Event_fields H d m 6 wt i j = bytes_field (str ''Request'') wt d j (Event_request H m)"
  by (simp_all add: Event_fields_def)

text \<open>One payload field, read into an event without a payload.\<close>

lemma payload_decodes:
  assumes H: "helpers_ok H" and len: "length d < 2 ^ 63" and fits: "length (payload_wire H p) < 2 ^ 63"
    and clean: "payload_clean p" and none: "pe_Payload m = None"
    and rest: "decodes (tagged name d (Event_fields H d)) d (m\<lparr>pe_Payload := Some p\<rparr>) rest r"
  shows "decodes (tagged name d (Event_fields H d)) d m (payload_wire H p @ rest) r"
proof (cases p)
  case (P_Message v)
  then have "Event_message H m (Message_wire H v) = Some (Inr (m\<lparr>pe_Payload := Some p\<rparr>))"
    using message_codec.dec_wire [OF H, of v] clean fits none by (simp add: Event_message_def enc_bytes_def)
  from decodes_bytes [where F = "Event_fields H d" and n = 2, OF Event_cases(2) _ len this rest] show ?thesis
    by (simp add: P_Message tag_oks)
next
  case (P_Handshake v)
  then have "Event_handshake H m (Handshake_wire H v) = Some (Inr (m\<lparr>pe_Payload := Some p\<rparr>))"
    using handshake_codec.dec_wire [OF H, of v] clean fits none by (simp add: Event_handshake_def enc_bytes_def)
  from decodes_bytes [where F = "Event_fields H d" and n = 3, OF Event_cases(3) _ len this rest] show ?thesis
    by (simp add: P_Handshake tag_oks)
next
  case (P_Announce v)
  then have "Event_announce H m (Announce_wire H v) = Some (Inr (m\<lparr>pe_Payload := Some p\<rparr>))"
    using announce_codec.dec_wire [OF H, of v] clean fits none by (simp add: Event_announce_def enc_bytes_def)
  from decodes_bytes [where F = "Event_fields H d" and n = 4, OF Event_cases(4) _ len this rest] show ?thesis
    by (simp add: P_Announce tag_oks)
next
  case (P_Request v)
  then have "Event_request H m (RequestMessage_wire H v) = Some (Inr (m\<lparr>pe_Payload := Some p\<rparr>))"
    using request_codec.dec_wire [OF H, of v] clean fits none by (simp add: Event_request_def enc_bytes_def)
  from decodes_bytes [where F = "Event_fields H d" and n = 6, OF Event_cases(5) _ len this rest] show ?thesis
    by (simp add: P_Request tag_oks)
qed

lemma Event_decode:
  assumes H: "helpers_ok H" and clean: "Event_clean m" and len: "length (Event_wire H m) < 2 ^ 63"
  shows "Event_UnmarshalVT H zero_p_event (Event_wire H m) = Some (Inr m)"
proof -
  let ?d = "Event_wire H m"
  let ?F = "tagged (str ''Event'') ?d (Event_fields H ?d)"
  let ?m1 = "zero_p_event\<lparr>pe_Created := pe_Created m\<rparr>"
  have wire: "?d = created_wire H m @ payloads_wire H m @ []"
    using clean by (simp add: Event_wire_def Event_clean_def)
  have "decodes ?F ?d (?m1\<lparr>pe_Payload := pe_Payload m\<rparr>) [] m"
    by (rule decodes_end) (use clean in \<open>simp add: zero_p_event_def Event_clean_def\<close>)
  then have pay: "decodes ?F ?d ?m1 (payloads_wire H m @ []) m"
  proof (cases "pe_Payload m")
    case (Some p)
    assume "decodes ?F ?d (?m1\<lparr>pe_Payload := pe_Payload m\<rparr>) [] m"
    moreover have "length (payload_wire H p) < 2 ^ 63"
      using len Some by (simp add: Event_wire_def payloads_wire_def)
    ultimately show ?thesis
      using payload_decodes [OF H len, of p ?m1 "str ''Event''" "[]" m] clean Some
      by (simp add: payloads_wire_def Event_clean_def zero_p_event_def)
  qed (simp add: payloads_wire_def zero_p_event_def)
  have "decodes ?F ?d zero_p_event (created_wire H m @ payloads_wire H m @ []) m"
  proof (cases "pe_Created m")
    case None
    with pay show ?thesis by (simp add: created_wire_def zero_p_event_def)
  next
    case (Some ts)
    then have "Event_created H zero_p_event (ts_bytes H ts) = Some (Inr ?m1)"
      using ts_contract(3) [OF H, of ts] by (simp add: Event_created_def zero_p_event_def)
    from decodes_bytes [where F = "Event_fields H ?d" and n = 1, OF Event_cases(1) _ len this pay]
    show ?thesis by (simp add: created_wire_def Some tag_oks)
  qed
  then have "decodes ?F ?d zero_p_event ?d m"
    by (simp only: wire)
  then show ?thesis
    unfolding Event_UnmarshalVT_def by (rule unmarshal_decodes)
qed

interpretation event_codec: vt_message Event_SizeVT Event_MarshalToSizedBufferVT
  Event_UnmarshalVT Event_wire zero_p_event Event_clean
  by unfold_locales (simp_all only: Event_size Event_emits Event_decode Event_total not_False_eq_True)

end
