(* ===== verification/Protocol.thy ===== *)
theory Protocol
  imports PbEvent Domain
begin

text \<open>
  The protocol codec (\<open>internal/protocol\<close>): mapping between domain events and protobuf events, and
  the framed encoding and decoding of events on streams. A Go \<open>any\<close> is an \<open>any_value\<close>; only the four
  event types are supported. \<open>AsTime\<close> is the library conversion of a protobuf time stamp (or of a
  missing one). The pooled protobuf values are reset before use, so they carry nothing over.
\<close>

datatype any_value = AnEvent any_event | OtherValue gostring

datatype protocol_error =
    PDecode frame_error
  | PUnknownEvent
  | PUnsupported gostring
  | PEncode frame_error
  | PWrite frame_error
  | PExpected

type_synonym as_time = "timestamp option \<Rightarrow> gotime"

definition as_time_ok :: "as_time \<Rightarrow> bool" where
  "as_time_ok AsTime \<longleftrightarrow> (\<forall>ts. 0 \<le> sint (ts_Nanos ts) \<longrightarrow> sint (ts_Nanos ts) < 1000000000 \<longrightarrow>
     AsTime (Some ts) = \<lparr>unix_sec = ts_Seconds ts, unix_nsec = ts_Nanos ts\<rparr>)"

section \<open>Mapping\<close>

definition Mime_TEXT :: i32 where "Mime_TEXT = 0"
definition Mime_IMAGE :: i32 where "Mime_IMAGE = 1"
definition Mime_PATH :: i32 where "Mime_PATH = 2"

fun toProtoMime :: "mime_type \<Rightarrow> i32" where
  "toProtoMime TypeText = Mime_TEXT"
| "toProtoMime TypeImage = Mime_IMAGE"
| "toProtoMime TypePath = Mime_PATH"
| "toProtoMime TypeUnknown = Mime_TEXT"
| "toProtoMime TypeAudio = Mime_PATH"
| "toProtoMime TypeVideo = Mime_PATH"
| "toProtoMime TypeBinary = Mime_PATH"

definition toDomainMime :: "i32 \<Rightarrow> mime_type" where
  "toDomainMime p =
     (if p = Mime_TEXT then TypeText
      else if p = Mime_IMAGE then TypeImage
      else if p = Mime_PATH then TypePath
      else TypeText)"

definition setCreated :: "p_event \<Rightarrow> gotime \<Rightarrow> p_event" where
  "setCreated pb t = pb\<lparr>pe_Created := Some \<lparr>ts_Seconds = unix_sec t, ts_Nanos = unix_nsec t\<rparr>\<rparr>"

definition proto_message :: "message \<Rightarrow> p_message" where
  "proto_message m = \<lparr>pm_ID = m_ID m, pm_ContentLength = m_ContentLength m,
     pm_MimeType = toProtoMime (m_MimeType m), pm_ContentHash = m_ContentHash m, pm_Name = m_Name m,
     pm_BatchID = m_BatchID m, pm_BatchTotal = m_BatchTotal m, pm_unknown = []\<rparr>"

definition proto_announce :: "announce \<Rightarrow> p_announce" where
  "proto_announce a = \<lparr>pa_ID = a_ID a, pa_ContentLength = a_ContentLength a,
     pa_MimeType = toProtoMime (a_MimeType a), pa_ContentHash = a_ContentHash a,
     pa_BatchID = a_BatchID a, pa_BatchTotal = a_BatchTotal a, pa_unknown = []\<rparr>"

definition proto_handshake :: "handshake \<Rightarrow> p_handshake" where
  "proto_handshake h = \<lparr>ph_Version = h_Version h,
     ph_Device = Some \<lparr>pd_Name = d_Name (h_MetaData h), pd_Arch = d_Arch (h_MetaData h),
       pd_ID = d_ID (h_MetaData h), pd_unknown = []\<rparr>,
     ph_Port = h_Port h, ph_unknown = []\<rparr>"

fun MapToProto :: "any_value \<Rightarrow> p_event option" where
  "MapToProto (AnEvent (EventMessage e)) =
     Some ((setCreated zero_p_event (Created e))\<lparr>pe_Payload := Some (P_Message (proto_message (Payload e)))\<rparr>)"
| "MapToProto (AnEvent (EventAnnounce e)) =
     Some ((setCreated zero_p_event (Created e))\<lparr>pe_Payload := Some (P_Announce (proto_announce (Payload e)))\<rparr>)"
| "MapToProto (AnEvent (EventRequest e)) =
     Some ((setCreated zero_p_event (Created e))
       \<lparr>pe_Payload := Some (P_Request \<lparr>pr_ID = r_ID (Payload e), pr_unknown = []\<rparr>)\<rparr>)"
| "MapToProto (AnEvent (EventHandshake e)) =
     Some ((setCreated zero_p_event (Created e))\<lparr>pe_Payload := Some (P_Handshake (proto_handshake (Payload e)))\<rparr>)"
| "MapToProto (OtherValue _) = None"

definition toDomainMessage :: "as_time \<Rightarrow> p_event \<Rightarrow> p_message \<Rightarrow> byte list \<Rightarrow> event_message" where
  "toDomainMessage AsTime ev msg dat =
     \<lparr>From = Author (pm_ID msg), Created = AsTime (pe_Created ev),
      Payload = \<lparr>m_ID = pm_ID msg, m_Data = dat, m_MimeType = toDomainMime (pm_MimeType msg),
        m_ContentHash = pm_ContentHash msg, m_ContentLength = pm_ContentLength msg,
        m_Name = pm_Name msg, m_BatchID = pm_BatchID msg, m_BatchTotal = pm_BatchTotal msg\<rparr>\<rparr>"

definition toDomainAnnounce :: "as_time \<Rightarrow> p_event \<Rightarrow> p_announce \<Rightarrow> event_announce" where
  "toDomainAnnounce AsTime ev an =
     \<lparr>From = Author (pa_ID an), Created = AsTime (pe_Created ev),
      Payload = \<lparr>a_ID = pa_ID an, a_MimeType = toDomainMime (pa_MimeType an),
        a_ContentHash = pa_ContentHash an, a_ContentLength = pa_ContentLength an,
        a_BatchID = pa_BatchID an, a_BatchTotal = pa_BatchTotal an\<rparr>\<rparr>"

definition toDomainRequest :: "as_time \<Rightarrow> p_event \<Rightarrow> p_request \<Rightarrow> event_request" where
  "toDomainRequest AsTime ev req =
     \<lparr>From = Author (pr_ID req), Created = AsTime (pe_Created ev), Payload = \<lparr>r_ID = pr_ID req\<rparr>\<rparr>"

definition toDomainDevice :: "p_device option \<Rightarrow> device" where
  "toDomainDevice d =
     (case d of
        None \<Rightarrow> \<lparr>d_ID = 0, d_Name = str ''unknown'', d_Arch = str ''unknown''\<rparr>
      | Some v \<Rightarrow> \<lparr>d_ID = pd_ID v, d_Name = pd_Name v, d_Arch = pd_Arch v\<rparr>)"

definition toDomainHandshake :: "as_time \<Rightarrow> p_event \<Rightarrow> p_handshake \<Rightarrow> event_handshake" where
  "toDomainHandshake AsTime ev hs =
     \<lparr>From = 0, Created = AsTime (pe_Created ev),
      Payload = \<lparr>h_Version = ph_Version hs, h_MetaData = toDomainDevice (ph_Device hs), h_Port = ph_Port hs\<rparr>\<rparr>"

section \<open>Codec\<close>

definition DecodeEvent :: "helpers \<Rightarrow> as_time \<Rightarrow> reader \<Rightarrow> ((protocol_error + any_event) \<times> reader) option" where
  "DecodeEvent H AsTime r =
     (case DecodeReader (Event_UnmarshalVT H zero_p_event) r of
        None \<Rightarrow> None
      | Some (Inl e, r') \<Rightarrow> Some (Inl (PDecode e), r')
      | Some (Inr pb, r') \<Rightarrow>
          Some (case pe_Payload pb of
              Some (P_Message p) \<Rightarrow> Inr (EventMessage (toDomainMessage AsTime pb p []))
            | Some (P_Announce p) \<Rightarrow> Inr (EventAnnounce (toDomainAnnounce AsTime pb p))
            | Some (P_Request p) \<Rightarrow> Inr (EventRequest (toDomainRequest AsTime pb p))
            | Some (P_Handshake p) \<Rightarrow> Inr (EventHandshake (toDomainHandshake AsTime pb p))
            | None \<Rightarrow> Inl PUnknownEvent, r'))"

definition type_name :: "any_value \<Rightarrow> gostring" where
  "type_name v = (case v of OtherValue n \<Rightarrow> n | AnEvent _ \<Rightarrow> str ''Event'')"

definition Encode :: "helpers \<Rightarrow> any_value \<Rightarrow> (protocol_error + byte list) option" where
  "Encode H v =
     (case MapToProto v of
        None \<Rightarrow> Some (Inl (PUnsupported (type_name v)))
      | Some pb \<Rightarrow>
          (case EncodeBytes (Event_SizeVT H (Some pb)) (Event_MarshalToSizedBufferVT H (Some pb)) of
             None \<Rightarrow> None
           | Some (Inl e) \<Rightarrow> Some (Inl (PEncode e))
           | Some (Inr b) \<Rightarrow> Some (Inr b)))"

text \<open>\<open>MustEncode\<close> panics on an error.\<close>

definition MustEncode :: "helpers \<Rightarrow> any_value \<Rightarrow> byte list option" where
  "MustEncode H v = (case Encode H v of Some (Inr b) \<Rightarrow> Some b | _ \<Rightarrow> None)"

text \<open>\<open>DecodeExpect[T]\<close>: \<open>as_T\<close> is the type assertion to \<open>T\<close>.\<close>

definition DecodeExpect ::
  "(any_event \<Rightarrow> 'e option) \<Rightarrow> helpers \<Rightarrow> as_time \<Rightarrow> reader \<Rightarrow> ((protocol_error + 'e) \<times> reader) option" where
  "DecodeExpect as_T H AsTime r =
     (case DecodeEvent H AsTime r of
        None \<Rightarrow> None
      | Some (Inl e, r') \<Rightarrow> Some (Inl e, r')
      | Some (Inr ev, r') \<Rightarrow> Some (case as_T ev of None \<Rightarrow> Inl PExpected | Some typed \<Rightarrow> Inr typed, r'))"

definition WriteEvent ::
  "helpers \<Rightarrow> ('w \<Rightarrow> byte list \<Rightarrow> io_error option \<times> 'w) \<Rightarrow> 'w \<Rightarrow> byte list \<Rightarrow> any_value
   \<Rightarrow> (protocol_error option \<times> 'w \<times> byte list) option" where
  "WriteEvent H put w old v =
     (case MapToProto v of
        None \<Rightarrow> Some (Some (PUnsupported (type_name v)), w, old)
      | Some pb \<Rightarrow>
          (case EncodeToWriter put w old (Event_SizeVT H (Some pb)) (Event_MarshalToSizedBufferVT H (Some pb)) of
             None \<Rightarrow> None
           | Some (err, w', arr) \<Rightarrow> Some (map_option PWrite err, w', arr)))"

fun as_message :: "any_event \<Rightarrow> event_message option" where
  "as_message (EventMessage e) = Some e"
| "as_message _ = None"

fun as_handshake :: "any_event \<Rightarrow> event_handshake option" where
  "as_handshake (EventHandshake e) = Some e"
| "as_handshake _ = None"

fun as_request :: "any_event \<Rightarrow> event_request option" where
  "as_request (EventRequest e) = Some e"
| "as_request _ = None"

fun as_announce :: "any_event \<Rightarrow> event_announce option" where
  "as_announce (EventAnnounce e) = Some e"
| "as_announce _ = None"

section \<open>What survives the wire\<close>

text \<open>
  The receiver's view of an event: payload bytes travel outside the event, the content type is
  reduced to the three the wire knows, and the sender is recomputed from the identifier (a
  handshake has none).
\<close>

definition received_mime :: "mime_type \<Rightarrow> mime_type" where
  "received_mime t =
     (case t of TypeText \<Rightarrow> TypeText | TypeUnknown \<Rightarrow> TypeText | TypeImage \<Rightarrow> TypeImage | _ \<Rightarrow> TypePath)"

fun received :: "any_event \<Rightarrow> any_event" where
  "received (EventMessage e) = EventMessage (e\<lparr>From := Author (m_ID (Payload e)),
     Payload := (Payload e)\<lparr>m_Data := [], m_MimeType := received_mime (m_MimeType (Payload e))\<rparr>\<rparr>)"
| "received (EventAnnounce e) = EventAnnounce (e\<lparr>From := Author (a_ID (Payload e)),
     Payload := (Payload e)\<lparr>a_MimeType := received_mime (a_MimeType (Payload e))\<rparr>\<rparr>)"
| "received (EventRequest e) = EventRequest (e\<lparr>From := Author (r_ID (Payload e))\<rparr>)"
| "received (EventHandshake e) = EventHandshake (e\<lparr>From := 0\<rparr>)"

fun created :: "any_event \<Rightarrow> gotime" where
  "created (EventMessage e) = Created e"
| "created (EventAnnounce e) = Created e"
| "created (EventRequest e) = Created e"
| "created (EventHandshake e) = Created e"

definition time_ok :: "gotime \<Rightarrow> bool" where
  "time_ok t \<longleftrightarrow> 0 \<le> sint (unix_nsec t) \<and> sint (unix_nsec t) < 1000000000"

definition the_proto :: "any_event \<Rightarrow> p_event" where
  "the_proto ev = the (MapToProto (AnEvent ev))"

definition event_wire :: "helpers \<Rightarrow> any_event \<Rightarrow> byte list" where
  "event_wire H ev = frame (Event_wire H (the_proto ev))"

text \<open>An event that can be framed: a time in Go's range and less than 4 GiB.\<close>

definition sendable :: "helpers \<Rightarrow> any_event \<Rightarrow> bool" where
  "sendable H ev \<longleftrightarrow> time_ok (created ev) \<and> Event_SizeVT H (Some (the_proto ev)) < 2 ^ 32"

lemma MapToProto_some: "MapToProto (AnEvent ev) = Some (the_proto ev)"
  by (cases ev) (simp_all add: the_proto_def)

lemma the_proto_clean: "Event_clean (the_proto ev)"
  by (cases ev)
    (simp_all add: the_proto_def Event_clean_def setCreated_def zero_p_event_def proto_message_def
      proto_announce_def proto_handshake_def Handshake_clean_def)

lemma toDomain_toProto_mime: "toDomainMime (toProtoMime t) = received_mime t"
  by (cases t) (simp_all add: toDomainMime_def received_mime_def Mime_TEXT_def Mime_IMAGE_def Mime_PATH_def)

lemma Encode_event: "helpers_ok H \<Longrightarrow> Encode H (AnEvent ev) = Some (Inr (event_wire H ev))"
  by (simp add: Encode_def MapToProto_some event_codec.encode_bytes event_wire_def
      del: Event_SizeVT.simps Event_MarshalToSizedBufferVT.simps)

lemma payload_received:
  assumes "as_time_ok A" and "time_ok (created ev)"
  shows "(case pe_Payload (the_proto ev) of
              Some (P_Message p) \<Rightarrow> Inr (EventMessage (toDomainMessage A (the_proto ev) p []))
            | Some (P_Announce p) \<Rightarrow> Inr (EventAnnounce (toDomainAnnounce A (the_proto ev) p))
            | Some (P_Request p) \<Rightarrow> Inr (EventRequest (toDomainRequest A (the_proto ev) p))
            | Some (P_Handshake p) \<Rightarrow> Inr (EventHandshake (toDomainHandshake A (the_proto ev) p))
            | None \<Rightarrow> Inl PUnknownEvent) = Inr (received ev)"
proof -
  have t: "A (Some \<lparr>ts_Seconds = unix_sec (created ev), ts_Nanos = unix_nsec (created ev)\<rparr>) = created ev"
    using assms by (simp add: as_time_ok_def time_ok_def)
  show ?thesis
  proof (cases ev)
    case (EventMessage e)
    with t show ?thesis
      by (cases e) (simp add: the_proto_def setCreated_def proto_message_def toDomainMessage_def toDomain_toProto_mime)
  next
    case (EventAnnounce e)
    with t show ?thesis
      by (cases e) (simp add: the_proto_def setCreated_def proto_announce_def toDomainAnnounce_def toDomain_toProto_mime)
  next
    case (EventRequest e)
    with t show ?thesis
      by (cases e) (simp add: the_proto_def setCreated_def toDomainRequest_def)
  next
    case (EventHandshake e)
    with t show ?thesis
      by (cases e) (simp add: the_proto_def setCreated_def proto_handshake_def toDomainHandshake_def toDomainDevice_def)
  qed
qed

lemma DecodeEvent_wire:
  assumes "helpers_ok H" and "as_time_ok A" and "sendable H ev"
  shows "DecodeEvent H A \<lparr>r_bytes = event_wire H ev @ rest, r_err = e\<rparr>
    = Some (Inr (received ev), \<lparr>r_bytes = rest, r_err = e\<rparr>)"
proof -
  have "DecodeReader (Event_UnmarshalVT H zero_p_event) \<lparr>r_bytes = event_wire H ev @ rest, r_err = e\<rparr>
      = Some (Inr (the_proto ev), \<lparr>r_bytes = rest, r_err = e\<rparr>)"
    unfolding event_wire_def
    using assms
    by (intro event_codec.decode_frame the_proto_clean)
      (simp_all add: sendable_def Event_size del: Event_SizeVT.simps)
  with payload_received [OF assms(2), of ev] assms(3) show ?thesis
    by (simp add: DecodeEvent_def sendable_def)
qed

text \<open>Reading events until the stream ends.\<close>

fun decode_events :: "nat \<Rightarrow> helpers \<Rightarrow> as_time \<Rightarrow> reader \<Rightarrow> ((protocol_error + any_event) list \<times> reader) option" where
  "decode_events 0 H A r = Some ([], r)"
| "decode_events (Suc n) H A r =
     (case DecodeEvent H A r of
        None \<Rightarrow> None
      | Some (x, r') \<Rightarrow>
          (case decode_events n H A r' of None \<Rightarrow> None | Some (xs, r'') \<Rightarrow> Some (x # xs, r'')))"

lemma decode_events_wire:
  assumes "helpers_ok H" and "as_time_ok A" and "\<forall>ev \<in> set evs. sendable H ev"
  shows "decode_events (length evs) H A \<lparr>r_bytes = concat (map (event_wire H) evs) @ rest, r_err = e\<rparr>
    = Some (map (Inr \<circ> received) evs, \<lparr>r_bytes = rest, r_err = e\<rparr>)"
  using assms(3)
proof (induction evs)
  case (Cons ev evs)
  then show ?case
    using DecodeEvent_wire [OF assms(1,2), of ev "concat (map (event_wire H) evs) @ rest" e] by simp
qed simp

lemma DecodeEvent_returns: "helpers_ok H \<Longrightarrow> DecodeEvent H A r \<noteq> None"
  using event_codec.decode_total [of H zero_p_event r]
  by (auto simp: DecodeEvent_def split: option.split sum.split prod.splits)

lemma write_wire:
  assumes "helpers_ok H"
  shows "\<exists>arr. WriteEvent H put w old (AnEvent ev) = Some (map_option (PWrite \<circ> FIo) (fst (put w (event_wire H ev))),
    snd (put w (event_wire H ev)), arr)"
proof -
  obtain arr where "EncodeToWriter put w old (Event_SizeVT H (Some (the_proto ev)))
      (Event_MarshalToSizedBufferVT H (Some (the_proto ev)))
    = Some (map_option FIo (fst (put w (event_wire H ev))), snd (put w (event_wire H ev)), arr)"
    using event_codec.encode_to_writer [OF assms, of put w old "the_proto ev"]
    unfolding event_wire_def by blast
  then show ?thesis
    by (simp add: WriteEvent_def MapToProto_some option.map_comp
        del: Event_SizeVT.simps Event_MarshalToSizedBufferVT.simps)
qed

section \<open>Properties\<close>

text \<open>C13. Encoding an event and decoding it from a stream gives the receiver's view of it: every
  identifier, hash, length, name, batch field, time, version, port and device is kept, the sender
  is the author recorded in the identifier, and the content type is the one the wire can carry.
  Exactly the frame is consumed, whatever follows it in the stream.\<close>

theorem protocol_roundtrip:
  assumes "helpers_ok H" and "as_time_ok A" and "sendable H ev"
  shows "\<exists>b. Encode H (AnEvent ev) = Some (Inr b)
    \<and> DecodeEvent H A \<lparr>r_bytes = b @ rest, r_err = e\<rparr> = Some (Inr (received ev), \<lparr>r_bytes = rest, r_err = e\<rparr>)"
  using Encode_event [OF assms(1)] DecodeEvent_wire [OF assms] by blast

definition sample_time :: gotime where
  "sample_time = \<lparr>unix_sec = 1700000000, unix_nsec = 999999999\<rparr>"

definition sample_message :: any_event where
  "sample_message = EventMessage \<lparr>From = 0, Created = sample_time,
     Payload = \<lparr>m_ID = 0x3FF000, m_Data = [1, 2], m_MimeType = TypeVideo, m_ContentHash = 7,
       m_ContentLength = 2, m_Name = str ''a'', m_BatchID = 0, m_BatchTotal = 0\<rparr>\<rparr>"

definition sample_request :: any_event where
  "sample_request = EventRequest \<lparr>From = 3, Created = sample_time, Payload = \<lparr>r_ID = - 1\<rparr>\<rparr>"

definition ref_AsTime :: as_time where
  "ref_AsTime ts = (case ts of
       None \<Rightarrow> \<lparr>unix_sec = 0, unix_nsec = 0\<rparr>
     | Some t \<Rightarrow> \<lparr>unix_sec = ts_Seconds t, unix_nsec = ts_Nanos t\<rparr>)"

lemma ref_AsTime_ok: "as_time_ok ref_AsTime"
  by (simp add: as_time_ok_def ref_AsTime_def)

lemma sample_sizes:
  "Event_SizeVT ref_helpers (Some (the_proto sample_message)) = 30"
  "Event_SizeVT ref_helpers (Some (the_proto sample_request)) = 27"
  by code_simp+

lemma sample_message_sendable: "sendable ref_helpers sample_message"
  unfolding sendable_def sample_sizes by (simp add: time_ok_def sample_message_def sample_time_def)

lemma sample_request_sendable: "sendable ref_helpers sample_request"
  unfolding sendable_def sample_sizes by (simp add: time_ok_def sample_request_def sample_time_def)

theorem protocol_roundtrip_witness:
  "\<exists>b. Encode ref_helpers (AnEvent sample_message) = Some (Inr b)
    \<and> DecodeEvent ref_helpers ref_AsTime \<lparr>r_bytes = b @ [9], r_err = EOF\<rparr>
      = Some (Inr (EventMessage \<lparr>From = 0x3FF, Created = sample_time,
          Payload = \<lparr>m_ID = 0x3FF000, m_Data = [], m_MimeType = TypePath, m_ContentHash = 7,
            m_ContentLength = 2, m_Name = str ''a'', m_BatchID = 0, m_BatchTotal = 0\<rparr>\<rparr>),
        \<lparr>r_bytes = [9], r_err = EOF\<rparr>)"
proof -
  have "received sample_message = EventMessage \<lparr>From = 0x3FF, Created = sample_time,
          Payload = \<lparr>m_ID = 0x3FF000, m_Data = [], m_MimeType = TypePath, m_ContentHash = 7,
            m_ContentLength = 2, m_Name = str ''a'', m_BatchID = 0, m_BatchTotal = 0\<rparr>\<rparr>"
    by code_simp
  with protocol_roundtrip [OF ref_helpers_ok ref_AsTime_ok sample_message_sendable, of "[9]" EOF]
  show ?thesis by simp
qed

text \<open>Frames are self-delimiting: a stream of encoded events is decoded into exactly those events,
  in order, and whatever follows them is left in the stream.\<close>

theorem protocol_stream:
  assumes "helpers_ok H" and "as_time_ok A" and "\<forall>ev \<in> set evs. sendable H ev"
  shows "decode_events (length evs) H A
      \<lparr>r_bytes = concat (map (\<lambda>ev. the (MustEncode H (AnEvent ev))) evs) @ rest, r_err = e\<rparr>
    = Some (map (Inr \<circ> received) evs, \<lparr>r_bytes = rest, r_err = e\<rparr>)"
  using decode_events_wire [OF assms, of rest e] by (simp add: MustEncode_def Encode_event [OF assms(1)])

theorem protocol_stream_witness:
  "decode_events 2 ref_helpers ref_AsTime
      \<lparr>r_bytes = concat (map (\<lambda>ev. the (MustEncode ref_helpers (AnEvent ev))) [sample_request, sample_message]),
       r_err = EOF\<rparr>
    = Some ([Inr (received sample_request), Inr (received sample_message)], \<lparr>r_bytes = [], r_err = EOF\<rparr>)"
  using protocol_stream [OF ref_helpers_ok ref_AsTime_ok, of "[sample_request, sample_message]" "[]" EOF]
    sample_message_sendable sample_request_sendable
  by (simp add: numeral_2_eq_2 del: decode_events.simps)

text \<open>C14. Decoding an event returns on every stream, whatever a peer sends: it gives an event or an
  error, and never panics with an index out of range, overflows a length computation or loops.\<close>

theorem protocol_decode_returns:
  assumes "helpers_ok H"
  shows "\<exists>x r'. DecodeEvent H A r = Some (x, r')"
  using DecodeEvent_returns [OF assms, of A r] by auto

theorem protocol_decode_returns_witness:
  "\<exists>x r'. DecodeEvent ref_helpers ref_AsTime
     \<lparr>r_bytes = [0, 0, 0, 12, 0x12, 0xff, 0xff, 0xff, 0xff, 0xff, 0xff, 0xff, 0xff, 0x7f, 0, 0], r_err = EOF\<rparr> = Some (x, r')"
  by (rule protocol_decode_returns [OF ref_helpers_ok])

text \<open>C15. Writing an event sends the bytes \<open>Encode\<close> produces in one write, whatever the pooled
  buffer held before, and reports exactly the writer's error; a value of another type is refused
  before anything is written.\<close>

theorem write_event_is_encode:
  assumes "helpers_ok H" and "Encode H v = Some r"
  shows "\<exists>arr. WriteEvent H put w old v = Some
    (case r of
       Inl err \<Rightarrow> (Some err, w, old)
     | Inr b \<Rightarrow> (map_option (PWrite \<circ> FIo) (fst (put w b)), snd (put w b), arr))"
proof (cases v)
  case (OtherValue n)
  with assms(2) show ?thesis by (auto simp: Encode_def WriteEvent_def)
next
  case (AnEvent ev)
  have r: "r = Inr (event_wire H ev)"
    using assms(2) AnEvent Encode_event [OF assms(1), of ev] by simp
  show ?thesis
    using write_wire [OF assms(1), of put w old ev] unfolding AnEvent r by simp
qed

theorem write_event_is_encode_witness:
  "\<exists>arr. WriteEvent ref_helpers (\<lambda>w b. (None, w @ b)) [] [1, 2, 3, 4, 5, 6, 7, 8, 9] (AnEvent sample_request)
     = Some (None, event_wire ref_helpers sample_request, arr)"
  using write_event_is_encode [OF ref_helpers_ok Encode_event [OF ref_helpers_ok, of sample_request],
      of "\<lambda>w b. (None, w @ b)" "[]" "[1, 2, 3, 4, 5, 6, 7, 8, 9]"]
  by simp

text \<open>The generated event codec allocates exactly the buffer it fills and decodes what it
  encoded, for every event built from known fields.\<close>

theorem event_codec_exact:
  assumes "helpers_ok H" and "Event_clean m" and "Event_SizeVT H (Some m) < 2 ^ 63"
  shows "\<exists>bs. Event_MarshalVT H (Some m) = Some (Inr bs) \<and> length bs = Event_SizeVT H (Some m)
    \<and> Event_UnmarshalVT H zero_p_event bs = Some (Inr m)"
proof -
  have "Event_MarshalVT H (Some m) = Some (Inr (Event_wire H m))"
    unfolding Event_MarshalVT_def by (rule event_codec.marshal_exact [OF assms(1)])
  moreover have "Event_SizeVT H (Some m) = length (Event_wire H m)"
    by (rule Event_size [OF assms(1)])
  ultimately show ?thesis
    using event_codec.dec_wire [OF assms(1,2)] assms(3) by simp
qed

theorem event_codec_exact_witness:
  "\<exists>bs. Event_MarshalVT ref_helpers (Some (the_proto sample_message)) = Some (Inr bs)
     \<and> Event_UnmarshalVT ref_helpers zero_p_event bs = Some (Inr (the_proto sample_message))"
proof -
  have "Event_SizeVT ref_helpers (Some (the_proto sample_message)) < 2 ^ 63"
    using sample_message_sendable by (simp add: sendable_def del: Event_SizeVT.simps)
  from event_codec_exact [OF ref_helpers_ok the_proto_clean this] show ?thesis by blast
qed

end
