(* ===== verification/Uri.thy ===== *)
theory Uri
  imports GoLib
begin

text \<open>
  URI lists (\<open>pkg/rfc8089/uri_list.go\<close>): a list of paths, one per line, becomes the lines of a
  \<open>text/uri-list\<close>. Nothing is percent-encoded.
\<close>

definition fileSchemePrefix :: gostring where
  "fileSchemePrefix = str ''file://''"

definition crlf :: gostring where
  "crlf = [13, 10]"

definition format_line :: "gostring \<Rightarrow> gostring option" where
  "format_line line0 =
     (let line = trim_space line0 in
      if line = [] then None
      else if \<not> has_prefix line fileSchemePrefix then Some (fileSchemePrefix @ line)
      else Some line)"

definition FormatURIList :: "byte list \<Rightarrow> byte list" where
  "FormatURIList src =
     (if src = [] then []
      else join_with crlf (List.map_filter format_line (split_on 10 src)))"

section \<open>Lemmas\<close>

text \<open>A path that survives a line of the list as it is.\<close>

definition line_path :: "gostring \<Rightarrow> bool" where
  "line_path p \<longleftrightarrow> p \<noteq> [] \<and> 10 \<notin> set p \<and> \<not> has_prefix p fileSchemePrefix
     \<and> (\<forall>w \<in> set spaces. \<not> has_prefix p w \<and> \<not> has_prefix (rev p) (rev w))"

lemma trim_front_id: "\<forall>w \<in> set ws. \<not> has_prefix s w \<Longrightarrow> trim_front n ws s = s"
proof (cases n)
  case (Suc k)
  assume "\<forall>w \<in> set ws. \<not> has_prefix s w"
  then have "find (has_prefix s) ws = None" by (simp add: find_None_iff)
  with Suc show ?thesis by simp
qed simp

lemma trim_space_id:
  assumes "\<forall>w \<in> set spaces. \<not> has_prefix s w \<and> \<not> has_prefix (rev s) (rev w)"
  shows "trim_space s = s"
proof -
  have "trim_left_space s = s" unfolding trim_left_space_def using assms by (intro trim_front_id) auto
  moreover have "trim_right_space s = s"
    unfolding trim_right_space_def using assms by (subst trim_front_id) auto
  ultimately show ?thesis by (simp add: trim_space_def)
qed

lemma format_line_path: "line_path p \<Longrightarrow> format_line p = Some (fileSchemePrefix @ p)"
  by (simp add: format_line_def line_path_def trim_space_id)

lemma format_lines: "\<forall>p \<in> set ps. line_path p \<Longrightarrow> List.map_filter format_line ps = map (\<lambda>p. fileSchemePrefix @ p) ps"
  by (induction ps) (simp_all add: List.map_filter_def format_line_path)

lemma join_nonempty: "ps \<noteq> [] \<Longrightarrow> \<forall>p \<in> set ps. p \<noteq> [] \<Longrightarrow> join_with sep ps \<noteq> []"
  by (cases ps; cases "tl ps") auto

lemma FormatURIList_paths:
  assumes "ps \<noteq> []" and "\<forall>p \<in> set ps. line_path p"
  shows "FormatURIList (join_with [10] ps) = join_with crlf (map (\<lambda>p. fileSchemePrefix @ p) ps)"
proof -
  have "split_on 10 (join_with [10] ps) = ps"
    using assms by (intro split_join) (auto simp: line_path_def)
  moreover have "join_with [10] ps \<noteq> []"
    using assms by (intro join_nonempty) (auto simp: line_path_def)
  ultimately show ?thesis
    using assms(2) by (simp add: FormatURIList_def format_lines)
qed

end
