(* ===== verification/Eventful.thy ===== *)
theory Eventful
  imports Uri Mime
begin

text \<open>
  What the clipboard back ends share (\<open>pkg/clipboard/eventful\<close>): updates, the suppression of
  repeated contents, and the updates of a list of copied files. The hash is third-party:
  \<open>xxhash\<close> is its 64-bit sum of a byte string and \<open>xxsum\<close> the same as the bytes \<open>Sum\<close> appends.
  \<open>lstat\<close> is the file system: whether a path is a directory, its size and its modification time.
\<close>

record update =
  u_Data :: "byte list"
  u_Size :: u64
  u_MimeType :: mime_type
  u_Hash :: u64
  u_BatchID :: u64
  u_BatchTotal :: u32

record clip_options =
  AllowCopyFiles :: bool
  MaxFileSize :: u64
  MaxClipboardFiles :: int

section \<open>Deduplicator\<close>

record deduplicator =
  lastHash :: u64

definition dedup_Hash :: "(byte list \<Rightarrow> u64) \<Rightarrow> byte list \<Rightarrow> u64" where
  "dedup_Hash xxhash dat = xxhash dat"

definition dedup_Check ::
  "(byte list \<Rightarrow> u64) \<Rightarrow> deduplicator \<Rightarrow> byte list \<Rightarrow> (u64 \<times> bool) \<times> deduplicator" where
  "dedup_Check xxhash d dat =
     (let h = dedup_Hash xxhash dat in
      if h = lastHash d then ((h, False), d) else ((h, True), d\<lparr>lastHash := h\<rparr>))"

definition dedup_Mark :: "(byte list \<Rightarrow> u64) \<Rightarrow> deduplicator \<Rightarrow> byte list \<Rightarrow> deduplicator" where
  "dedup_Mark xxhash d dat = d\<lparr>lastHash := dedup_Hash xxhash dat\<rparr>"

section \<open>Copied files\<close>

record file_info =
  Path :: gostring
  Size :: u64
  ModTime :: u64

definition le64 :: "u64 \<Rightarrow> byte list" where
  "le64 w = map (\<lambda>k. ucast (drop_bit (8 * k) w)) [0 ..< 8]"

definition file_key :: "file_info \<Rightarrow> byte list" where
  "file_key f = Path f @ le64 (Size f) @ le64 (ModTime f)"

definition UpdatesFromFileInfo ::
  "(byte list \<Rightarrow> u64) \<Rightarrow> (byte list \<Rightarrow> byte list) \<Rightarrow> file_info list \<Rightarrow> update list \<times> byte list" where
  "UpdatesFromFileInfo xxhash xxsum files =
     (let buf = concat (map file_key files);
          batchID = xxhash buf AND 0x7FFFFFFFFFFFFFFF;
          batchTotal = of_nat (length files)
      in (map (\<lambda>f. \<lparr>u_Data = Path f, u_Size = Size f, u_MimeType = TypePath,
                u_Hash = xxhash (file_key f), u_BatchID = batchID, u_BatchTotal = batchTotal\<rparr>) files,
          xxsum buf))"

definition nextLine :: "byte list \<Rightarrow> byte list \<times> byte list" where
  "nextLine dat =
     (let (line, rest) = cut dat 10
      in (if line \<noteq> [] \<and> last line = 13 then butlast line else line, rest))"

text \<open>\<open>url.PathUnescape\<close>: \<open>%\<close> and two hexadecimal digits; anything else after \<open>%\<close> is an error.\<close>

definition hex_value :: "byte \<Rightarrow> byte option" where
  "hex_value c =
     (if 48 \<le> c \<and> c \<le> 57 then Some (c - 48)
      else if 97 \<le> c \<and> c \<le> 102 then Some (c - 87)
      else if 65 \<le> c \<and> c \<le> 70 then Some (c - 55)
      else None)"

fun path_unescape :: "gostring \<Rightarrow> gostring option" where
  "path_unescape [] = Some []"
| "path_unescape (c # cs) =
     (if c = 37 then
        (case cs of
           h # l # rest \<Rightarrow>
             (case (hex_value h, hex_value l) of
                (Some hv, Some lv) \<Rightarrow> map_option (\<lambda>r. (16 * hv + lv) # r) (path_unescape rest)
              | _ \<Rightarrow> None)
         | _ \<Rightarrow> None)
      else map_option (\<lambda>r. c # r) (path_unescape cs))"

type_synonym lstat = "gostring \<Rightarrow> (bool \<times> u64 \<times> u64) option"

definition parseFileURI :: "lstat \<Rightarrow> byte list \<Rightarrow> file_info option" where
  "parseFileURI lstat line =
     (if line = [] \<or> \<not> has_prefix line (str ''file://'') then None
      else
        (let pathBytes = drop 7 line;
             path = (if 0 \<le> index_byte pathBytes 37
                     then (case path_unescape pathBytes of None \<Rightarrow> pathBytes | Some u \<Rightarrow> u)
                     else pathBytes)
         in case lstat path of
              None \<Rightarrow> None
            | Some (isDir, sz, mtime) \<Rightarrow>
                if isDir then None else Some \<lparr>Path = path, Size = sz, ModTime = mtime\<rparr>))"

lemma nextLine_shorter: "dat \<noteq> [] \<Longrightarrow> length (snd (nextLine dat)) < length dat"
  using cut_rest_shorter [of dat 10] by (simp add: nextLine_def case_prod_beta)

function raw_loop :: "lstat \<Rightarrow> int \<Rightarrow> file_info list \<Rightarrow> byte list \<Rightarrow> file_info list" where
  "raw_loop lstat limit res dat =
     (if dat = [] \<or> 0 < limit \<and> limit \<le> int (length res) then res
      else
        (case parseFileURI lstat (fst (nextLine dat)) of
           None \<Rightarrow> raw_loop lstat limit res (snd (nextLine dat))
         | Some info \<Rightarrow> raw_loop lstat limit (res @ [info]) (snd (nextLine dat))))"
  by auto
termination
  by (relation "measure (\<lambda>(_, _, _, dat). length dat)") (auto simp: nextLine_shorter)

declare raw_loop.simps [simp del]

definition fileInfoFromRaw :: "lstat \<Rightarrow> byte list \<Rightarrow> int \<Rightarrow> file_info list" where
  "fileInfoFromRaw lstat dat limit = raw_loop lstat limit [] dat"

definition UpdatesFromRawPath ::
  "(byte list \<Rightarrow> u64) \<Rightarrow> (byte list \<Rightarrow> byte list) \<Rightarrow> lstat \<Rightarrow> byte list \<Rightarrow> int \<Rightarrow> update list \<times> byte list" where
  "UpdatesFromRawPath xxhash xxsum lstat dat limit =
     (let raw = fileInfoFromRaw lstat dat limit
      in if raw = [] then ([], []) else UpdatesFromFileInfo xxhash xxsum raw)"

section \<open>Lemmas\<close>

lemma raw_loop_limit: "0 < limit \<Longrightarrow> int (length res) \<le> limit \<Longrightarrow> int (length (raw_loop lstat limit res dat)) \<le> limit"
proof (induction lstat limit res dat rule: raw_loop.induct)
  case (1 lstat limit res dat)
  then show ?case
    by (subst raw_loop.simps) (auto split: option.split)
qed

definition listed :: "lstat \<Rightarrow> file_info \<Rightarrow> bool" where
  "listed lstat f \<longleftrightarrow> lstat (Path f) = Some (False, Size f, ModTime f)"

lemma parse_listed: "parseFileURI lstat line = Some f \<Longrightarrow> listed lstat f"
  by (auto simp: parseFileURI_def listed_def Let_def split: if_splits option.splits)

lemma raw_loop_listed:
  "\<forall>f \<in> set res. listed lstat f \<Longrightarrow> f \<in> set (raw_loop lstat limit res dat) \<Longrightarrow> listed lstat f"
proof (induction lstat limit res dat rule: raw_loop.induct)
  case (1 lstat limit res dat)
  show ?case
    using "1.prems" "1.IH" parse_listed
    by (subst (asm) raw_loop.simps) (auto split: if_splits option.splits)
qed

lemma index_byte_absent: "c \<notin> set s \<Longrightarrow> index_byte s c = - 1"
  by (induction s) auto

lemma parse_plain:
  "37 \<notin> set p \<Longrightarrow> lstat p = Some (False, s, t)
   \<Longrightarrow> parseFileURI lstat (fileSchemePrefix @ p) = Some \<lparr>Path = p, Size = s, ModTime = t\<rparr>"
  by (simp add: parseFileURI_def fileSchemePrefix_def index_byte_absent del: str_Cons)
    (simp add: str_def)

lemma cut_append: "c \<notin> set p \<Longrightarrow> cut (p @ c # r) c = (p, r)"
  by (induction p) auto

lemma cut_absent: "c \<notin> set p \<Longrightarrow> cut p c = (p, [])"
  by (induction p) auto

lemma scheme_no_newline: "10 \<notin> set fileSchemePrefix" "fileSchemePrefix \<noteq> []"
  by (simp_all add: fileSchemePrefix_def)

lemma line_path_last: "line_path p \<Longrightarrow> last p \<noteq> 13"
proof
  assume p: "line_path p" "last p = 13"
  then have "p \<noteq> []" by (simp add: line_path_def)
  with p(2) have "has_prefix (rev p) (rev [13])" by (cases p rule: rev_cases) auto
  moreover have "[13] \<in> set spaces" by (simp add: spaces_def)
  ultimately show False using p(1) by (auto simp: line_path_def)
qed

lemma nextLine_crlf: "line_path p \<Longrightarrow> nextLine ((fileSchemePrefix @ p) @ crlf @ r) = (fileSchemePrefix @ p, r)"
proof -
  assume p: "line_path p"
  have "cut ((fileSchemePrefix @ p @ [13]) @ 10 # r) 10 = (fileSchemePrefix @ p @ [13], r)"
    using p scheme_no_newline by (intro cut_append) (auto simp: line_path_def)
  then show ?thesis by (simp add: nextLine_def crlf_def butlast_append)
qed

lemma nextLine_last: "line_path p \<Longrightarrow> nextLine (fileSchemePrefix @ p) = (fileSchemePrefix @ p, [])"
proof -
  assume p: "line_path p"
  then have "cut (fileSchemePrefix @ p) 10 = (fileSchemePrefix @ p, [])" "last (fileSchemePrefix @ p) \<noteq> 13"
    using scheme_no_newline line_path_last by (auto simp: line_path_def cut_absent)
  then show ?thesis by (simp add: nextLine_def)
qed

definition info_of :: "lstat \<Rightarrow> gostring \<Rightarrow> file_info" where
  "info_of lstat p = (case lstat p of
      Some (_, s, t) \<Rightarrow> \<lparr>Path = p, Size = s, ModTime = t\<rparr> | None \<Rightarrow> \<lparr>Path = p, Size = 0, ModTime = 0\<rparr>)"

definition copied :: "lstat \<Rightarrow> gostring \<Rightarrow> bool" where
  "copied lstat p \<longleftrightarrow> line_path p \<and> 37 \<notin> set p \<and> (\<exists>s t. lstat p = Some (False, s, t))"

lemma parse_copied: "copied lstat p \<Longrightarrow> parseFileURI lstat (fileSchemePrefix @ p) = Some (info_of lstat p)"
  by (auto simp: copied_def info_of_def parse_plain)

lemma raw_loop_uris:
  "\<forall>p \<in> set ps. copied lstat p
   \<Longrightarrow> raw_loop lstat 0 res (join_with crlf (map (\<lambda>p. fileSchemePrefix @ p) ps)) = res @ map (info_of lstat) ps"
proof (induction ps arbitrary: res)
  case (Cons p ps)
  then have p: "line_path p" "copied lstat p" by (auto simp: copied_def)
  show ?case
  proof (cases "ps = []")
    case True
    with p show ?thesis
      by (subst raw_loop.simps)
        (simp add: nextLine_last parse_copied scheme_no_newline raw_loop.simps [of _ _ _ "[]"])
  next
    case False
    then have "join_with crlf (map (\<lambda>p. fileSchemePrefix @ p) (p # ps))
        = (fileSchemePrefix @ p) @ crlf @ join_with crlf (map (\<lambda>p. fileSchemePrefix @ p) ps)"
      by (simp add: join_with_Cons)
    with p Cons show ?thesis
      by (subst raw_loop.simps) (simp only:, simp add: nextLine_crlf [simplified] parse_copied scheme_no_newline)
  qed
qed (simp add: raw_loop.simps)

section \<open>Properties\<close>

text \<open>C27. Copying files and reading the URI list back is the identity on paths: for existing files whose
  names have no percent sign, newline or surrounding blanks, the parser finds exactly the formatted
  paths, in order, with the size and time of each. (A percent sign is not encoded by the formatter but
  decoded by the parser.)\<close>

theorem uri_list_roundtrip:
  assumes "ps \<noteq> []" and "\<forall>p \<in> set ps. copied lstat p"
  shows "fileInfoFromRaw lstat (FormatURIList (join_with [10] ps)) 0 = map (info_of lstat) ps"
proof -
  have "\<forall>p \<in> set ps. line_path p" using assms(2) by (simp add: copied_def)
  with raw_loop_uris [OF assms(2), of "[]"] assms(1) show ?thesis
    by (simp add: fileInfoFromRaw_def FormatURIList_paths)
qed

definition sample_lstat :: lstat where
  "sample_lstat p = (if p = str ''/a%41'' then None else Some (False, of_nat (length p), 9))"

theorem uri_list_roundtrip_witness:
  "map Path (fileInfoFromRaw sample_lstat (FormatURIList (str ''/a'' @ [10] @ str ''/b c'')) 0)
     = [str ''/a'', str ''/b c'']"
proof -
  have "copied sample_lstat (str ''/a'')" "copied sample_lstat (str ''/b c'')"
    by (simp_all add: copied_def sample_lstat_def line_path_def fileSchemePrefix_def spaces_def)
  with uri_list_roundtrip [of "[str ''/a'', str ''/b c'']" sample_lstat] show ?thesis
    by (simp add: info_of_def sample_lstat_def)
qed

text \<open>The updates of a copied list of files: never more than the configured limit, every one an
  existing file that is no directory, all with the same batch number, which is never negative as an
  identifier, and with the number of files as batch total.\<close>

theorem updates_from_raw:
  assumes "0 < limit" and "us = fst (UpdatesFromRawPath xxhash xxsum lstat dat limit)" and "u \<in> set us"
  shows "int (length us) \<le> limit \<and> (\<exists>s t. lstat (u_Data u) = Some (False, s, t) \<and> u_Size u = s)
    \<and> u_BatchTotal u = of_nat (length us) \<and> 0 \<le> sint (u_BatchID u)
    \<and> (\<forall>v \<in> set us. u_BatchID v = u_BatchID u) \<and> u_MimeType u = TypePath"
proof -
  let ?raw = "fileInfoFromRaw lstat dat limit"
  have ne: "?raw \<noteq> []" and us: "us = fst (UpdatesFromFileInfo xxhash xxsum ?raw)"
    using assms(2,3) by (auto simp: UpdatesFromRawPath_def Let_def split: if_splits)
  have len: "int (length ?raw) \<le> limit"
    using raw_loop_limit [OF assms(1), of "[]" lstat dat] assms(1) by (simp add: fileInfoFromRaw_def)
  have listed: "f \<in> set ?raw \<Longrightarrow> listed lstat f" for f
    using raw_loop_listed [of "[]" lstat f limit dat] by (simp add: fileInfoFromRaw_def)
  have "\<not> bit (w AND 0x7FFFFFFFFFFFFFFF) 63" for w :: u64
  proof -
    have "(0x7FFFFFFFFFFFFFFF :: u64) = mask 63" by (simp add: mask_eq_exp_minus_1)
    then show ?thesis by (simp add: bit_and_iff bit_mask_iff)
  qed
  then have "0 \<le> sint (w AND 0x7FFFFFFFFFFFFFFF)" for w :: u64
    using bit_last_iff [of "w AND 0x7FFFFFFFFFFFFFFF"] by auto
  with len listed assms(3) show ?thesis
    unfolding us by (auto simp: UpdatesFromFileInfo_def Let_def listed_def)
qed

theorem updates_from_raw_witness:
  "length (fst (UpdatesFromRawPath (\<lambda>_. - 1) (\<lambda>_. []) sample_lstat (str ''file:///a'' @ [10] @ str ''file:///b'') 1)) = 1
   \<and> u_BatchTotal (hd (fst (UpdatesFromRawPath (\<lambda>_. - 1) (\<lambda>_. []) sample_lstat (str ''file:///a'' @ [10] @ str ''file:///b'') 1))) = 1"
proof -
  let ?us = "fst (UpdatesFromRawPath (\<lambda>_. - 1) (\<lambda>_. []) sample_lstat (str ''file:///a'' @ [10] @ str ''file:///b'') 1)"
  have ne: "?us \<noteq> []" by code_simp
  then have "hd ?us \<in> set ?us" by simp
  from updates_from_raw [OF _ refl this] ne have "length ?us = 1" "u_BatchTotal (hd ?us) = of_nat (length ?us)"
    by (auto simp: Suc_le_eq le_antisym)
  then show ?thesis by simp
qed

text \<open>Content just seen or just written by this program is not reported again, and content with
  another hash is; a check never loses its place: it records what it reports.\<close>

theorem dedup_suppresses_repeats:
  "\<not> snd (fst (dedup_Check xxhash (dedup_Mark xxhash d a) a))
   \<and> \<not> snd (fst (dedup_Check xxhash (snd (dedup_Check xxhash d a)) a))
   \<and> (snd (fst (dedup_Check xxhash (dedup_Mark xxhash d a) b)) = (xxhash a \<noteq> xxhash b))
   \<and> fst (fst (dedup_Check xxhash d a)) = xxhash a \<and> lastHash (snd (dedup_Check xxhash d a)) = xxhash a"
  by (auto simp: dedup_Check_def dedup_Mark_def dedup_Hash_def Let_def)

end
