(* ===== verification/Paths.thy ===== *)
theory Paths
  imports GoLib
begin

text \<open>
  Go's \<open>path/filepath\<close> on Unix, as far as the file store and the node use it: \<open>Clean\<close>, \<open>Join\<close>,
  \<open>Dir\<close> and \<open>Base\<close>. \<open>Clean\<close> is the lexical normalisation Go documents, written over the path's
  components: the stack holds the output so far, last component first.
\<close>

abbreviation slash :: byte where
  "slash \<equiv> 47"

definition dot :: gostring where
  "dot = [46]"

definition dotdot :: gostring where
  "dotdot = [46, 46]"

fun clean_step :: "bool \<Rightarrow> gostring list \<Rightarrow> gostring \<Rightarrow> gostring list" where
  "clean_step rooted st c =
     (if c = [] \<or> c = dot then st
      else if c = dotdot then
        (if st \<noteq> [] \<and> hd st \<noteq> dotdot then tl st else if rooted then st else dotdot # st)
      else c # st)"

definition is_rooted :: "gostring \<Rightarrow> bool" where
  "is_rooted p \<longleftrightarrow> p \<noteq> [] \<and> hd p = slash"

definition clean_stack :: "gostring \<Rightarrow> gostring list" where
  "clean_stack p = foldl (clean_step (is_rooted p)) [] (split_on slash p)"

definition render :: "bool \<Rightarrow> gostring list \<Rightarrow> gostring" where
  "render rooted cs =
     (if rooted then slash # join_with [slash] cs else if cs = [] then dot else join_with [slash] cs)"

definition clean :: "gostring \<Rightarrow> gostring" where
  "clean p = render (is_rooted p) (rev (clean_stack p))"

text \<open>\<open>filepath.Join(a, b)\<close>: empty elements are skipped.\<close>

definition path_join :: "gostring \<Rightarrow> gostring \<Rightarrow> gostring" where
  "path_join a b = (if a \<noteq> [] then clean (a @ [slash] @ b) else if b \<noteq> [] then clean b else [])"

text \<open>\<open>filepath.Dir\<close>: everything up to and including the last slash, cleaned.\<close>

definition path_dir :: "gostring \<Rightarrow> gostring" where
  "path_dir p = clean (rev (dropWhile (\<lambda>b. b \<noteq> slash) (rev p)))"

text \<open>\<open>filepath.Base\<close>: trailing slashes off, then everything after the last slash.\<close>

definition path_base :: "gostring \<Rightarrow> gostring" where
  "path_base p =
     (if p = [] then dot
      else (let q = rev (dropWhile (\<lambda>b. b = slash) (rev p));
                l = rev (takeWhile (\<lambda>b. b \<noteq> slash) (rev q))
            in if l = [] then [slash] else l))"

section \<open>Cleaned paths\<close>

definition normal_comp :: "gostring \<Rightarrow> bool" where
  "normal_comp c \<longleftrightarrow> c \<noteq> [] \<and> c \<noteq> dot \<and> c \<noteq> dotdot \<and> slash \<notin> set c"

text \<open>A cleaned component list: parent references only in front, and only in a relative path.\<close>

definition clean_form :: "bool \<Rightarrow> gostring list \<Rightarrow> bool" where
  "clean_form rooted cs \<longleftrightarrow>
     (\<exists>k ns. cs = replicate k dotdot @ ns \<and> list_all normal_comp ns \<and> (rooted \<longrightarrow> k = 0))"

lemma clean_formI:
  "cs = replicate k dotdot @ ns \<Longrightarrow> list_all normal_comp ns \<Longrightarrow> (rooted \<Longrightarrow> k = 0) \<Longrightarrow> clean_form rooted cs"
  by (auto simp: clean_form_def)

lemma clean_form_Nil [simp]: "clean_form rooted []"
  by (rule clean_formI [of _ 0 "[]"]) auto

lemma dotdot_no_slash [simp]: "slash \<notin> set dotdot" "dotdot \<noteq> []" "dotdot \<noteq> dot"
  by (auto simp: dotdot_def dot_def)

lemma normal_comp_not_dotdot [simp]: "\<not> normal_comp dotdot"
  by (simp add: normal_comp_def)

lemma clean_form_step:
  assumes "clean_form rooted (rev st)" and "slash \<notin> set c"
  shows "clean_form rooted (rev (clean_step rooted st c))"
proof -
  from assms(1) obtain k ns where st: "rev st = replicate k dotdot @ ns"
    and ns: "list_all normal_comp ns" and k: "rooted \<longrightarrow> k = 0"
    by (auto simp: clean_form_def)
  have st': "st = rev ns @ replicate k dotdot"
    using st by (metis rev_append rev_replicate rev_rev_ident)
  consider (skip) "c = [] \<or> c = dot" | (up) "c = dotdot" | (down) "normal_comp c"
    using assms(2) by (auto simp: normal_comp_def)
  then show ?thesis
  proof cases
    case skip
    with assms(1) show ?thesis by auto
  next
    case down
    with st ns k show ?thesis
      using clean_formI [of "rev st @ [c]" k "ns @ [c]" rooted] by (auto simp: normal_comp_def)
  next
    case up
    show ?thesis
    proof (cases ns rule: rev_cases)
      case Nil
      then have top: "st = replicate k dotdot"
        using st' by simp
      with up k show ?thesis
        using assms(1) clean_formI [of "rev (dotdot # st)" "Suc k" "[]" rooted]
        by (cases k) (auto simp: replicate_append_same)
    next
      case (snoc ms n)
      then have "hd st \<noteq> dotdot" "st \<noteq> []" "rev (tl st) = replicate k dotdot @ ms"
        using st' ns by auto
      then show ?thesis
        using snoc ns k up by (auto intro: clean_formI [of _ k ms])
    qed
  qed
qed

lemma clean_form_foldl:
  "clean_form rooted (rev st) \<Longrightarrow> \<forall>c \<in> set cs. slash \<notin> set c
   \<Longrightarrow> clean_form rooted (rev (foldl (clean_step rooted) st cs))"
proof (induction cs arbitrary: st)
  case (Cons c cs)
  then have "clean_form rooted (rev (clean_step rooted st c))"
    by (intro clean_form_step) auto
  with Cons show ?case by (simp del: clean_step.simps)
qed simp

lemma clean_form_stack: "clean_form (is_rooted p) (rev (clean_stack p))"
  unfolding clean_stack_def by (rule clean_form_foldl) (auto dest: split_no_sep)

lemma clean_form_no_slash: "clean_form rooted cs \<Longrightarrow> c \<in> set cs \<Longrightarrow> slash \<notin> set c \<and> c \<noteq> []"
proof -
  assume "clean_form rooted cs" and c: "c \<in> set cs"
  then obtain k ns where "cs = replicate k dotdot @ ns" and ns: "list_all normal_comp ns"
    unfolding clean_form_def by blast
  with c have "c \<in> set (replicate k dotdot) \<or> c \<in> set ns"
    by simp
  then show ?thesis
  proof
    assume "c \<in> set (replicate k dotdot)"
    then have "c = dotdot" by (rule in_set_replicate [THEN iffD1, THEN conjunct1])
    then show ?thesis by (simp only: dotdot_no_slash simp_thms)
  next
    assume "c \<in> set ns"
    with ns have "normal_comp c" by (simp add: list_all_iff)
    then show ?thesis by (simp add: normal_comp_def)
  qed
qed

lemma clean_form_after_normal:
  assumes "clean_form rooted (xs @ c # ys)" and "normal_comp c"
  shows "list_all normal_comp ys"
proof -
  from assms(1) obtain k ns where eq: "xs @ c # ys = replicate k dotdot @ ns"
    and ns: "list_all normal_comp ns"
    by (auto simp: clean_form_def)
  have "k \<le> length xs"
  proof (rule ccontr)
    assume "\<not> k \<le> length xs"
    then have "(replicate k dotdot @ ns) ! length xs = dotdot"
      by (simp add: nth_append)
    with eq have "c = dotdot" by (metis nth_append_length)
    with assms(2) show False by simp
  qed
  then have "drop (Suc (length xs)) (replicate k dotdot @ ns) = drop (Suc (length xs) - k) ns"
    by simp
  moreover have "drop (Suc (length xs)) (xs @ c # ys) = ys" by simp
  ultimately have "ys = drop (Suc (length xs) - k) ns"
    using eq by metis
  with ns show ?thesis
    by (auto simp: list_all_iff dest: in_set_dropD)
qed

text \<open>The components of a rendered path.\<close>

definition comps :: "gostring \<Rightarrow> gostring list" where
  "comps p = filter (\<lambda>c. c \<noteq> []) (split_on slash p)"

lemma split_slash_Cons: "split_on slash (slash # s) = [] # split_on slash s"
  by simp

lemma comps_render:
  assumes "clean_form rooted cs" and "rooted \<or> cs \<noteq> []"
  shows "comps (render rooted cs) = cs"
proof (cases "cs = []")
  case True
  with assms show ?thesis by (simp add: comps_def render_def)
next
  case False
  have "split_on slash (join_with [slash] cs) = cs"
    using False clean_form_no_slash [OF assms(1)] by (intro split_join) auto
  moreover have "filter (\<lambda>c. c \<noteq> []) cs = cs"
    using clean_form_no_slash [OF assms(1)] by (intro filter_True) auto
  ultimately show ?thesis
    using False by (simp add: comps_def render_def)
qed

lemma is_rooted_render:
  assumes "clean_form rooted cs"
  shows "is_rooted (render rooted cs) = rooted"
proof (cases cs)
  case (Cons c cs')
  with clean_form_no_slash [OF assms, of c] have "c \<noteq> []" "slash \<notin> set c" by auto
  then have "hd c \<noteq> slash" by (cases c) auto
  with \<open>c \<noteq> []\<close> Cons show ?thesis
    by (cases cs') (auto simp: is_rooted_def render_def hd_append)
qed (auto simp: is_rooted_def render_def dot_def)

lemma comps_append_slash: "comps (p @ slash # q) = comps p @ comps q"
  by (simp add: comps_def split_on_append_sep')

section \<open>Clean paths\<close>

lemma clean_is_render:
  obtains cs where "clean p = render (is_rooted p) cs" and "clean_form (is_rooted p) cs"
    and "cs = rev (clean_stack p)"
  using clean_form_stack [of p] by (simp add: clean_def)

lemma foldl_normal: "list_all normal_comp ns \<Longrightarrow> foldl (clean_step rooted) st ns = rev ns @ st"
  by (induction ns arbitrary: st) (auto simp: normal_comp_def)

lemma foldl_dotdots: "foldl (clean_step False) (replicate j dotdot) (replicate k dotdot) = replicate (k + j) dotdot"
proof (induction k arbitrary: j)
  case (Suc k)
  have "clean_step False (replicate j dotdot) dotdot = replicate (Suc j) dotdot"
    by (cases j) auto
  with Suc [of "Suc j"] show ?case by simp
qed simp

lemma foldl_clean_form: "clean_form rooted cs \<Longrightarrow> foldl (clean_step rooted) [] cs = rev cs"
proof -
  assume "clean_form rooted cs"
  then obtain k ns where cs: "cs = replicate k dotdot @ ns" "list_all normal_comp ns" "rooted \<longrightarrow> k = 0"
    by (auto simp: clean_form_def)
  show ?thesis
  proof (cases rooted)
    case True
    with cs foldl_normal [of ns rooted "[]"] show ?thesis by simp
  next
    case False
    with cs foldl_dotdots [of 0 k] foldl_normal [of ns rooted "replicate k dotdot"] show ?thesis
      by simp
  qed
qed

lemma foldl_comps: "foldl (clean_step rooted) st (filter (\<lambda>c. c \<noteq> []) cs) = foldl (clean_step rooted) st cs"
  by (induction cs arbitrary: st) auto

lemma clean_stack_comps: "clean_stack p = foldl (clean_step (is_rooted p)) [] (comps p)"
  by (simp add: clean_stack_def comps_def foldl_comps)

lemma clean_of_comps:
  "is_rooted p = rooted \<Longrightarrow> comps p = cs \<Longrightarrow> clean_form rooted cs \<Longrightarrow> clean p = render rooted cs"
  by (simp add: clean_def clean_stack_comps foldl_clean_form)

lemma clean_render: "clean_form rooted cs \<Longrightarrow> rooted \<or> cs \<noteq> [] \<Longrightarrow> clean (render rooted cs) = render rooted cs"
  by (rule clean_of_comps) (simp_all add: is_rooted_render comps_render)

lemma clean_form_take: "clean_form rooted cs \<Longrightarrow> clean_form rooted (take j cs)"
proof -
  assume "clean_form rooted cs"
  then obtain k ns where "cs = replicate k dotdot @ ns" "list_all normal_comp ns" "rooted \<longrightarrow> k = 0"
    by (auto simp: clean_form_def)
  then show ?thesis
    by (intro clean_formI [of _ "min j k" "take (j - k) ns"])
      (auto simp: list_all_iff dest: in_set_takeD)
qed

lemma clean_form_snoc: "clean_form rooted (cs @ [c]) \<Longrightarrow> clean_form rooted cs"
  using clean_form_take [of rooted "cs @ [c]" "length cs"] by simp

lemma render_snoc: "cs \<noteq> [] \<Longrightarrow> render rooted (cs @ [c]) = render rooted cs @ slash # c"
proof -
  assume "cs \<noteq> []"
  moreover from this have "join_with [slash] (cs @ [c]) = join_with [slash] cs @ slash # c"
    by (induction cs) (auto simp: join_with_Cons, case_tac cs, auto)
  ultimately show ?thesis by (simp add: render_def)
qed

lemma render_nonempty: "clean_form rooted cs \<Longrightarrow> render rooted cs \<noteq> []"
proof (cases cs)
  case (Cons c cs')
  assume "clean_form rooted cs"
  with clean_form_no_slash [of rooted cs c] Cons have "c \<noteq> []" by simp
  with Cons show ?thesis by (cases cs') (auto simp: render_def)
qed (auto simp: render_def dot_def)

lemma path_dir_render:
  assumes form: "clean_form rooted (cs @ [c])" and ne: "cs \<noteq> []"
  shows "path_dir (render rooted (cs @ [c])) = render rooted cs"
proof -
  let ?A = "render rooted cs"
  have c: "slash \<notin> set c" using clean_form_no_slash [OF form, of c] by simp
  have "dropWhile (\<lambda>b. b \<noteq> slash) (rev c @ slash # rev ?A) = slash # rev ?A"
    using c by (subst dropWhile_append2) auto
  then have "rev (dropWhile (\<lambda>b. b \<noteq> slash) (rev (?A @ slash # c))) = ?A @ [slash]"
    by simp
  moreover have "clean (?A @ [slash]) = ?A"
  proof (rule clean_of_comps)
    show "comps (?A @ [slash]) = cs"
      using comps_append_slash [of ?A "[]"] comps_render [OF clean_form_snoc [OF form]] ne
      by (simp add: comps_def)
    show "is_rooted (?A @ [slash]) = rooted"
      using is_rooted_render [OF clean_form_snoc [OF form]] render_nonempty [OF clean_form_snoc [OF form]]
      by (simp add: is_rooted_def)
  qed (rule clean_form_snoc [OF form])
  ultimately show ?thesis
    using ne by (simp add: path_dir_def render_snoc)
qed

lemma render_inj:
  "clean_form rooted cs \<Longrightarrow> clean_form rooted' cs' \<Longrightarrow> cs \<noteq> [] \<Longrightarrow> cs' \<noteq> []
   \<Longrightarrow> render rooted cs = render rooted' cs' \<Longrightarrow> rooted = rooted' \<and> cs = cs'"
  by (metis comps_render is_rooted_render)

end
