(* ===== verification/FileStore.thy ===== *)
theory FileStore
  imports Domain Paths Framing "HOL-Library.Sublist"
begin

text \<open>
  The store of received files (\<open>internal/store/filestore.go\<close>). A file system maps cleaned paths to
  files and directories (no symbolic links); \<open>deny\<close> holds the paths the operating system refuses
  to create, and \<open>disk\<close> is how many bytes the new file can take before a write fails. A \<open>Write\<close>
  returns its path, its error and the file system it leaves.
\<close>

section \<open>The operating system\<close>

datatype file_node = Dir | File "byte list"

type_synonym fs = "gostring \<Rightarrow> file_node option"

text \<open>The paths \<open>MkdirAll\<close> walks through, outermost first.\<close>

definition ancestors :: "gostring \<Rightarrow> gostring list" where
  "ancestors p = map (\<lambda>k. render (is_rooted p) (take k (comps p))) [1 ..< Suc (length (comps p))]"

fun mkdir_list :: "(gostring \<Rightarrow> bool) \<Rightarrow> fs \<Rightarrow> gostring list \<Rightarrow> bool \<times> fs" where
  "mkdir_list deny fs [] = (True, fs)"
| "mkdir_list deny fs (a # as) =
     (case fs a of
        Some Dir \<Rightarrow> mkdir_list deny fs as
      | Some (File _) \<Rightarrow> (False, fs)
      | None \<Rightarrow> if deny a then (False, fs) else mkdir_list deny (fs(a \<mapsto> Dir)) as)"

definition MkdirAll :: "(gostring \<Rightarrow> bool) \<Rightarrow> fs \<Rightarrow> gostring \<Rightarrow> bool \<times> fs" where
  "MkdirAll deny fs p = mkdir_list deny fs (ancestors p)"

definition os_Create :: "(gostring \<Rightarrow> bool) \<Rightarrow> fs \<Rightarrow> gostring \<Rightarrow> bool \<times> fs" where
  "os_Create deny fs p =
     (case fs p of
        Some Dir \<Rightarrow> (False, fs)
      | _ \<Rightarrow> if deny p then (False, fs) else (True, fs(p \<mapsto> File [])))"

text \<open>\<open>io.CopyBuffer(file, io.LimitReader(r, limit), buf)\<close>: the bytes written and the error.\<close>

definition copy_limited :: "reader \<Rightarrow> int \<Rightarrow> nat \<Rightarrow> byte list \<times> io_error option" where
  "copy_limited r limit disk =
     (let avail = take (nat limit) (r_bytes r) in
      if disk < length avail then (take disk avail, Some (IOErr (str ''disk full'')))
      else if length (r_bytes r) < nat limit \<and> r_err r \<noteq> EOF then (avail, Some (r_err r))
      else (avail, None))"

section \<open>The store\<close>

datatype store_error =
    ErrInvalidName
  | ErrMkdirIsolated
  | ErrTraversal
  | ErrMkdirTree
  | ErrFileExists
  | ErrCreate
  | ErrWriteContent io_error
  | ErrIncomplete u64 nat

record file_store =
  baseDir :: gostring

definition NewFileStore :: "(gostring \<Rightarrow> bool) \<Rightarrow> fs \<Rightarrow> gostring \<Rightarrow> file_store option \<times> fs" where
  "NewFileStore deny fs base =
     (case MkdirAll deny fs base of
        (False, fs') \<Rightarrow> (None, fs')
      | (True, fs') \<Rightarrow> (Some \<lparr>baseDir = base\<rparr>, fs'))"

text \<open>The directory of a message: named after its batch if it has one.\<close>

definition isolate_name :: "message \<Rightarrow> gostring" where
  "isolate_name msg = MessageID_String (if m_BatchID msg \<noteq> 0 then m_BatchID msg else m_ID msg)"

definition isolateDirClean :: "file_store \<Rightarrow> message \<Rightarrow> gostring" where
  "isolateDirClean st msg = clean (path_join (baseDir st) (isolate_name msg))"

text \<open>The end of \<open>Write\<close>, from the look at an existing file on.\<close>

definition save_content ::
  "(gostring \<Rightarrow> bool) \<Rightarrow> nat \<Rightarrow> fs \<Rightarrow> gostring \<Rightarrow> reader \<Rightarrow> message \<Rightarrow> (gostring \<times> store_error option) \<times> fs" where
  "save_content deny disk fs fullPath r msg =
     (if (case fs fullPath of Some (File c) \<Rightarrow> of_nat (length c) = m_ContentLength msg | _ \<Rightarrow> False)
      then ((fullPath, Some ErrFileExists), fs)
      else
        (case os_Create deny fs fullPath of
           (False, fs1) \<Rightarrow> (([], Some ErrCreate), fs1)
         | (True, fs1) \<Rightarrow>
             (let (content, err) = copy_limited r (sint (m_ContentLength msg)) disk;
                  fs2 = fs1(fullPath \<mapsto> File content)
              in case err of
                   Some e \<Rightarrow> (([], Some (ErrWriteContent e)), fs2(fullPath := None))
                 | None \<Rightarrow>
                     if of_nat (length content) \<noteq> m_ContentLength msg then
                       (([], Some (ErrIncomplete (m_ContentLength msg) (length content))), fs2(fullPath := None))
                     else ((fullPath, None), fs2))))"

definition store_Write ::
  "(gostring \<Rightarrow> bool) \<Rightarrow> nat \<Rightarrow> file_store \<Rightarrow> fs \<Rightarrow> reader \<Rightarrow> message \<Rightarrow> (gostring \<times> store_error option) \<times> fs" where
  "store_Write deny disk st fs r msg =
     (if m_Name msg = [] then (([], Some ErrInvalidName), fs)
      else
        (let dir = isolateDirClean st msg in
         case MkdirAll deny fs dir of
           (False, fs1) \<Rightarrow> (([], Some ErrMkdirIsolated), fs1)
         | (True, fs1) \<Rightarrow>
             (let fullPath = path_join dir (m_Name msg) in
              if \<not> has_prefix fullPath (dir @ [slash]) then (([], Some ErrTraversal), fs1)
              else
                (case MkdirAll deny fs1 (path_dir fullPath) of
                   (False, fs2) \<Rightarrow> (([], Some ErrMkdirTree), fs2)
                 | (True, fs2) \<Rightarrow> save_content deny disk fs2 fullPath r msg))))"

section \<open>Where a message may be written\<close>

text \<open>A path strictly below a directory: more components, none of them \<open>..\<close>.\<close>

definition below :: "gostring \<Rightarrow> gostring \<Rightarrow> bool" where
  "below d q \<longleftrightarrow> (\<exists>ys. ys \<noteq> [] \<and> list_all normal_comp ys \<and> q = render (is_rooted d) (comps d @ ys))"

lemma MessageID_String_normal: "normal_comp (MessageID_String i)"
proof -
  have "46 \<notin> set (format_int i)" "slash \<notin> set (format_int i)"
    using format_int_bytes [of 46 i] format_int_bytes [of slash i] by (auto simp: is_digit_def)
  then show ?thesis
    by (auto simp: normal_comp_def MessageID_String_def dot_def dotdot_def)
qed

lemma isolate_normal: "normal_comp (isolate_name msg)"
  by (simp add: isolate_name_def MessageID_String_normal)

lemma clean_snoc_normal:
  assumes "normal_comp c"
  obtains cs where "path_join p c = render (is_rooted p) (cs @ [c])" and "clean_form (is_rooted p) (cs @ [c])"
proof -
  let ?q = "if p = [] then c else p @ [slash] @ c"
  have c: "c \<noteq> []" "slash \<notin> set c" "c \<noteq> dot" "c \<noteq> dotdot" using assms by (auto simp: normal_comp_def)
  have join: "path_join p c = clean ?q" using c by (simp add: path_join_def)
  have root: "is_rooted ?q = is_rooted p" using c by (cases c) (auto simp: is_rooted_def)
  have cc: "comps c = [c]" using c by (simp add: comps_def split_on_notin)
  then have "comps ?q = comps p @ [c]" by (simp add: comps_append_slash) (simp add: comps_def)
  then have "clean_stack ?q = c # foldl (clean_step (is_rooted p)) [] (comps p)"
    using c root by (simp add: clean_stack_comps)
  then show thesis
    using that [of "rev (foldl (clean_step (is_rooted p)) [] (comps p))"] clean_form_stack [of ?q] join root
    by (simp add: clean_def)
qed

lemma isolate_shape:
  obtains xs where "isolateDirClean st msg = render (is_rooted (baseDir st)) (xs @ [isolate_name msg])"
    and "clean_form (is_rooted (baseDir st)) (xs @ [isolate_name msg])"
proof -
  obtain xs where xs: "path_join (baseDir st) (isolate_name msg) = render (is_rooted (baseDir st)) (xs @ [isolate_name msg])"
    "clean_form (is_rooted (baseDir st)) (xs @ [isolate_name msg])"
    using clean_snoc_normal [OF isolate_normal] by blast
  then have "isolateDirClean st msg = render (is_rooted (baseDir st)) (xs @ [isolate_name msg])"
    by (simp add: isolateDirClean_def clean_render)
  with xs(2) that show thesis by blast
qed

text \<open>The prefix test of the code is what keeps the file below its directory.\<close>

lemma full_path_below:
  assumes pre: "has_prefix (path_join dir name) (dir @ [slash])"
    and dir: "dir = render rooted (xs @ [c])" "clean_form rooted (xs @ [c])" and c: "normal_comp c"
  obtains ys where "path_join dir name = render rooted (xs @ c # ys)" and "ys \<noteq> []"
    and "list_all normal_comp ys" and "clean_form rooted (xs @ c # ys)"
proof -
  have ne: "dir \<noteq> []" using dir render_nonempty by simp
  have root: "is_rooted dir = rooted" and compsi: "comps dir = xs @ [c]"
    using dir by (simp_all add: is_rooted_render comps_render)
  have "is_rooted (dir @ [slash] @ name) = rooted"
    using root ne by (auto simp: is_rooted_def)
  then obtain cs where cs: "path_join dir name = render rooted cs" "clean_form rooted cs"
    using ne clean_is_render [of "dir @ [slash] @ name"] unfolding path_join_def by auto
  obtain t where t: "path_join dir name = dir @ slash # t"
    using pre by (auto simp: has_prefix_iff)
  have some: "rooted \<or> cs \<noteq> []"
  proof (rule ccontr)
    assume "\<not> ?thesis"
    with cs(1) t have "dir @ slash # t = dot" by (simp add: render_def)
    then have "slash \<in> set dot" by (metis in_set_conv_decomp)
    then show False by (simp add: dot_def)
  qed
  have "cs = comps (dir @ slash # t)"
    using comps_render [OF cs(2) some] cs(1) t by simp
  then have cs': "cs = xs @ c # comps t"
    by (simp add: comps_append_slash compsi)
  moreover have "comps t \<noteq> []"
  proof
    assume "comps t = []"
    with cs' cs(1) dir(1) t show False by simp
  qed
  moreover have "list_all normal_comp (comps t)"
    using cs(2) c unfolding cs' by (rule clean_form_after_normal)
  ultimately show thesis using that cs by blast
qed

section \<open>What a write changes\<close>

lemma mkdir_list_changes:
  "mkdir_list deny fs as = (ok, fs') \<Longrightarrow> fs' q \<noteq> fs q \<Longrightarrow> q \<in> set as \<and> fs q = None \<and> fs' q = Some Dir"
proof (induction deny fs as arbitrary: ok rule: mkdir_list.induct)
  case (2 deny fs a as)
  then show ?case
    by (cases "q = a") (auto simp: fun_upd_def split: option.splits file_node.splits if_splits)
qed simp

lemma mkdir_list_keeps: "mkdir_list deny fs as = (ok, fs') \<Longrightarrow> fs q = Some x \<Longrightarrow> fs' q = Some x"
  using mkdir_list_changes [of deny fs as ok fs' q] by auto

lemma mkdir_list_done: "mkdir_list deny fs as = (True, fs') \<Longrightarrow> a \<in> set as \<Longrightarrow> fs' a = Some Dir"
proof (induction deny fs as rule: mkdir_list.induct)
  case (2 deny fs b as)
  then show ?case
    by (auto simp: fun_upd_def split: option.splits file_node.splits if_splits dest: mkdir_list_keeps)
qed simp

lemma ancestors_render:
  assumes "clean_form rooted cs" and "cs \<noteq> []"
  shows "set (ancestors (render rooted cs)) = {render rooted (take k cs) | k. 1 \<le> k \<and> k \<le> length cs}"
proof -
  have "ancestors (render rooted cs) = map (\<lambda>k. render rooted (take k cs)) [1 ..< Suc (length cs)]"
    using comps_render [OF assms(1)] is_rooted_render [OF assms(1)] assms(2) unfolding ancestors_def by simp
  then show ?thesis by (auto simp: less_Suc_eq_le simp del: upt_Suc)
qed

lemma below_changes:
  assumes dir: "dir = render rooted (xs @ [c])" "clean_form rooted (xs @ [c])"
    and full: "full = render rooted (xs @ c # ys)" "clean_form rooted (xs @ c # ys)"
    and ys: "ys \<noteq> []" "list_all normal_comp ys"
    and q: "q \<in> set (ancestors (path_dir full))"
  shows "q \<in> set (ancestors dir) \<or> below dir q"
proof -
  obtain zs z where z: "ys = zs @ [z]" using ys(1) by (cases ys rule: rev_cases) auto
  have form: "clean_form rooted (xs @ c # zs)"
    using full(2) z clean_form_snoc [of rooted "xs @ c # zs" z] by simp
  have pd: "path_dir full = render rooted (xs @ c # zs)"
    using path_dir_render [of rooted "xs @ c # zs" z] full z by simp
  have cd: "comps dir = xs @ [c]" "is_rooted dir = rooted"
    using dir by (simp_all add: comps_render is_rooted_render)
  from q obtain k where k: "q = render rooted (take k (xs @ c # zs))" "1 \<le> k" "k \<le> Suc (length xs + length zs)"
    unfolding pd by (subst (asm) ancestors_render [OF form], simp) auto
  show ?thesis
  proof (cases "k \<le> Suc (length xs)")
    case True
    then have "take k (xs @ c # zs) = take k (xs @ [c])"
      by (cases "k = Suc (length xs)") auto
    with True k have "q \<in> set (ancestors dir)"
      unfolding dir(1) by (subst ancestors_render [OF dir(2)], simp) auto
    then show ?thesis ..
  next
    case False
    then have t: "take k (xs @ c # zs) = (xs @ [c]) @ take (k - Suc (length xs)) zs"
      by (simp add: Suc_diff_le take_Cons' Suc_diff_Suc)
    have "take (k - Suc (length xs)) zs \<noteq> []"
      using False k(3) by auto
    moreover have "list_all normal_comp (take (k - Suc (length xs)) zs)"
      using ys(2) z by (auto simp: list_all_iff dest: in_set_takeD)
    ultimately show ?thesis
      using k(1) t unfolding below_def cd by (metis)
  qed
qed

lemma copy_limited_spec:
  "copy_limited r limit disk = (content, err) \<Longrightarrow>
     length content \<le> nat limit \<and> (err = None \<longrightarrow> content = take (nat limit) (r_bytes r))"
  by (auto simp: copy_limited_def Let_def split: if_splits)

lemma save_content_changes:
  assumes "save_content deny disk fs full r msg = ((p, err), fs')"
  shows "fs' q \<noteq> fs q \<Longrightarrow> q = full"
    and "p \<noteq> [] \<Longrightarrow> p = full \<and> (err = None \<or> err = Some ErrFileExists)"
    and "err = None \<Longrightarrow> p = full \<and> fs' full = Some (File (take (nat (sint (m_ContentLength msg))) (r_bytes r)))
      \<and> of_nat (length (take (nat (sint (m_ContentLength msg))) (r_bytes r))) = m_ContentLength msg"
    and "err = Some ErrFileExists \<Longrightarrow> fs' = fs \<and> p = full
      \<and> (\<exists>c. fs full = Some (File c) \<and> of_nat (length c) = m_ContentLength msg)"
    and "err \<noteq> None \<Longrightarrow> fs' full = fs full \<or> fs' full = None"
  using assms
  by (auto simp: save_content_def os_Create_def Let_def dest: copy_limited_spec
      split: if_splits option.splits file_node.splits prod.splits)

text \<open>The states a write can end in.\<close>

lemma store_Write_cases:
  assumes w: "store_Write deny disk st fs r msg = ((p, err), fs')"
  obtains (early) "p = []" "err \<noteq> None" "err \<noteq> Some ErrFileExists"
      "\<And>q. fs' q \<noteq> fs q \<Longrightarrow> fs q = None \<and> fs' q = Some Dir
        \<and> (q \<in> set (ancestors (isolateDirClean st msg)) \<or> below (isolateDirClean st msg) q)"
  | (saved) full fs2 where "save_content deny disk fs2 full r msg = ((p, err), fs')"
      "below (isolateDirClean st msg) full"
      "full = path_join (isolateDirClean st msg) (m_Name msg)"
      "\<And>q. fs2 q \<noteq> fs q \<Longrightarrow> fs q = None \<and> fs2 q = Some Dir
        \<and> (q \<in> set (ancestors (isolateDirClean st msg)) \<or> below (isolateDirClean st msg) q)"
proof (cases "m_Name msg = []")
  case True
  with w early show thesis by (auto simp: store_Write_def)
next
  case named: False
  define dir where "dir = isolateDirClean st msg"
  define full where "full = path_join dir (m_Name msg)"
  obtain ok1 fs1 where m1: "MkdirAll deny fs dir = (ok1, fs1)" by fastforce
  have c1: "fs1 q \<noteq> fs q \<Longrightarrow> fs q = None \<and> fs1 q = Some Dir \<and> q \<in> set (ancestors dir)" for q
    using mkdir_list_changes m1 unfolding MkdirAll_def by blast
  show thesis
  proof (cases "ok1 \<and> has_prefix full (dir @ [slash])")
    case False
    with w named m1 have "p = [] \<and> err \<noteq> None \<and> err \<noteq> Some ErrFileExists \<and> fs' = fs1"
      by (auto simp: store_Write_def Let_def dir_def full_def split: bool.splits if_splits)
    with c1 show thesis by (intro early) (auto simp: dir_def)
  next
    case True
    obtain xs where xs: "dir = render (is_rooted (baseDir st)) (xs @ [isolate_name msg])"
      "clean_form (is_rooted (baseDir st)) (xs @ [isolate_name msg])"
      using isolate_shape unfolding dir_def by blast
    obtain ys where ys: "full = render (is_rooted (baseDir st)) (xs @ isolate_name msg # ys)" "ys \<noteq> []"
      "list_all normal_comp ys" "clean_form (is_rooted (baseDir st)) (xs @ isolate_name msg # ys)"
      using full_path_below [OF _ xs isolate_normal] True unfolding full_def by blast
    have cd: "comps dir = xs @ [isolate_name msg]" "is_rooted dir = is_rooted (baseDir st)"
      using xs by (simp_all add: comps_render is_rooted_render)
    have bel: "below dir full"
      unfolding below_def cd using ys by auto
    obtain ok2 fs2 where m2: "MkdirAll deny fs1 (path_dir full) = (ok2, fs2)" by fastforce
    have c2: "fs2 q \<noteq> fs q \<Longrightarrow> fs q = None \<and> fs2 q = Some Dir \<and> (q \<in> set (ancestors dir) \<or> below dir q)" for q
    proof -
      assume ch: "fs2 q \<noteq> fs q"
      show ?thesis
      proof (cases "fs2 q = fs1 q")
        case True
        with ch c1 [of q] show ?thesis by auto
      next
        case False
        then have "q \<in> set (ancestors (path_dir full)) \<and> fs1 q = None \<and> fs2 q = Some Dir"
          using mkdir_list_changes m2 unfolding MkdirAll_def by blast
        with below_changes [OF xs ys(1,4,2,3)] c1 [of q] show ?thesis by (cases "fs q = None") auto
      qed
    qed
    show thesis
    proof (cases ok2)
      case False
      with w named m1 m2 True have "p = [] \<and> err = Some ErrMkdirTree \<and> fs' = fs2"
        by (simp add: store_Write_def Let_def dir_def full_def)
      with c2 show thesis by (intro early) (auto simp: dir_def)
    next
      case ok2: True
      with w named m1 m2 True have "save_content deny disk fs2 full r msg = ((p, err), fs')"
        by (simp add: store_Write_def Let_def dir_def full_def)
      with bel c2 show thesis by (intro saved) (auto simp: dir_def full_def)
    qed
  qed
qed

section \<open>A plain write succeeds\<close>

text \<open>Where a message with a plain file name is saved, and a file system in which it can be.\<close>

definition file_path :: "file_store \<Rightarrow> message \<Rightarrow> gostring" where
  "file_path st msg = isolateDirClean st msg @ slash # m_Name msg"

definition can_save :: "file_store \<Rightarrow> fs \<Rightarrow> message \<Rightarrow> bool" where
  "can_save st fs msg \<longleftrightarrow>
     list_all (\<lambda>a. \<forall>c. fs a \<noteq> Some (File c)) (ancestors (isolateDirClean st msg))"

lemma mkdir_list_free:
  "list_all (\<lambda>a. \<forall>c. fs a \<noteq> Some (File c)) as \<Longrightarrow> \<exists>fs'. mkdir_list (\<lambda>_. False) fs as = (True, fs')"
proof (induction as arbitrary: fs)
  case (Cons a as)
  show ?case
  proof (cases "fs a")
    case None
    have "list_all (\<lambda>b. \<forall>c. (fs(a \<mapsto> Dir)) b \<noteq> Some (File c)) as"
      using Cons.prems by (auto simp: list_all_iff)
    from Cons.IH [OF this] None show ?thesis by (simp add: fun_upd_def)
  next
    case (Some x)
    with Cons show ?thesis by (cases x) auto
  qed
qed simp

lemma clean_form_add: "clean_form rooted cs \<Longrightarrow> normal_comp c \<Longrightarrow> clean_form rooted (cs @ [c])"
proof -
  assume "clean_form rooted cs" and c: "normal_comp c"
  then obtain k ns where "cs = replicate k dotdot @ ns" "list_all normal_comp ns" "rooted \<longrightarrow> k = 0"
    by (auto simp: clean_form_def)
  with c show ?thesis by (intro clean_formI [of _ k "ns @ [c]"]) auto
qed

lemma plain_path:
  assumes "normal_comp (m_Name msg)"
  shows "path_join (isolateDirClean st msg) (m_Name msg) = file_path st msg"
    and "path_dir (file_path st msg) = isolateDirClean st msg"
    and "file_path st msg \<notin> set (ancestors (isolateDirClean st msg))"
proof -
  let ?r = "is_rooted (baseDir st)"
  obtain xs where xs: "isolateDirClean st msg = render ?r (xs @ [isolate_name msg])"
    "clean_form ?r (xs @ [isolate_name msg])"
    by (rule isolate_shape)
  define cs where "cs = xs @ [isolate_name msg]"
  have cs: "isolateDirClean st msg = render ?r cs" "clean_form ?r cs" "cs \<noteq> []"
    using xs by (simp_all add: cs_def)
  have form: "clean_form ?r (cs @ [m_Name msg])" using cs(2) assms by (rule clean_form_add)
  have full: "file_path st msg = render ?r (cs @ [m_Name msg])"
    using cs by (simp add: file_path_def render_snoc)
  have ne: "m_Name msg \<noteq> []" "isolateDirClean st msg \<noteq> []"
    using assms cs render_nonempty by (auto simp: normal_comp_def)
  have "path_join (isolateDirClean st msg) (m_Name msg) = clean (file_path st msg)"
    using ne by (simp add: path_join_def file_path_def)
  with full form show "path_join (isolateDirClean st msg) (m_Name msg) = file_path st msg"
    by (simp add: clean_render)
  show "path_dir (file_path st msg) = isolateDirClean st msg"
    unfolding full cs(1) by (rule path_dir_render [OF form cs(3)])
  show "file_path st msg \<notin> set (ancestors (isolateDirClean st msg))"
  proof
    assume "file_path st msg \<in> set (ancestors (isolateDirClean st msg))"
    then obtain k where "1 \<le> k" "k \<le> length cs" "render ?r (cs @ [m_Name msg]) = render ?r (take k cs)"
      unfolding cs(1) ancestors_render [OF cs(2,3)] full by auto
    with render_inj [OF form clean_form_take [OF cs(2), of k]] cs(3) have "cs @ [m_Name msg] = take k cs"
      by auto
    then have "length (cs @ [m_Name msg]) = length (take k cs)" by (rule arg_cong)
    with \<open>k \<le> length cs\<close> show False by simp
  qed
qed

lemma store_Write_plain:
  assumes name: "normal_comp (m_Name msg)" and free: "can_save st fs msg"
  obtains fs2 where "store_Write (\<lambda>_. False) disk st fs r msg
      = save_content (\<lambda>_. False) disk fs2 (file_path st msg) r msg"
    and "fs2 (file_path st msg) = fs (file_path st msg)"
    and "\<And>q. fs2 q \<noteq> fs q \<Longrightarrow> q \<in> set (ancestors (isolateDirClean st msg)) \<and> fs q = None \<and> fs2 q = Some Dir"
proof -
  let ?dir = "isolateDirClean st msg"
  obtain fs1 where m1: "mkdir_list (\<lambda>_. False) fs (ancestors ?dir) = (True, fs1)"
    using free mkdir_list_free unfolding can_save_def by blast
  have "list_all (\<lambda>a. \<forall>c. fs1 a \<noteq> Some (File c)) (ancestors ?dir)"
    using mkdir_list_done [OF m1] by (simp add: list_all_iff)
  then obtain fs2 where m2: "mkdir_list (\<lambda>_. False) fs1 (ancestors ?dir) = (True, fs2)"
    using mkdir_list_free by blast
  have changes: "q \<in> set (ancestors ?dir) \<and> fs q = None \<and> fs2 q = Some Dir" if "fs2 q \<noteq> fs q" for q
    using that mkdir_list_changes [OF m1, of q] mkdir_list_changes [OF m2, of q] by metis
  then have "fs2 (file_path st msg) = fs (file_path st msg)"
    using plain_path(3) [OF name, of st] by blast
  moreover have "m_Name msg \<noteq> []" using name by (simp add: normal_comp_def)
  moreover have "has_prefix (file_path st msg) (?dir @ [slash])"
    by (simp add: file_path_def has_prefix_iff)
  ultimately show thesis
    using m1 m2 plain_path(1,2) [OF name, of st] changes
    by (intro that [of fs2]) (simp_all add: store_Write_def Let_def MkdirAll_def)
qed

lemma store_Write_saves:
  assumes "normal_comp (m_Name msg)" and "can_save st fs msg" and new: "fs (file_path st msg) = None"
    and len: "m_ContentLength msg = of_nat (length c)" "length c < 2 ^ 63" "length c \<le> disk"
  shows "\<exists>fs'. store_Write (\<lambda>_. False) disk st fs \<lparr>r_bytes = c, r_err = e\<rparr> msg = ((file_path st msg, None), fs')
    \<and> fs' (file_path st msg) = Some (File c)
    \<and> (\<forall>q. q \<noteq> file_path st msg \<longrightarrow> fs' q \<noteq> fs q \<longrightarrow>
          q \<in> set (ancestors (isolateDirClean st msg)) \<and> fs q = None \<and> fs' q = Some Dir)"
proof -
  obtain fs2 where "store_Write (\<lambda>_. False) disk st fs \<lparr>r_bytes = c, r_err = e\<rparr> msg
      = save_content (\<lambda>_. False) disk fs2 (file_path st msg) \<lparr>r_bytes = c, r_err = e\<rparr> msg"
    and "fs2 (file_path st msg) = fs (file_path st msg)"
    and "\<And>q. fs2 q \<noteq> fs q \<Longrightarrow> q \<in> set (ancestors (isolateDirClean st msg)) \<and> fs q = None \<and> fs2 q = Some Dir"
    using store_Write_plain [OF assms(1,2)] by blast
  with new len show ?thesis
    by (simp add: save_content_def os_Create_def copy_limited_def Let_def sint_of_nat_small)
qed

text \<open>A file of the announced size that is already there is taken for the one that arrives.\<close>

lemma store_Write_exists:
  assumes "normal_comp (m_Name msg)" and "can_save st fs msg"
    and "fs (file_path st msg) = Some (File c)" and "m_ContentLength msg = of_nat (length c)"
  shows "\<exists>fs'. store_Write (\<lambda>_. False) disk st fs r msg = ((file_path st msg, Some ErrFileExists), fs')
    \<and> fs' (file_path st msg) = Some (File c)"
proof -
  obtain fs2 where "store_Write (\<lambda>_. False) disk st fs r msg
      = save_content (\<lambda>_. False) disk fs2 (file_path st msg) r msg"
    and "fs2 (file_path st msg) = fs (file_path st msg)"
    using store_Write_plain [OF assms(1,2)] by blast
  with assms(3,4) show ?thesis by (simp add: save_content_def)
qed

section \<open>Properties\<close>

text \<open>C23. Whatever file name a peer sends, and however the operating system behaves, a write creates or
  changes nothing outside the directory of its message: only that directory, the directories leading
  to it, and paths strictly below it whose components are proper names.\<close>

theorem store_confined:
  assumes "store_Write deny disk st fs r msg = (res, fs')" and "fs' q \<noteq> fs q"
  shows "(q \<in> set (ancestors (isolateDirClean st msg)) \<and> fs q = None \<and> fs' q = Some Dir)
    \<or> below (isolateDirClean st msg) q"
proof -
  obtain p err where res: "res = (p, err)" by (cases res) auto
  show ?thesis
    using assms(1)[unfolded res]
  proof (cases rule: store_Write_cases)
    case early
    with assms(2) show ?thesis by auto
  next
    case (saved full fs2)
    show ?thesis
    proof (cases "q = full")
      case False
      with save_content_changes(1) [OF saved(1), of q] have "fs' q = fs2 q" by auto
      with saved(4) [of q] assms(2) show ?thesis by auto
    qed (simp add: saved(2))
  qed
qed

definition sample_store :: file_store where
  "sample_store = \<lparr>baseDir = str ''/d''\<rparr>"

definition sample_file :: "gostring \<Rightarrow> message" where
  "sample_file name = zero_message\<lparr>m_ID := 7, m_Name := name, m_ContentLength := 3\<rparr>"

theorem store_confined_witness:
  "below (isolateDirClean sample_store (sample_file (str ''a''))) (str ''/d/7/a'')"
proof -
  let ?w = "store_Write (\<lambda>_. False) 9 sample_store Map.empty \<lparr>r_bytes = [1, 2, 3, 4], r_err = EOF\<rparr> (sample_file (str ''a''))"
  have w: "?w = (fst ?w, snd ?w)" by simp
  have "snd ?w (str ''/d/7/a'') = Some (File [1, 2, 3])" by code_simp
  with store_confined [OF w, of "str ''/d/7/a''"] show ?thesis by auto
qed



end
