(* ===== verification/Peer.thy ===== *)
theory Peer
  imports Protocol Channels Batch FileStore
begin

text \<open>
  A connected peer (\<open>internal/peer/peer.go\<close>): the handling of one incoming stream and the sending of
  an event on a new one. The channel, the batch collector and the file system are shared with the
  rest of the node: they are the \<open>world\<close> each handler takes and returns. A stream opened for sending
  accepts \<open>o_limit\<close> bytes and then fails. An outer \<open>None\<close> is a panic. Deadlines only turn into stream
  errors, and every node passes its collector, so the nil test of \<open>sendNack\<close> always holds.
\<close>

section \<open>Streams\<close>

record out =
  o_bytes :: "byte list"
  o_limit :: nat
  o_err :: io_error

definition out_put :: "out \<Rightarrow> byte list \<Rightarrow> io_error option \<times> out" where
  "out_put w b =
     (let room = o_limit w - length (o_bytes w) in
      if length b \<le> room then (None, w\<lparr>o_bytes := o_bytes w @ b\<rparr>)
      else (Some (o_err w), w\<lparr>o_bytes := o_bytes w @ take room b\<rparr>))"

datatype peer_error =
    ErrOpenStream io_error
  | ErrWriteEvent protocol_error
  | ErrWriteRaw io_error
  | ErrDecodeEvent protocol_error
  | ErrUnknownPayload
  | ErrTooLarge u64 u64
  | ErrStore store_error
  | ErrReadRaw io_error
  | ErrOpenFile gostring

text \<open>What \<open>raw\<close> is: nothing, bytes, or a source whose reading fails.\<close>

datatype raw_source = NoRaw | RawBytes "byte list" | RawFails io_error

definition WriteContext ::
  "helpers \<Rightarrow> io_error + out \<Rightarrow> any_event \<Rightarrow> raw_source \<Rightarrow> (peer_error option \<times> out option) option" where
  "WriteContext H open_stream meta raw =
     (case open_stream of
        Inl e \<Rightarrow> Some (Some (ErrOpenStream e), None)
      | Inr w \<Rightarrow>
          (case WriteEvent H out_put w new_encode_buffer (AnEvent meta) of
             None \<Rightarrow> None
           | Some (Some e, w', _) \<Rightarrow> Some (Some (ErrWriteEvent e), Some w')
           | Some (None, w', _) \<Rightarrow>
               (case raw of
                  NoRaw \<Rightarrow> Some (None, Some w')
                | RawFails e \<Rightarrow> Some (Some (ErrWriteRaw e), Some w')
                | RawBytes bs \<Rightarrow>
                    (let (err, w'') = out_put w' bs in Some (map_option ErrWriteRaw err, Some w'')))))"

definition RequestMessage ::
  "helpers \<Rightarrow> io_error + out \<Rightarrow> i64 \<Rightarrow> gotime \<Rightarrow> i64 \<Rightarrow> (peer_error option \<times> out option) option" where
  "RequestMessage H open_stream myID now i = WriteContext H open_stream (EventRequest (NewRequest myID now i)) NoRaw"

section \<open>Errors that mean the connection is gone\<close>

definition closed_texts :: "gostring list" where
  "closed_texts = [str ''closed'', str ''application error 0x0'', str ''unreachable'', str ''reset'',
     str ''broken pipe'', str ''wsasendto'', str ''timeout'', str ''refused'']"

text \<open>\<open>known\<close>: the error is \<open>context.Canceled\<close>, \<open>net.ErrClosed\<close> or \<open>io.EOF\<close>; \<open>text\<close> is its message.\<close>

definition isConnClosed :: "(gostring \<Rightarrow> gostring) \<Rightarrow> bool \<Rightarrow> gostring \<Rightarrow> bool" where
  "isConnClosed uni known txt \<longleftrightarrow>
     (if known then True else list_ex (contains (to_lower uni txt)) closed_texts)"

section \<open>Handlers\<close>

record world =
  w_channel :: channel
  w_batches :: collector
  w_fs :: fs

text \<open>What a peer is configured with, and the answers of the operating system.\<close>

record peer_env =
  e_helpers :: helpers
  e_AsTime :: as_time
  fileWriter :: file_store
  maxReceiveSize :: u64
  os_deny :: "gostring \<Rightarrow> bool"
  os_disk :: nat

definition sendNack :: "collector \<Rightarrow> message \<Rightarrow> collector" where
  "sendNack c em = (if m_BatchID em \<noteq> 0 then snd (Add c (em\<lparr>m_Data := []\<rparr>)) else c)"

definition deliver :: "world \<Rightarrow> event_message \<Rightarrow> (peer_error option \<times> world) option" where
  "deliver W em =
     (case Send (w_channel W) em of None \<Rightarrow> None | Some c \<Rightarrow> Some (None, W\<lparr>w_channel := c\<rparr>))"

definition handleMessage ::
  "peer_env \<Rightarrow> world \<Rightarrow> event_message \<Rightarrow> reader \<Rightarrow> (peer_error option \<times> world) option" where
  "handleMessage E W em stream =
     (let p = Payload em; W_nack = W\<lparr>w_batches := sendNack (w_batches W) p\<rparr> in
      if maxReceiveSize E < m_ContentLength p then
        Some (Some (ErrTooLarge (m_ContentLength p) (maxReceiveSize E)), W_nack)
      else if IsPath (m_MimeType p) then
        (let ((filePath, err), fs') = store_Write (os_deny E) (os_disk E) (fileWriter E) (w_fs W) stream p in
         case err of
           Some e \<Rightarrow>
             if e = ErrFileExists then deliver (W\<lparr>w_fs := fs'\<rparr>) (em\<lparr>Payload := p\<lparr>m_Data := filePath\<rparr>\<rparr>)
             else Some (Some (ErrStore e), W_nack\<lparr>w_fs := fs'\<rparr>)
         | None \<Rightarrow> deliver (W\<lparr>w_fs := fs'\<rparr>) (em\<lparr>Payload := p\<lparr>m_Data := filePath\<rparr>\<rparr>))
      else if 2 ^ 63 \<le> unat (m_ContentLength p) then None
      else
        (case ReadFull (unat (m_ContentLength p)) stream of
           (Inl e, _) \<Rightarrow> Some (Some (ErrReadRaw e), W_nack)
         | (Inr dat, _) \<Rightarrow> deliver W (em\<lparr>Payload := p\<lparr>m_Data := dat\<rparr>\<rparr>)))"

definition raw_of :: "fs \<Rightarrow> message \<Rightarrow> raw_source option" where
  "raw_of fs m =
     (if IsPath (m_MimeType m) then
        (case fs (m_Data m) of
           None \<Rightarrow> None
         | Some Dir \<Rightarrow> Some (RawFails (IOErr (str ''is a directory'')))
         | Some (File c) \<Rightarrow> Some (RawBytes c))
      else Some (RawBytes (m_Data m)))"

text \<open>The cancellation of the stream by the receiver is no error.\<close>

fun stream_canceled :: "peer_error \<Rightarrow> bool" where
  "stream_canceled (ErrOpenStream e) = (e = StreamCanceled)"
| "stream_canceled (ErrWriteRaw e) = (e = StreamCanceled)"
| "stream_canceled (ErrWriteEvent e) = (e = PWrite (FIo StreamCanceled))"
| "stream_canceled _ = False"

definition handleRequest ::
  "helpers \<Rightarrow> fs \<Rightarrow> io_error + out \<Rightarrow> event_message \<Rightarrow> event_request \<Rightarrow> (peer_error option \<times> out option) option" where
  "handleRequest H fs open_stream ev req =
     (if m_ID (Payload ev) \<noteq> r_ID (Payload req) then Some (None, None)
      else
        (case raw_of fs (Payload ev) of
           None \<Rightarrow> Some (Some (ErrOpenFile (m_Data (Payload ev))), None)
         | Some raw \<Rightarrow>
             (case WriteContext H open_stream (EventMessage ev) raw of
                None \<Rightarrow> None
              | Some (err, w) \<Rightarrow>
                  Some (case err of None \<Rightarrow> None | Some e \<Rightarrow> if stream_canceled e then None else Some e, w))))"

text \<open>One incoming stream; the second result is what was sent back on a new stream.\<close>

definition handleStream ::
  "peer_env \<Rightarrow> io_error + out \<Rightarrow> world \<Rightarrow> reader \<Rightarrow> (peer_error option \<times> out option \<times> world) option" where
  "handleStream E open_stream W stream =
     (case DecodeEvent (e_helpers E) (e_AsTime E) stream of
        None \<Rightarrow> None
      | Some (Inl e, _) \<Rightarrow> Some (Some (ErrDecodeEvent e), None, W)
      | Some (Inr ev, stream') \<Rightarrow>
          (case ev of
             EventMessage payload \<Rightarrow>
               (case handleMessage E W payload stream' of None \<Rightarrow> None | Some (err, W') \<Rightarrow> Some (err, None, W'))
           | EventAnnounce payload \<Rightarrow>
               (case Announce (w_channel W) payload of
                  None \<Rightarrow> None
                | Some c \<Rightarrow> Some (None, None, W\<lparr>w_channel := c\<rparr>))
           | EventRequest payload \<Rightarrow>
               (case Get (w_channel W) (r_ID (Payload payload)) of
                  None \<Rightarrow> Some (None, None, W)
                | Some em \<Rightarrow>
                    (case handleRequest (e_helpers E) (w_fs W) open_stream em payload of
                       None \<Rightarrow> None
                     | Some (err, w) \<Rightarrow> Some (err, w, W)))
           | EventHandshake _ \<Rightarrow> Some (Some ErrUnknownPayload, None, W)))"

text \<open>
  What \<open>Receive\<close> gets from the connection: a stream, an error of \<open>AcceptStream\<close>, or the end of its
  context. The streams are handled one after the other here, in the order they are accepted; the
  code starts a goroutine for each. The result is \<open>None\<close> as long as the loop waits.
\<close>

datatype accepted =
    AcceptStream reader "io_error + out"
  | AcceptError bool gostring
  | ContextDone

fun Receive ::
  "(gostring \<Rightarrow> gostring) \<Rightarrow> peer_env \<Rightarrow> world \<Rightarrow> accepted list \<Rightarrow> (gostring option option \<times> world) option" where
  "Receive uni E W [] = Some (None, W)"
| "Receive uni E W (AcceptStream r open_stream # as) =
     (case handleStream E open_stream W r of None \<Rightarrow> None | Some (_, _, W') \<Rightarrow> Receive uni E W' as)"
| "Receive uni E W (AcceptError known txt # as) =
     Some (Some (if isConnClosed uni known txt then None else Some txt), W)"
| "Receive uni E W (ContextDone # as) = Some (Some None, W)"

section \<open>Invariant\<close>

definition world_ok :: "world \<Rightarrow> bool" where
  "world_ok W \<longleftrightarrow> channel_ok (w_channel W) \<and> collector_ok (w_batches W)"

lemma collector_ok_nack [inv_intros]: "collector_ok c \<Longrightarrow> collector_ok (sendNack c m)"
  by (simp add: sendNack_def collector_ok_Add)

lemma deliver_ok: "world_ok W \<Longrightarrow> \<exists>W'. deliver W em = Some (None, W') \<and> world_ok W'"
  using Send_ok [of "w_channel W" em] by (auto simp: deliver_def world_ok_def)

lemma world_ok_nack: "world_ok W \<Longrightarrow> world_ok (W\<lparr>w_batches := sendNack (w_batches W) m\<rparr>)"
  by (simp add: world_ok_def collector_ok_nack)

lemma world_ok_fs [simp]: "world_ok (W\<lparr>w_fs := fs\<rparr>) = world_ok W"
  by (simp add: world_ok_def)

lemma handleMessage_ok:
  assumes W: "world_ok W" and max: "unat (maxReceiveSize E) < 2 ^ 63"
  shows "\<exists>err W'. handleMessage E W em stream = Some (err, W') \<and> world_ok W'"
proof (cases "maxReceiveSize E < m_ContentLength (Payload em)")
  case True
  with W show ?thesis by (simp add: handleMessage_def Let_def world_ok_nack)
next
  case False
  then have small: "\<not> 2 ^ 63 \<le> unat (m_ContentLength (Payload em))"
    using max by (simp add: word_less_nat_alt)
  have del: "\<exists>err W'. deliver W1 m = Some (err, W') \<and> world_ok W'" if "world_ok W1" for W1 m
    using deliver_ok [OF that] by blast
  show ?thesis
  proof (cases "IsPath (m_MimeType (Payload em))")
    case True
    obtain p err fs' where w: "store_Write (os_deny E) (os_disk E) (fileWriter E) (w_fs W) stream (Payload em)
        = ((p, err), fs')" by (metis surj_pair)
    show ?thesis
      using False True w W del [of "W\<lparr>w_fs := fs'\<rparr>"] world_ok_nack [OF W]
      by (auto simp: handleMessage_def Let_def split: option.split)
  next
    case nopath: False
    obtain x r' where "ReadFull (unat (m_ContentLength (Payload em))) stream = (x, r')" by fastforce
    with False nopath small W del [OF W] world_ok_nack [OF W] show ?thesis
      by (cases x) (auto simp: handleMessage_def Let_def)
  qed
qed

lemma WriteEvent_returns:
  assumes "helpers_ok H"
  shows "WriteEvent H put w old v \<noteq> None"
proof (cases "Encode H v")
  case None
  then show ?thesis
    by (cases v) (simp_all add: Encode_event [OF assms], simp add: Encode_def)
next
  case (Some r)
  show ?thesis
  proof (cases v)
    case (OtherValue n)
    then show ?thesis by (simp add: WriteEvent_def)
  next
    case (AnEvent ev)
    obtain err w' arr where "EncodeToWriter put w old (Event_SizeVT H (Some (the_proto ev)))
        (Event_MarshalToSizedBufferVT H (Some (the_proto ev))) = Some (err, w', arr)"
      using event_codec.encode_to_writer [OF assms, of put w old "the_proto ev"] by blast
    with AnEvent show ?thesis
      by (simp add: WriteEvent_def MapToProto_some del: Event_SizeVT.simps Event_MarshalToSizedBufferVT.simps)
  qed
qed

lemma WriteContext_returns:
  assumes "helpers_ok H"
  shows "WriteContext H op ev raw \<noteq> None"
proof (cases op)
  case (Inr w)
  obtain err w' arr where "WriteEvent H out_put w new_encode_buffer (AnEvent ev) = Some (err, w', arr)"
    using WriteEvent_returns [OF assms, of out_put w new_encode_buffer "AnEvent ev"] by auto
  with Inr show ?thesis
    by (cases err) (simp_all add: WriteContext_def Let_def split: raw_source.split prod.split)
qed (simp add: WriteContext_def)

lemma handleRequest_returns: "helpers_ok H \<Longrightarrow> handleRequest H fs op ev req \<noteq> None"
  using WriteContext_returns [of H]
  by (auto simp: handleRequest_def simp del: not_None_eq split: option.split prod.split)

lemma handleStream_ok:
  assumes H: "helpers_ok (e_helpers E)" and W: "world_ok W" and max: "unat (maxReceiveSize E) < 2 ^ 63"
  shows "\<exists>err o' W'. handleStream E op W stream = Some (err, o', W') \<and> world_ok W'"
proof -
  obtain x r' where d: "DecodeEvent (e_helpers E) (e_AsTime E) stream = Some (x, r')"
    using DecodeEvent_returns [OF H, of "e_AsTime E" stream] by auto
  show ?thesis
  proof (cases x)
    case (Inl e)
    with d W show ?thesis by (simp add: handleStream_def)
  next
    case (Inr ev)
    show ?thesis
    proof (cases ev)
      case (EventMessage m)
      with d Inr handleMessage_ok [OF W max, of m r'] show ?thesis by (auto simp: handleStream_def)
    next
      case (EventAnnounce a)
      with d Inr Announce_ok [of "w_channel W" a] W show ?thesis
        by (auto simp: handleStream_def world_ok_def)
    next
      case (EventRequest q)
      show ?thesis
      proof (cases "Get (w_channel W) (r_ID (Payload q))")
        case None
        with d Inr W EventRequest show ?thesis by (simp add: handleStream_def)
      next
        case (Some em)
        obtain err w where "handleRequest (e_helpers E) (w_fs W) op em q = Some (err, w)"
          using handleRequest_returns [OF H, of "w_fs W" op em q] by auto
        with d Inr W EventRequest Some show ?thesis by (simp add: handleStream_def)
      qed
    next
      case (EventHandshake h)
      with d Inr W show ?thesis by (simp add: handleStream_def)
    qed
  qed
qed

lemma Receive_ok:
  assumes "helpers_ok (e_helpers E)" and "unat (maxReceiveSize E) < 2 ^ 63" and "world_ok W"
  shows "\<exists>r W'. Receive uni E W as = Some (r, W') \<and> world_ok W'"
  using assms(3)
proof (induction as arbitrary: W)
  case (Cons a as)
  show ?case
  proof (cases a)
    case (AcceptStream r op)
    obtain err o' W' where "handleStream E op W r = Some (err, o', W')" "world_ok W'"
      using handleStream_ok [OF assms(1) Cons.prems assms(2)] by blast
    with AcceptStream Cons.IH [of W'] show ?thesis by simp
  qed (simp_all add: Cons.prems)
qed simp

section \<open>Sending\<close>

text \<open>A stream with room for everything.\<close>

definition open_out :: "nat \<Rightarrow> out" where
  "open_out n = \<lparr>o_bytes = [], o_limit = n, o_err = EOF\<rparr>"

definition raw_bytes :: "raw_source \<Rightarrow> byte list" where
  "raw_bytes raw = (case raw of RawBytes bs \<Rightarrow> bs | _ \<Rightarrow> [])"

lemma WriteContext_sends:
  assumes H: "helpers_ok H" and room: "length (event_wire H ev) + length (raw_bytes raw) \<le> n"
    and raw: "\<forall>e. raw \<noteq> RawFails e"
  shows "\<exists>w. WriteContext H (Inr (open_out n)) ev raw = Some (None, Some w)
    \<and> o_bytes w = event_wire H ev @ raw_bytes raw"
proof -
  obtain arr where "WriteEvent H out_put (open_out n) new_encode_buffer (AnEvent ev)
      = Some (map_option (PWrite \<circ> FIo) (fst (out_put (open_out n) (event_wire H ev))),
          snd (out_put (open_out n) (event_wire H ev)), arr)"
    using write_wire [OF H, of out_put "open_out n" new_encode_buffer ev] by blast
  moreover have "out_put (open_out n) (event_wire H ev) = (None, (open_out n)\<lparr>o_bytes := event_wire H ev\<rparr>)"
    using room by (simp add: out_put_def open_out_def)
  ultimately have "WriteEvent H out_put (open_out n) new_encode_buffer (AnEvent ev)
      = Some (None, (open_out n)\<lparr>o_bytes := event_wire H ev\<rparr>, arr)" by simp
  with room raw show ?thesis
    by (cases raw) (simp_all add: WriteContext_def raw_bytes_def out_put_def open_out_def Let_def)
qed

lemma handleRequest_sends:
  assumes "helpers_ok H" and "m_ID (Payload em) = r_ID (Payload req)" and "raw_of fs (Payload em) = Some (RawBytes bs)"
    and "length (event_wire H (EventMessage em)) + length bs \<le> n"
  shows "\<exists>w. handleRequest H fs (Inr (open_out n)) em req = Some (None, Some w)
    \<and> o_bytes w = event_wire H (EventMessage em) @ bs"
  using WriteContext_sends [OF assms(1), of "EventMessage em" "RawBytes bs" n] assms(2-4)
  by (auto simp: handleRequest_def raw_bytes_def)

section \<open>Receiving\<close>

definition arrived :: "event_message \<Rightarrow> byte list \<Rightarrow> event_message" where
  "arrived em dat = em\<lparr>From := Author (m_ID (Payload em)),
     Payload := (Payload em)\<lparr>m_Data := dat, m_MimeType := received_mime (m_MimeType (Payload em))\<rparr>\<rparr>"

lemma handleStream_message:
  assumes "helpers_ok (e_helpers E)" and "as_time_ok (e_AsTime E)" and "sendable (e_helpers E) (EventMessage em)"
  shows "handleStream E op W \<lparr>r_bytes = event_wire (e_helpers E) (EventMessage em) @ bs, r_err = e\<rparr>
    = (case handleMessage E W (arrived em []) \<lparr>r_bytes = bs, r_err = e\<rparr> of
         None \<Rightarrow> None | Some (err, W') \<Rightarrow> Some (err, None, W'))"
  by (simp add: handleStream_def DecodeEvent_wire [OF assms] arrived_def)

lemma handleMessage_bytes:
  assumes "\<not> maxReceiveSize E < m_ContentLength (Payload em)" and "\<not> IsPath (received_mime (m_MimeType (Payload em)))"
    and "length dat = unat (m_ContentLength (Payload em))" and "length dat < 2 ^ 63"
  shows "handleMessage E W (arrived em []) \<lparr>r_bytes = dat @ rest, r_err = e\<rparr> = deliver W (arrived em dat)"
  using assms ReadFull_append [OF assms(3), of rest e]
  by (cases "Payload em") (simp add: handleMessage_def Let_def arrived_def)

lemma handleMessage_file:
  assumes "\<not> maxReceiveSize E < m_ContentLength (Payload em)" and "m_MimeType (Payload em) = TypePath"
    and "store_Write (os_deny E) (os_disk E) (fileWriter E) (w_fs W) stream (Payload (arrived em [])) = ((p, err), fs')"
    and "err = None \<or> err = Some ErrFileExists"
  shows "handleMessage E W (arrived em []) stream = deliver (W\<lparr>w_fs := fs'\<rparr>) (arrived em p)"
  using assms
  by (cases "Payload em") (auto simp: handleMessage_def Let_def arrived_def received_mime_def IsPath_def)

section \<open>Properties\<close>

text \<open>Whatever streams a peer opens and whatever bytes it sends on them, receiving from it never
  panics, and keeps the invariants of the channel and of the batch collector.\<close>

theorem peer_receive_safe:
  assumes "helpers_ok (e_helpers E)" and "world_ok W" and "unat (maxReceiveSize E) < 2 ^ 63"
  shows "\<exists>r W'. Receive uni E W streams = Some (r, W')
    \<and> channel_ok (w_channel W') \<and> collector_ok (w_batches W')"
  using Receive_ok [OF assms(1,3,2)] by (auto simp: world_ok_def)

definition sample_env :: peer_env where
  "sample_env = \<lparr>e_helpers = ref_helpers, e_AsTime = ref_AsTime, fileWriter = sample_store,
     maxReceiveSize = 1000, os_deny = (\<lambda>_. False), os_disk = 100\<rparr>"

lemma sample_env_helpers [simp]: "e_helpers sample_env = ref_helpers" "e_AsTime sample_env = ref_AsTime"
  by (simp_all add: sample_env_def)

definition sample_world :: world where
  "sample_world = \<lparr>w_channel = New 1, w_batches = NewBatchCollector, w_fs = Map.empty\<rparr>"

lemma sample_world_ok: "world_ok sample_world"
  by (simp add: world_ok_def sample_world_def channel_ok_New collector_ok_new)

theorem peer_receive_safe_witness:
  "\<exists>r W'. Receive (\<lambda>s. s) sample_env sample_world
     [AcceptStream \<lparr>r_bytes = [0, 0, 0, 2, 18, 255], r_err = EOF\<rparr> (Inl EOF), AcceptError False (str ''reset'')]
     = Some (r, W')"
proof -
  have "unat (maxReceiveSize sample_env) < 2 ^ 63" by (simp add: sample_env_def)
  with peer_receive_safe [of sample_env sample_world "\<lambda>s. s"
      "[AcceptStream \<lparr>r_bytes = [0, 0, 0, 2, 18, 255], r_err = EOF\<rparr> (Inl EOF), AcceptError False (str ''reset'')]"]
    ref_helpers_ok sample_world_ok show ?thesis
    by auto
qed

text \<open>A requested text or image reaches the other node unchanged: the bytes one node sends in answer
  to a request, handled by the node at the other end of the stream, put the message into that
  node's channel with exactly the payload the sender holds.\<close>

theorem message_transfer:
  assumes "helpers_ok (e_helpers E)" and "as_time_ok (e_AsTime E)"
    and "sendable (e_helpers E) (EventMessage em)" and "world_ok W"
    and "received_mime (m_MimeType (Payload em)) \<noteq> TypePath"
    and "length (m_Data (Payload em)) = unat (m_ContentLength (Payload em))"
    and "m_ContentLength (Payload em) \<le> maxReceiveSize E" and "unat (maxReceiveSize E) < 2 ^ 63"
    and "m_ID (Payload em) = r_ID (Payload req)"
    and "length (event_wire (e_helpers E) (EventMessage em)) + length (m_Data (Payload em)) \<le> n"
  shows "\<exists>w c. handleRequest (e_helpers E) fs (Inr (open_out n)) em req = Some (None, Some w)
    \<and> Send (w_channel W) (arrived em (m_Data (Payload em))) = Some c
    \<and> handleStream E op W \<lparr>r_bytes = o_bytes w, r_err = EOF\<rparr> = Some (None, None, W\<lparr>w_channel := c\<rparr>)"
proof -
  let ?dat = "m_Data (Payload em)"
  have path: "\<not> IsPath (m_MimeType (Payload em))" "\<not> IsPath (received_mime (m_MimeType (Payload em)))"
    using assms(5) by (auto simp: IsPath_def received_mime_def)
  have len: "length ?dat < 2 ^ 63"
    using assms(6-8) by (simp add: word_le_nat_alt)
  obtain w where w: "handleRequest (e_helpers E) fs (Inr (open_out n)) em req = Some (None, Some w)"
    "o_bytes w = event_wire (e_helpers E) (EventMessage em) @ ?dat"
    using handleRequest_sends [OF assms(1,9), of fs ?dat n] path(1) assms(10) by (auto simp: raw_of_def)
  obtain c where c: "Send (w_channel W) (arrived em ?dat) = Some c"
    using Send_ok [of "w_channel W"] assms(4) by (auto simp: world_ok_def)
  have "handleMessage E W (arrived em []) \<lparr>r_bytes = ?dat, r_err = EOF\<rparr> = Some (None, W\<lparr>w_channel := c\<rparr>)"
    using handleMessage_bytes [OF _ path(2) assms(6) len, of E W "[]" EOF] assms(7) c
    by (simp add: deliver_def not_less)
  then have "handleStream E op W \<lparr>r_bytes = o_bytes w, r_err = EOF\<rparr> = Some (None, None, W\<lparr>w_channel := c\<rparr>)"
    unfolding w(2) handleStream_message [OF assms(1-3)] by simp
  with w(1) c show ?thesis by blast
qed

definition sample_text :: event_message where
  "sample_text = \<lparr>From = 3, Created = sample_time, Payload = zero_message\<lparr>m_ID := 5, m_Data := [104, 105],
     m_ContentHash := 9, m_ContentLength := 2\<rparr>\<rparr>"

lemma sample_text_sendable: "sendable ref_helpers (EventMessage sample_text)"
proof -
  have "Event_SizeVT ref_helpers (Some (the_proto (EventMessage sample_text))) = 22" by code_simp
  then show ?thesis
    by (simp add: sendable_def time_ok_def sample_text_def sample_time_def del: Event_SizeVT.simps)
qed

theorem message_transfer_witness:
  "\<exists>w c. handleRequest ref_helpers Map.empty (Inr (open_out 100)) sample_text (NewRequest 1 sample_time 5)
      = Some (None, Some w)
    \<and> handleStream sample_env (Inl EOF) sample_world \<lparr>r_bytes = o_bytes w, r_err = EOF\<rparr>
      = Some (None, None, sample_world\<lparr>w_channel := c\<rparr>)"
proof -
  have len: "length (event_wire ref_helpers (EventMessage sample_text)) = 26" by code_simp
  have "\<exists>w c. handleRequest (e_helpers sample_env) Map.empty (Inr (open_out 100)) sample_text (NewRequest 1 sample_time 5)
      = Some (None, Some w)
    \<and> Send (w_channel sample_world) (arrived sample_text (m_Data (Payload sample_text))) = Some c
    \<and> handleStream sample_env (Inl EOF) sample_world \<lparr>r_bytes = o_bytes w, r_err = EOF\<rparr>
      = Some (None, None, sample_world\<lparr>w_channel := c\<rparr>)"
    by (rule message_transfer)
      (simp_all add: sample_env_def ref_helpers_ok ref_AsTime_ok sample_text_sendable sample_world_ok len,
       simp_all add: sample_text_def zero_message_def received_mime_def NewRequest_def NewEvent_def)
  then show ?thesis by (auto simp: sample_env_def)
qed

text \<open>C20. A requested file reaches the other node unchanged: if the receiving node can write and has no
  file under that name, the bytes of the sender's file end up in a file of its store, below the
  directory of the batch or message, and the path of that file goes into the node's channel.\<close>

theorem file_transfer:
  assumes "helpers_ok (e_helpers E)" and "as_time_ok (e_AsTime E)"
    and "sendable (e_helpers E) (EventMessage em)" and "world_ok W"
    and "m_MimeType (Payload em) = TypePath" and "normal_comp (m_Name (Payload em))"
    and "fs (m_Data (Payload em)) = Some (File c)"
    and "m_ContentLength (Payload em) = of_nat (length c)" and "length c < 2 ^ 63"
    and "m_ContentLength (Payload em) \<le> maxReceiveSize E"
    and "os_deny E = (\<lambda>_. False)" and "length c \<le> os_disk E"
    and "can_save (fileWriter E) (w_fs W) (Payload em)"
    and "w_fs W (file_path (fileWriter E) (Payload em)) = None"
    and "m_ID (Payload em) = r_ID (Payload req)"
    and "length (event_wire (e_helpers E) (EventMessage em)) + length c \<le> n"
  shows "\<exists>w ch fs'. handleRequest (e_helpers E) fs (Inr (open_out n)) em req = Some (None, Some w)
    \<and> handleStream E op W \<lparr>r_bytes = o_bytes w, r_err = EOF\<rparr>
        = Some (None, None, W\<lparr>w_fs := fs', w_channel := ch\<rparr>)
    \<and> fs' (file_path (fileWriter E) (Payload em)) = Some (File c)
    \<and> Send (w_channel W) (arrived em (file_path (fileWriter E) (Payload em))) = Some ch"
proof -
  let ?path = "file_path (fileWriter E) (Payload em)"
  let ?p = "Payload (arrived em [])"
  have same: "file_path (fileWriter E) ?p = ?path" "can_save (fileWriter E) (w_fs W) ?p = can_save (fileWriter E) (w_fs W) (Payload em)"
    "m_Name ?p = m_Name (Payload em)" "m_ContentLength ?p = m_ContentLength (Payload em)"
    by (simp_all add: arrived_def file_path_def can_save_def isolateDirClean_def isolate_name_def)
  obtain w where w: "handleRequest (e_helpers E) fs (Inr (open_out n)) em req = Some (None, Some w)"
    "o_bytes w = event_wire (e_helpers E) (EventMessage em) @ c"
    using handleRequest_sends [OF assms(1,15), of fs c n] assms(5,7,16) by (auto simp: raw_of_def IsPath_def)
  obtain fs' where fs': "store_Write (\<lambda>_. False) (os_disk E) (fileWriter E) (w_fs W) \<lparr>r_bytes = c, r_err = EOF\<rparr> ?p
      = ((?path, None), fs')" "fs' ?path = Some (File c)"
    using store_Write_saves [of ?p "fileWriter E" "w_fs W" c "os_disk E" EOF] assms(6,8,9,12,13,14)
    unfolding same by blast
  obtain ch where ch: "Send (w_channel W) (arrived em ?path) = Some ch"
    using Send_ok [of "w_channel W"] assms(4) by (auto simp: world_ok_def)
  have "handleMessage E W (arrived em []) \<lparr>r_bytes = c, r_err = EOF\<rparr>
      = Some (None, W\<lparr>w_fs := fs', w_channel := ch\<rparr>)"
    using handleMessage_file [of E em W _ ?path None fs'] assms(5,10,11) fs'(1) ch
    by (simp add: deliver_def not_less)
  then have "handleStream E op W \<lparr>r_bytes = o_bytes w, r_err = EOF\<rparr>
      = Some (None, None, W\<lparr>w_fs := fs', w_channel := ch\<rparr>)"
    unfolding w(2) handleStream_message [OF assms(1-3)] by simp
  with w(1) ch fs'(2) show ?thesis by blast
qed

definition sample_path :: event_message where
  "sample_path = \<lparr>From = 3, Created = sample_time, Payload = zero_message\<lparr>m_ID := 5, m_Data := str ''/s/a'',
     m_MimeType := TypePath, m_Name := str ''a'', m_ContentHash := 9, m_ContentLength := 2\<rparr>\<rparr>"

lemma sample_path_sendable: "sendable ref_helpers (EventMessage sample_path)"
proof -
  have "Event_SizeVT ref_helpers (Some (the_proto (EventMessage sample_path))) < 100" by code_simp
  then show ?thesis
    by (simp add: sendable_def time_ok_def sample_path_def sample_time_def del: Event_SizeVT.simps)
qed

theorem file_transfer_witness:
  "\<exists>w ch fs'. handleRequest ref_helpers [str ''/s/a'' \<mapsto> File [1, 2]] (Inr (open_out 100)) sample_path
        (NewRequest 1 sample_time 5) = Some (None, Some w)
    \<and> handleStream sample_env (Inl EOF) sample_world \<lparr>r_bytes = o_bytes w, r_err = EOF\<rparr>
        = Some (None, None, sample_world\<lparr>w_fs := fs', w_channel := ch\<rparr>)
    \<and> fs' (str ''/d/5/a'') = Some (File [1, 2])"
proof -
  have len: "length (event_wire ref_helpers (EventMessage sample_path)) < 90" by code_simp
  have path: "file_path (fileWriter sample_env) (Payload sample_path) = str ''/d/5/a''" by code_simp
  have name: "normal_comp (m_Name (Payload sample_path))" by code_simp
  have "\<exists>w ch fs'. handleRequest (e_helpers sample_env) [str ''/s/a'' \<mapsto> File [1, 2]] (Inr (open_out 100)) sample_path
        (NewRequest 1 sample_time 5) = Some (None, Some w)
    \<and> handleStream sample_env (Inl EOF) sample_world \<lparr>r_bytes = o_bytes w, r_err = EOF\<rparr>
        = Some (None, None, sample_world\<lparr>w_fs := fs', w_channel := ch\<rparr>)
    \<and> fs' (file_path (fileWriter sample_env) (Payload sample_path)) = Some (File [1, 2])
    \<and> Send (w_channel sample_world) (arrived sample_path (file_path (fileWriter sample_env) (Payload sample_path))) = Some ch"
    using len name
    by (intro file_transfer)
      (simp_all add: sample_env_def ref_helpers_ok ref_AsTime_ok sample_path_sendable sample_world_ok,
       simp_all add: sample_path_def zero_message_def NewRequest_def NewEvent_def can_save_def sample_world_def list_all_iff)
  then show ?thesis unfolding path by (auto simp: sample_env_def)
qed

text \<open>C25. A file of the same name and size that the store already holds is taken for the requested one:
  whatever bytes follow, the old file stays as it is and its path goes into the channel. (For a file
  the store received before this saves the transfer; but the directory is shared by a batch, so of
  two different files of one batch with the same base name and size only the first arrives.)\<close>

theorem existing_file_trusted:
  assumes "helpers_ok (e_helpers E)" and "as_time_ok (e_AsTime E)"
    and "sendable (e_helpers E) (EventMessage em)" and "world_ok W"
    and "m_MimeType (Payload em) = TypePath" and "normal_comp (m_Name (Payload em))"
    and "os_deny E = (\<lambda>_. False)" and "can_save (fileWriter E) (w_fs W) (Payload em)"
    and "w_fs W (file_path (fileWriter E) (Payload em)) = Some (File old)"
    and "m_ContentLength (Payload em) = of_nat (length old)"
    and "m_ContentLength (Payload em) \<le> maxReceiveSize E"
  shows "\<exists>ch fs'. handleStream E op W \<lparr>r_bytes = event_wire (e_helpers E) (EventMessage em) @ c, r_err = e\<rparr>
        = Some (None, None, W\<lparr>w_fs := fs', w_channel := ch\<rparr>)
    \<and> fs' (file_path (fileWriter E) (Payload em)) = Some (File old)
    \<and> Send (w_channel W) (arrived em (file_path (fileWriter E) (Payload em))) = Some ch"
proof -
  let ?path = "file_path (fileWriter E) (Payload em)"
  let ?p = "Payload (arrived em [])"
  have same: "file_path (fileWriter E) ?p = ?path" "can_save (fileWriter E) (w_fs W) ?p = can_save (fileWriter E) (w_fs W) (Payload em)"
    "m_Name ?p = m_Name (Payload em)" "m_ContentLength ?p = m_ContentLength (Payload em)"
    by (simp_all add: arrived_def file_path_def can_save_def isolateDirClean_def isolate_name_def)
  obtain fs' where fs': "store_Write (\<lambda>_. False) (os_disk E) (fileWriter E) (w_fs W) \<lparr>r_bytes = c, r_err = e\<rparr> ?p
      = ((?path, Some ErrFileExists), fs')" "fs' ?path = Some (File old)"
    using store_Write_exists [of ?p "fileWriter E" "w_fs W" old "os_disk E" "\<lparr>r_bytes = c, r_err = e\<rparr>"] assms(6,8,9,10)
    unfolding same by blast
  obtain ch where ch: "Send (w_channel W) (arrived em ?path) = Some ch"
    using Send_ok [of "w_channel W"] assms(4) by (auto simp: world_ok_def)
  have "handleMessage E W (arrived em []) \<lparr>r_bytes = c, r_err = e\<rparr>
      = Some (None, W\<lparr>w_fs := fs', w_channel := ch\<rparr>)"
    using handleMessage_file [of E em W _ ?path "Some ErrFileExists" fs'] assms(5,7,11) fs'(1) ch
    by (simp add: deliver_def not_less)
  with ch fs'(2) show ?thesis
    unfolding handleStream_message [OF assms(1-3)] by auto
qed

theorem existing_file_trusted_witness:
  "\<exists>ch fs'. handleStream sample_env (Inl EOF) (sample_world\<lparr>w_fs := [str ''/d/5/a'' \<mapsto> File [8, 9]]\<rparr>)
        \<lparr>r_bytes = event_wire ref_helpers (EventMessage sample_path) @ [1, 2], r_err = EOF\<rparr>
      = Some (None, None, sample_world\<lparr>w_fs := fs', w_channel := ch\<rparr>)
    \<and> fs' (str ''/d/5/a'') = Some (File [8, 9])"
proof -
  let ?W = "sample_world\<lparr>w_fs := [str ''/d/5/a'' \<mapsto> File [8, 9]]\<rparr>"
  have path: "file_path (fileWriter sample_env) (Payload sample_path) = str ''/d/5/a''" by code_simp
  have name: "normal_comp (m_Name (Payload sample_path))" by code_simp
  have anc: "ancestors (isolateDirClean (fileWriter sample_env) (Payload sample_path)) = [str ''/d'', str ''/d/5'']"
    by code_simp
  have "can_save (fileWriter sample_env) (w_fs ?W) (Payload sample_path)"
    unfolding can_save_def anc by simp
  with name have "\<exists>ch fs'. handleStream sample_env (Inl EOF) ?W
        \<lparr>r_bytes = event_wire (e_helpers sample_env) (EventMessage sample_path) @ [1, 2], r_err = EOF\<rparr>
      = Some (None, None, ?W\<lparr>w_fs := fs', w_channel := ch\<rparr>)
    \<and> fs' (file_path (fileWriter sample_env) (Payload sample_path)) = Some (File [8, 9])
    \<and> Send (w_channel ?W) (arrived sample_path (file_path (fileWriter sample_env) (Payload sample_path))) = Some ch"
    by (intro existing_file_trusted)
      (simp_all add: path ref_AsTime_ok sample_path_sendable sample_world_ok,
       simp_all add: sample_env_def sample_path_def zero_message_def ref_helpers_ok ref_AsTime_ok)
  then show ?thesis unfolding path by (auto simp: sample_env_def)
qed

text \<open>C26. A part that cannot be received is counted as an empty part of its batch; if it is the last one
  outstanding, the batch is complete and its collector entry is removed, but nobody is told: the
  files that did arrive never get to the clipboard.\<close>

theorem last_nack_loses_batch:
  assumes "batch_parts b n (ms @ [Payload em])" and "ms \<noteq> []" and "unat n = Suc (length ms)" and "b \<noteq> 0"
    and "map_of (w_batches W) b = Some \<lparr>total = n, items = parts_items ms\<rparr>"
    and "maxReceiveSize E < m_ContentLength (Payload em)"
  shows "\<exists>W'. handleMessage E W em stream
      = Some (Some (ErrTooLarge (m_ContentLength (Payload em)) (maxReceiveSize E)), W')
    \<and> map_of (w_batches W') b = None \<and> w_channel W' = w_channel W"
proof -
  let ?m = "(Payload em)\<lparr>m_Data := []\<rparr>"
  have parts: "batch_parts b n (ms @ [?m])" and bid: "m_BatchID (Payload em) = b"
    using assms(1) by (simp_all add: batch_parts_def)
  have "unat n < 2 ^ 32" using unsigned_less [of n] by simp
  with Add_part [OF parts, of "w_batches W"] assms(2,3,5)
  have "snd (Add (w_batches W) ?m) = AList.delete b (w_batches W)" by simp
  then show ?thesis using assms(4,6) bid by (simp add: handleMessage_def Let_def sendNack_def)
qed

theorem last_nack_loses_batch_witness:
  "\<exists>W'. handleMessage sample_env
      (sample_world\<lparr>w_batches := [(9, \<lparr>total = 2, items = [(1, str ''/d/9/a'')]\<rparr>)]\<rparr>)
      \<lparr>From = 3, Created = sample_time, Payload = (part 2 9 2 [])\<lparr>m_ContentLength := 5000\<rparr>\<rparr> \<lparr>r_bytes = [], r_err = EOF\<rparr>
    = Some (Some (ErrTooLarge 5000 1000), W') \<and> map_of (w_batches W') 9 = None"
  using last_nack_loses_batch [of 9 2 "[part 1 9 2 (str ''/d/9/a'')]"
      "\<lparr>From = 3, Created = sample_time, Payload = (part 2 9 2 [])\<lparr>m_ContentLength := 5000\<rparr>\<rparr>"
      "sample_world\<lparr>w_batches := [(9, \<lparr>total = 2, items = [(1, str ''/d/9/a'')]\<rparr>)]\<rparr>" sample_env
      "\<lparr>r_bytes = [], r_err = EOF\<rparr>"]
  by (auto simp: batch_parts_def part_def zero_message_def parts_items_def sample_env_def)

text \<open>Audio, video and other binary contents cannot be received: the wire has no content type for
  them, so they arrive as a file whose name is empty, which the store refuses; nothing reaches the
  channel.\<close>

theorem binary_content_lost:
  assumes "helpers_ok (e_helpers E)" and "as_time_ok (e_AsTime E)"
    and "sendable (e_helpers E) (EventMessage em)"
    and "m_MimeType (Payload em) \<in> {TypeAudio, TypeVideo, TypeBinary}" and "m_Name (Payload em) = []"
    and "m_ContentLength (Payload em) \<le> maxReceiveSize E"
  shows "\<exists>W'. handleStream E op W \<lparr>r_bytes = event_wire (e_helpers E) (EventMessage em) @ bs, r_err = e\<rparr>
      = Some (Some (ErrStore ErrInvalidName), None, W') \<and> w_channel W' = w_channel W"
proof -
  have "received_mime (m_MimeType (Payload em)) = TypePath"
    using assms(4) by (auto simp: received_mime_def)
  with assms(5,6) show ?thesis
    unfolding handleStream_message [OF assms(1-3)]
    by (simp add: handleMessage_def Let_def arrived_def IsPath_def store_Write_def not_less)
qed

definition sample_video :: event_message where
  "sample_video = sample_text\<lparr>Payload := (Payload sample_text)\<lparr>m_MimeType := TypeVideo\<rparr>\<rparr>"

theorem binary_content_lost_witness:
  "\<exists>W'. handleStream sample_env (Inl EOF) sample_world
      \<lparr>r_bytes = event_wire ref_helpers (EventMessage sample_video) @ [104, 105], r_err = EOF\<rparr>
    = Some (Some (ErrStore ErrInvalidName), None, W') \<and> w_channel W' = w_channel sample_world"
proof -
  have "Event_SizeVT ref_helpers (Some (the_proto (EventMessage sample_video))) < 100" by code_simp
  then have "sendable ref_helpers (EventMessage sample_video)"
    by (simp add: sendable_def time_ok_def sample_video_def sample_text_def sample_time_def del: Event_SizeVT.simps)
  with binary_content_lost [of sample_env sample_video "Inl EOF" sample_world "[104, 105]" EOF] show ?thesis
    by (simp add: ref_helpers_ok ref_AsTime_ok sample_video_def sample_text_def zero_message_def sample_env_def)
qed

end
