(* ===== verification/Handshake.thy ===== *)
theory Handshake
  imports Peer Metadata
begin

text \<open>
  The handshake of two nodes (\<open>internal/node/handshake.go\<close>): each writes its greeting on one stream,
  reads the other's, and compares the versions. The side that accepted the connection accepts the
  stream, the other opens it; \<open>opened\<close> is what either call returned, the bytes that arrive on the
  stream and the outgoing side.
\<close>

datatype handshake_error =
    ErrOpenOrAccept io_error
  | ErrSendGreeting protocol_error
  | ErrReceiveGreeting protocol_error
  | ErrVersionMismatch

definition newHandshake :: "gostring \<Rightarrow> i64 \<Rightarrow> gotime \<Rightarrow> device \<Rightarrow> int \<Rightarrow> event_handshake" where
  "newHandshake version myID now meta port =
     NewGreet version myID now [WithMetadata meta, WithPort (word_of_int port)]"

definition openOrAcceptStream :: "'s \<Rightarrow> 's \<Rightarrow> bool \<Rightarrow> 's" where
  "openOrAcceptStream accept_stream open_stream accept = (if accept then accept_stream else open_stream)"

definition exchange ::
  "helpers \<Rightarrow> as_time \<Rightarrow> event_handshake \<Rightarrow> io_error + (reader \<times> out)
   \<Rightarrow> ((handshake_error + event_handshake) \<times> out option) option" where
  "exchange H AsTime my opened =
     (case opened of
        Inl e \<Rightarrow> Some (Inl (ErrOpenOrAccept e), None)
      | Inr (r, w) \<Rightarrow>
          (case WriteEvent H out_put w new_encode_buffer (AnEvent (EventHandshake my)) of
             None \<Rightarrow> None
           | Some (Some e, w', _) \<Rightarrow> Some (Inl (ErrSendGreeting e), Some w')
           | Some (None, w', _) \<Rightarrow>
               (case DecodeExpect as_handshake H AsTime r of
                  None \<Rightarrow> None
                | Some (Inl e, _) \<Rightarrow> Some (Inl (ErrReceiveGreeting e), Some w')
                | Some (Inr hs, _) \<Rightarrow>
                    Some (if IsMajorDifference (h_Version (Payload my)) (h_Version (Payload hs))
                          then Inl ErrVersionMismatch else Inr hs, Some w'))))"

section \<open>Lemmas\<close>

lemma newHandshake_fields [simp]:
  "h_Version (Payload (newHandshake v i now meta port)) = v"
  "h_MetaData (Payload (newHandshake v i now meta port)) = meta"
  "h_Port (Payload (newHandshake v i now meta port)) = ucast (word_of_int port :: u16)"
  "Created (newHandshake v i now meta port) = now"
  by (simp_all add: newHandshake_def NewGreet_def NewEvent_def WithMetadata_def WithPort_def)

text \<open>A port number survives its conversion to 16 bits and its travel as a 32-bit number.\<close>

lemma port_value: "0 \<le> port \<Longrightarrow> port < 65536 \<Longrightarrow> uint (ucast (word_of_int port :: u16) :: u32) = port"
  by (simp add: unsigned_ucast_eq take_bit_word_eq_self uint_word_of_int take_bit_int_eq_self)

lemma exchange_returns: "helpers_ok H \<Longrightarrow> exchange H A my opened \<noteq> None"
proof (cases opened)
  case (Inr p)
  assume H: "helpers_ok H"
  obtain r w where p: "p = (r, w)" by fastforce
  obtain err w' arr where wr: "WriteEvent H out_put w new_encode_buffer (AnEvent (EventHandshake my)) = Some (err, w', arr)"
    using WriteEvent_returns [OF H, of out_put w new_encode_buffer "AnEvent (EventHandshake my)"] by auto
  obtain x r' where d: "DecodeEvent H A r = Some (x, r')"
    using DecodeEvent_returns [OF H, of A r] by auto
  show ?thesis
  proof (cases err)
    case (Some e)
    with Inr p wr show ?thesis by (simp add: exchange_def)
  next
    case None
    obtain y where "DecodeExpect as_handshake H A r = Some (y, r')"
      using d by (cases x) (simp_all add: DecodeExpect_def)
    with None Inr p wr show ?thesis by (cases y) (simp_all add: exchange_def)
  qed
qed (simp add: exchange_def)

lemma DecodeExpect_handshake:
  assumes "helpers_ok H" and "as_time_ok A" and "sendable H (EventHandshake g)"
  shows "DecodeExpect as_handshake H A \<lparr>r_bytes = event_wire H (EventHandshake g) @ rest, r_err = e\<rparr>
    = Some (Inr (g\<lparr>From := 0\<rparr>), \<lparr>r_bytes = rest, r_err = e\<rparr>)"
  by (simp add: DecodeExpect_def DecodeEvent_wire [OF assms])

lemma exchange_wire:
  assumes "helpers_ok H" and "as_time_ok A" and "sendable H (EventHandshake g)"
    and "length (event_wire H (EventHandshake my)) \<le> n"
  shows "\<exists>w. exchange H A my (Inr (\<lparr>r_bytes = event_wire H (EventHandshake g) @ rest, r_err = e\<rparr>, open_out n))
    = Some (if IsMajorDifference (h_Version (Payload my)) (h_Version (Payload g)) then Inl ErrVersionMismatch
            else Inr (g\<lparr>From := 0\<rparr>), Some w)
    \<and> o_bytes w = event_wire H (EventHandshake my)"
proof -
  obtain arr where wr: "WriteEvent H out_put (open_out n) new_encode_buffer (AnEvent (EventHandshake my))
      = Some (map_option (PWrite \<circ> FIo) (fst (out_put (open_out n) (event_wire H (EventHandshake my)))),
          snd (out_put (open_out n) (event_wire H (EventHandshake my))), arr)"
    using write_wire [OF assms(1), of out_put "open_out n" new_encode_buffer "EventHandshake my"] by blast
  have "out_put (open_out n) (event_wire H (EventHandshake my))
      = (None, (open_out n)\<lparr>o_bytes := event_wire H (EventHandshake my)\<rparr>)"
    using assms(4) by (simp add: out_put_def open_out_def)
  with wr DecodeExpect_handshake [OF assms(1-3), of rest e] show ?thesis
    by (simp add: exchange_def)
qed

section \<open>Properties\<close>

text \<open>C22. The two ends of a handshake agree: if neither version is a major step from the other, both
  learn the other's version, device and port exactly, and if it is, both refuse with the version
  error; it is never one of each.\<close>

theorem handshake_agreement:
  assumes "helpers_ok H" and "as_time_ok A"
    and "sendable H (EventHandshake a)" and "sendable H (EventHandshake b)"
    and "length (event_wire H (EventHandshake a)) \<le> n" and "length (event_wire H (EventHandshake b)) \<le> n"
  shows "\<exists>wa wb ra rb.
      exchange H A a (Inr (\<lparr>r_bytes = o_bytes wb, r_err = ea\<rparr>, open_out n)) = Some (ra, Some wa)
    \<and> exchange H A b (Inr (\<lparr>r_bytes = o_bytes wa, r_err = eb\<rparr>, open_out n)) = Some (rb, Some wb)
    \<and> (if IsMajorDifference (h_Version (Payload a)) (h_Version (Payload b))
       then ra = Inl ErrVersionMismatch \<and> rb = Inl ErrVersionMismatch
       else ra = Inr (b\<lparr>From := 0\<rparr>) \<and> rb = Inr (a\<lparr>From := 0\<rparr>))"
proof -
  obtain wa where "exchange H A a (Inr (\<lparr>r_bytes = event_wire H (EventHandshake b), r_err = ea\<rparr>, open_out n))
    = Some (if IsMajorDifference (h_Version (Payload a)) (h_Version (Payload b)) then Inl ErrVersionMismatch
            else Inr (b\<lparr>From := 0\<rparr>), Some wa)" "o_bytes wa = event_wire H (EventHandshake a)"
    using exchange_wire [OF assms(1,2,4,5), of "[]" ea] by auto
  moreover obtain wb where "exchange H A b (Inr (\<lparr>r_bytes = event_wire H (EventHandshake a), r_err = eb\<rparr>, open_out n))
    = Some (if IsMajorDifference (h_Version (Payload a)) (h_Version (Payload b)) then Inl ErrVersionMismatch
            else Inr (a\<lparr>From := 0\<rparr>), Some wb)" "o_bytes wb = event_wire H (EventHandshake b)"
    using exchange_wire [OF assms(1,2,3,6), of "[]" eb]
    by (auto simp: IsMajorDifference_sym [of "h_Version (Payload a)"])
  ultimately show ?thesis by (intro exI [of _ wa] exI [of _ wb]) simp
qed

definition sample_device :: "i64 \<Rightarrow> device" where
  "sample_device i = \<lparr>d_ID = i, d_Name = str ''u'', d_Arch = str ''x''\<rparr>"

definition sample_greet :: "gostring \<Rightarrow> i64 \<Rightarrow> event_handshake" where
  "sample_greet v i = newHandshake v i sample_time (sample_device i) 7001"

lemma sample_greet_sendable:
  "sendable ref_helpers (EventHandshake (sample_greet (str ''1.0.0'') 1))"
  "sendable ref_helpers (EventHandshake (sample_greet (str ''2.0.0'') 2))"
proof -
  have "Event_SizeVT ref_helpers (Some (the_proto (EventHandshake (sample_greet (str ''1.0.0'') 1)))) < 100"
    "Event_SizeVT ref_helpers (Some (the_proto (EventHandshake (sample_greet (str ''2.0.0'') 2)))) < 100"
    by code_simp+
  then show "sendable ref_helpers (EventHandshake (sample_greet (str ''1.0.0'') 1))"
    "sendable ref_helpers (EventHandshake (sample_greet (str ''2.0.0'') 2))"
    by (simp_all add: sendable_def time_ok_def sample_greet_def sample_time_def del: Event_SizeVT.simps)
qed

theorem handshake_agreement_witness:
  "\<exists>wa wb. exchange ref_helpers ref_AsTime (sample_greet (str ''1.0.0'') 1)
        (Inr (\<lparr>r_bytes = o_bytes wb, r_err = EOF\<rparr>, open_out 100)) = Some (Inl ErrVersionMismatch, Some wa)
    \<and> exchange ref_helpers ref_AsTime (sample_greet (str ''2.0.0'') 2)
        (Inr (\<lparr>r_bytes = o_bytes wa, r_err = EOF\<rparr>, open_out 100)) = Some (Inl ErrVersionMismatch, Some wb)"
proof -
  have "length (event_wire ref_helpers (EventHandshake (sample_greet (str ''1.0.0'') 1))) \<le> 100"
    "length (event_wire ref_helpers (EventHandshake (sample_greet (str ''2.0.0'') 2))) \<le> 100"
    "IsMajorDifference (h_Version (Payload (sample_greet (str ''1.0.0'') 1)))
       (h_Version (Payload (sample_greet (str ''2.0.0'') 2)))"
    by code_simp+
  with handshake_agreement [OF ref_helpers_ok ref_AsTime_ok sample_greet_sendable, of 100 EOF EOF] show ?thesis
    by auto
qed

end
