(* ===== verification/Security.thy ===== *)
theory Security
  imports GoLib
begin

text \<open>
  The secret (\<open>internal/security/tls.go\<close>, \<open>errors.go\<close>): the key a secret gives, the TLS configuration made
  from it, and the check of the peer's certificate. The cryptography is not modelled: \<open>crypto\<close> holds
  the hash, the Ed25519 key of a seed, and the making and reading of certificates. The two verdicts are
  what \<open>crypto/tls\<close> does with such configurations: the client calls \<open>VerifyPeerCertificate\<close> on the
  server's chain; the server asks for a certificate, and then calls it, only with a \<open>ClientAuth\<close>
  other than the default.
\<close>

datatype secret_error = ErrLocalSecretMissing | ErrPeerSecretMissing | ErrSecretMismatch

section \<open>Keys\<close>

datatype public_key = Ed25519Public "byte list" | ECDSAPublic "byte list" | OtherPublic "byte list"

datatype private_key = Ed25519Private "byte list" | ECDSAPrivate "byte list"

text \<open>Times are Unix seconds; an address is its dotted text.\<close>

record cert_template =
  SerialNumber :: nat
  NotBefore :: int
  NotAfter :: int
  IPAddresses :: "gostring list"

record crypto =
  sha256 :: "byte list \<Rightarrow> byte list"
  ed25519_public :: "byte list \<Rightarrow> byte list"
  CreateCertificate :: "cert_template \<Rightarrow> public_key \<Rightarrow> private_key \<Rightarrow> gostring + byte list"
  ParseCertificate :: "byte list \<Rightarrow> gostring + public_key"
  MarshalPKCS8PrivateKey :: "private_key \<Rightarrow> gostring + byte list"
  X509KeyPair :: "byte list \<Rightarrow> byte list \<Rightarrow> gostring option"

datatype config_error =
    ErrRandInt gostring
  | ErrGenerateKey gostring
  | ErrCreateCertificate gostring
  | ErrMarshalPKCS8 gostring
  | ErrX509KeyPair gostring

text \<open>\<open>ecdsa\<close> is the fresh pair \<open>ecdsa.GenerateKey\<close> gives, or its error.\<close>

definition genKey ::
  "crypto \<Rightarrow> gostring + byte list \<times> byte list \<Rightarrow> gostring \<Rightarrow> config_error + private_key \<times> public_key" where
  "genKey C ecdsa secret =
     (if secret \<noteq> [] then
        (let seed = sha256 C secret in Inr (Ed25519Private seed, Ed25519Public (ed25519_public C seed)))
      else
        (case ecdsa of
           Inl e \<Rightarrow> Inl (ErrGenerateKey e)
         | Inr (priv, pub) \<Rightarrow> Inr (ECDSAPrivate priv, ECDSAPublic pub)))"

section \<open>Configuration\<close>

datatype client_auth = NoClientCert | RequireAnyClientCert

record tls_config =
  cert :: "byte list"
  NextProtos :: "gostring list"
  InsecureSkipVerify :: bool
  MinVersion :: u16
  ClientAuth :: client_auth

text \<open>
  Debug builds write the session keys to a file, which the first call opens; release builds do nothing.
  The result is the writer the configuration gets, if any.
\<close>

record key_log =
  kl_once :: bool
  kl_writer :: "nat option"

definition populateKeyLog :: "gostring + nat \<Rightarrow> key_log \<Rightarrow> nat option \<times> key_log" where
  "populateKeyLog opened st =
     (let st1 = (if kl_once st then st
                 else st\<lparr>kl_once := True, kl_writer := (case opened of Inl _ \<Rightarrow> kl_writer st | Inr f \<Rightarrow> Some f)\<rparr>)
      in (kl_writer st1, st1))"

definition populateKeyLog_release :: "nat option" where
  "populateKeyLog_release = None"

text \<open>The file is opened once: later configurations get the writer of the first call.\<close>

lemma populateKeyLog_again:
  "populateKeyLog opened st = (w, st') \<Longrightarrow> populateKeyLog opened' st' = (w, st')"
  by (auto simp: populateKeyLog_def Let_def split: if_splits)

definition VersionTLS13 :: u16 where
  "VersionTLS13 = 0x0304"

definition cert_template_at :: "int \<Rightarrow> nat \<Rightarrow> cert_template" where
  "cert_template_at now serialNumber =
     \<lparr>SerialNumber = serialNumber, NotBefore = now, NotAfter = now + 24 * 3600 * 365 * 10,
      IPAddresses = [str ''127.0.0.1'', str ''0.0.0.0'', str ''192.168.0.0'', str ''10.0.0.0'', str ''172.16.0.0'']\<rparr>"

text \<open>\<open>serial\<close> is the number \<open>rand.Int\<close> draws; the field \<open>ClientAuth\<close>, which the code does not set, is zero.\<close>

definition MakeTLSConfig ::
  "crypto \<Rightarrow> int \<Rightarrow> gostring + nat \<Rightarrow> gostring + byte list \<times> byte list \<Rightarrow> gostring \<Rightarrow> config_error + tls_config" where
  "MakeTLSConfig C now serial ecdsa secret =
     (case serial of
        Inl e \<Rightarrow> Inl (ErrRandInt e)
      | Inr serialNumber \<Rightarrow>
          (case genKey C ecdsa secret of
             Inl e \<Rightarrow> Inl e
           | Inr (privateKey, publicKey) \<Rightarrow>
               (case CreateCertificate C (cert_template_at now serialNumber) publicKey privateKey of
                  Inl e \<Rightarrow> Inl (ErrCreateCertificate e)
                | Inr certDER \<Rightarrow>
                    (case MarshalPKCS8PrivateKey C privateKey of
                       Inl e \<Rightarrow> Inl (ErrMarshalPKCS8 e)
                     | Inr privBytes \<Rightarrow>
                         (case X509KeyPair C certDER privBytes of
                            Some e \<Rightarrow> Inl (ErrX509KeyPair e)
                          | None \<Rightarrow>
                              Inr \<lparr>cert = certDER, NextProtos = [str ''belphegor''], InsecureSkipVerify = True,
                                 MinVersion = VersionTLS13, ClientAuth = NoClientCert\<rparr>)))))"

datatype verify_error = ErrSecret secret_error | ErrParsePeer gostring | ErrParseMine gostring

fun ed25519_key :: "public_key \<Rightarrow> byte list option" where
  "ed25519_key (Ed25519Public k) = Some k"
| "ed25519_key _ = None"

definition VerifyPeerCertificate :: "crypto \<Rightarrow> byte list \<Rightarrow> byte list list \<Rightarrow> verify_error option" where
  "VerifyPeerCertificate C certDER rawCerts =
     (case rawCerts of
        [] \<Rightarrow> Some (ErrSecret ErrPeerSecretMissing)
      | raw # _ \<Rightarrow>
          (case ParseCertificate C raw of
             Inl e \<Rightarrow> Some (ErrParsePeer e)
           | Inr peerCert \<Rightarrow>
               (case ParseCertificate C certDER of
                  Inl e \<Rightarrow> Some (ErrParseMine e)
                | Inr myCert \<Rightarrow>
                    (case (ed25519_key myCert, ed25519_key peerCert) of
                       (Some _, None) \<Rightarrow> Some (ErrSecret ErrPeerSecretMissing)
                     | (None, Some _) \<Rightarrow> Some (ErrSecret ErrLocalSecretMissing)
                     | (None, None) \<Rightarrow> None
                     | (Some myPub, Some peerPub) \<Rightarrow>
                         if myPub \<noteq> peerPub then Some (ErrSecret ErrSecretMismatch) else None))))"

text \<open>What the two ends of a handshake decide: the dialling end, and the listening end.\<close>

definition client_verdict :: "crypto \<Rightarrow> tls_config \<Rightarrow> tls_config \<Rightarrow> verify_error option" where
  "client_verdict C client server = VerifyPeerCertificate C (cert client) [cert server]"

definition server_verdict :: "crypto \<Rightarrow> tls_config \<Rightarrow> byte list list \<Rightarrow> verify_error option" where
  "server_verdict C server client_certs =
     (case ClientAuth server of
        NoClientCert \<Rightarrow> None
      | RequireAnyClientCert \<Rightarrow> VerifyPeerCertificate C (cert server) client_certs)"

section \<open>Lemmas\<close>

text \<open>A certificate is read back with the key it was made with.\<close>

definition crypto_ok :: "crypto \<Rightarrow> bool" where
  "crypto_ok C \<longleftrightarrow>
     (\<forall>t pub priv der. CreateCertificate C t pub priv = Inr der \<longrightarrow> ParseCertificate C der = Inr pub)"

definition secret_key :: "crypto \<Rightarrow> gostring \<Rightarrow> byte list option" where
  "secret_key C secret = (if secret = [] then None else Some (ed25519_public C (sha256 C secret)))"

lemma genKey_ed25519: "genKey C ecdsa secret = Inr (priv, pub) \<Longrightarrow> ed25519_key pub = secret_key C secret"
  by (auto simp: genKey_def secret_key_def Let_def split: if_splits sum.splits)

lemma config_key:
  assumes "crypto_ok C" "MakeTLSConfig C now serial ecdsa secret = Inr conf"
  obtains pub where "ParseCertificate C (cert conf) = Inr pub" "ed25519_key pub = secret_key C secret"
    "ClientAuth conf = NoClientCert"
  using assms genKey_ed25519 [of C ecdsa secret]
  by (auto simp: MakeTLSConfig_def crypto_ok_def split: sum.splits option.splits prod.splits)

section \<open>Properties\<close>

text \<open>C31. Two nodes that make their configurations from secrets: the dialling node accepts the other
  exactly when both secrets are the same (two empty ones included), and otherwise reports which of the
  two has no secret, or that the secrets differ. The secrets' keys are assumed not to collide.\<close>

theorem secret_agreement:
  assumes "crypto_ok C"
    and "MakeTLSConfig C now1 serial1 ecdsa1 mine = Inr client"
    and "MakeTLSConfig C now2 serial2 ecdsa2 his = Inr server"
    and "ed25519_public C (sha256 C mine) = ed25519_public C (sha256 C his) \<Longrightarrow> mine = his"
  shows "client_verdict C client server =
    (if mine = his then None
     else if mine = [] then Some (ErrSecret ErrLocalSecretMissing)
     else if his = [] then Some (ErrSecret ErrPeerSecretMissing)
     else Some (ErrSecret ErrSecretMismatch))"
proof -
  obtain p where p: "ParseCertificate C (cert client) = Inr p" "ed25519_key p = secret_key C mine"
    using config_key [OF assms(1,2)] by metis
  obtain q where q: "ParseCertificate C (cert server) = Inr q" "ed25519_key q = secret_key C his"
    using config_key [OF assms(1,3)] by metis
  show ?thesis
    using p q assms(4) by (auto simp: client_verdict_def VerifyPeerCertificate_def secret_key_def)
qed

definition plain_crypto :: crypto where
  "plain_crypto = \<lparr>sha256 = id, ed25519_public = id,
     CreateCertificate = (\<lambda>t pub priv. Inr (case pub of Ed25519Public k \<Rightarrow> 0 # k | ECDSAPublic k \<Rightarrow> 1 # k | OtherPublic k \<Rightarrow> 2 # k)),
     ParseCertificate = (\<lambda>der. case der of [] \<Rightarrow> Inl [] | b # k \<Rightarrow>
       if b = 0 then Inr (Ed25519Public k) else if b = 1 then Inr (ECDSAPublic k) else Inr (OtherPublic k)),
     MarshalPKCS8PrivateKey = (\<lambda>_. Inr []), X509KeyPair = (\<lambda>_ _. None)\<rparr>"

lemma plain_crypto_ok: "crypto_ok plain_crypto"
  by (auto simp: crypto_ok_def plain_crypto_def split: public_key.split)

definition plain_config :: "byte list \<Rightarrow> tls_config" where
  "plain_config der = \<lparr>cert = der, NextProtos = [str ''belphegor''], InsecureSkipVerify = True,
     MinVersion = VersionTLS13, ClientAuth = NoClientCert\<rparr>"

lemma plain_genKey:
  "genKey plain_crypto (Inr ([8], [7])) s = Inr
     (if s = [] then (ECDSAPrivate [8], ECDSAPublic [7]) else (Ed25519Private s, Ed25519Public s))"
  by (simp add: genKey_def plain_crypto_def Let_def)

lemma plain_make:
  "MakeTLSConfig plain_crypto 0 (Inr 2) (Inr ([8], [7])) s = Inr (plain_config (if s = [] then [1, 7] else 0 # s))"
proof -
  have "CreateCertificate plain_crypto t pub priv = Inr (case pub of Ed25519Public k \<Rightarrow> 0 # k | ECDSAPublic k \<Rightarrow> 1 # k | OtherPublic k \<Rightarrow> 2 # k)"
    "MarshalPKCS8PrivateKey plain_crypto priv = Inr []" "X509KeyPair plain_crypto der k = None" for t pub priv der k
    by (simp_all add: plain_crypto_def)
  then show ?thesis by (simp add: MakeTLSConfig_def plain_genKey plain_config_def del: str_Cons)
qed

theorem secret_agreement_witness:
  "client_verdict plain_crypto (plain_config [0, 65]) (plain_config [0, 66]) = Some (ErrSecret ErrSecretMismatch)
   \<and> client_verdict plain_crypto (plain_config [1, 7]) (plain_config [0, 66]) = Some (ErrSecret ErrLocalSecretMissing)"
proof -
  have c: "MakeTLSConfig plain_crypto 0 (Inr 2) (Inr ([8], [7])) [65] = Inr (plain_config [0, 65])"
    "MakeTLSConfig plain_crypto 0 (Inr 2) (Inr ([8], [7])) [66] = Inr (plain_config [0, 66])"
    "MakeTLSConfig plain_crypto 0 (Inr 2) (Inr ([8], [7])) [] = Inr (plain_config [1, 7])"
    by (simp_all add: plain_make)
  show ?thesis
    using secret_agreement [OF plain_crypto_ok c(1) c(2)] secret_agreement [OF plain_crypto_ok c(3) c(2)]
    by (simp add: plain_crypto_def)
qed

text \<open>C32. The listening end checks no secret: whatever secret it was configured with, it accepts every
  client, whatever certificates that client has, and also without any. Only the dialling end
  verifies, so a client that skips its own check is let in.\<close>

theorem listener_admits_any_client:
  assumes "MakeTLSConfig C now serial ecdsa secret = Inr server"
  shows "server_verdict C server client_certs = None"
  using assms
  by (auto simp: MakeTLSConfig_def server_verdict_def split: sum.splits option.splits prod.splits)

theorem listener_admits_any_client_witness:
  "server_verdict plain_crypto (plain_config [0, 65]) [] = None"
  by (rule listener_admits_any_client [of plain_crypto 0 "Inr 2" "Inr ([8], [7])" "[65]"])
    (simp add: plain_make)

end
