(* ===== verification/Node.thy ===== *)
theory Node
  imports Handshake SyncMap Eventful Security
begin

text \<open>
  The node (\<open>internal/node/node.go\<close>): the registry of connected peers, connecting and accepting,
  the broadcast of announcements, the handling of announcements, and the monitor between clipboard
  and channel. A connection is a number; what the network answers (a dialled connection, a stream,
  the bytes on it) is an argument of each operation. \<open>handleConnection\<close> and \<open>ConnectTo\<close> are taken up to
  the start of \<open>Receive\<close> (see \<open>Peer\<close>); the deferred \<open>cleanup\<close> is a step of its own. \<open>None\<close> is a panic.
  Notifications and logging have no part in the state.
\<close>

record peer =
  conn :: nat
  metaData :: device

record node_options =
  version :: gostring
  MyID :: i64
  my_Metadata :: device
  ListenPort :: int
  MaxPeers :: int
  Clip :: clip_options
  peer_options :: peer_env

record node =
  peers :: "(i64, peer) sync_map"
  n_world :: world
  current :: message
  written :: "(mime_type \<times> byte list) list"
  closed :: "nat list"

definition node_New :: "nat \<Rightarrow> fs \<Rightarrow> node" where
  "node_New cap files =
     \<lparr>peers = NewSyncMapStorage,
      n_world = \<lparr>w_channel = New cap, w_batches = NewBatchCollector, w_fs = files\<rparr>,
      current = zero_message, written = [], closed = []\<rparr>"

definition Close :: "node \<Rightarrow> node" where
  "Close N = N\<lparr>closed := sm_Tap (peers N) (\<lambda>_ p cs. (True, conn p # cs)) (closed N)\<rparr>"

text \<open>What the peers of a node are configured with.\<close>

definition peer_env_of :: "node_options \<Rightarrow> peer_env" where
  "peer_env_of opts = (peer_options opts)\<lparr>maxReceiveSize := MaxFileSize (Clip opts)\<rparr>"

abbreviation helpers_of :: "node_options \<Rightarrow> helpers" where
  "helpers_of opts \<equiv> e_helpers (peer_options opts)"

section \<open>Connections\<close>

definition addPeer :: "node \<Rightarrow> handshake \<Rightarrow> nat \<Rightarrow> peer \<times> node" where
  "addPeer N hisHand c =
     (let metadata = h_MetaData hisHand;
          N1 = (case sm_Get (peers N) (d_ID metadata) of
                  Some oldPeer \<Rightarrow> N\<lparr>closed := conn oldPeer # closed N\<rparr>
                | None \<Rightarrow> N);
          pr = \<lparr>conn = c, metaData = metadata\<rparr>
      in (pr, N1\<lparr>peers := sm_Add (peers N1) (d_ID metadata) pr\<rparr>))"

text \<open>The code compares the pointers; here a peer is known by its connection.\<close>

definition cleanup :: "node \<Rightarrow> peer \<Rightarrow> node" where
  "cleanup N pr =
     (let i = d_ID (metaData pr);
          N1 = (case sm_Get (peers N) i of
                  Some cur \<Rightarrow> if conn cur = conn pr then N\<lparr>peers := sm_Delete (peers N) i\<rparr> else N
                | None \<Rightarrow> N)
      in N1\<lparr>closed := conn pr # closed N1\<rparr>)"

definition greeting :: "node_options \<Rightarrow> gotime \<Rightarrow> event_handshake" where
  "greeting opts now = newHandshake (version opts) (MyID opts) now (my_Metadata opts) (ListenPort opts)"

text \<open>
  A connection \<open>c\<close> whose first stream is \<open>opened\<close>: either the call returns at once, with an error or
  without, or the peer is registered and receives.
\<close>

definition handleConnection ::
  "node_options \<Rightarrow> gotime \<Rightarrow> node \<Rightarrow> nat \<Rightarrow> io_error + (reader \<times> out)
   \<Rightarrow> ((handshake_error option + peer) \<times> node) option" where
  "handleConnection opts now N c opened =
     (case exchange (helpers_of opts) (e_AsTime (peer_options opts)) (greeting opts now) opened of
        None \<Rightarrow> None
      | Some (Inl e, _) \<Rightarrow> Some (Inl (if e = ErrVersionMismatch then None else Some e), N)
      | Some (Inr hisHand, _) \<Rightarrow> (let (pr, N') = addPeer N (Payload hisHand) c in Some (Inr pr, N')))"

datatype dial_error =
    ErrDialSecret secret_error
  | ErrOtherDial gostring

datatype connect_error =
    ErrMaxPeersReached
  | ErrDial gostring
  | ErrHandleConnection handshake_error

type_synonym dial_result = "dial_error + (nat \<times> (io_error + (reader \<times> out)))"

definition ConnectTo ::
  "node_options \<Rightarrow> gotime \<Rightarrow> node \<Rightarrow> dial_result \<Rightarrow> ((connect_error option + peer) \<times> node) option" where
  "ConnectTo opts now N dialed =
     (if MaxPeers opts \<le> sm_Len (peers N) then Some (Inl (Some ErrMaxPeersReached), N)
      else
        (case dialed of
           Inl (ErrOtherDial e) \<Rightarrow> Some (Inl (Some (ErrDial e)), N)
         | Inl (ErrDialSecret _) \<Rightarrow> Some (Inl None, N)
         | Inr (c, opened) \<Rightarrow>
             (case handleConnection opts now N c opened of
                None \<Rightarrow> None
              | Some (Inl err, N') \<Rightarrow> Some (Inl (map_option ErrHandleConnection err), N')
              | Some (Inr pr, N') \<Rightarrow> Some (Inr pr, N'))))"

text \<open>
  A connection from beginning to end: registered, received from as long as \<open>Receive\<close> runs (see
  \<open>Peer\<close>), and cleaned up when it returns.
\<close>

definition serveConnection ::
  "(gostring \<Rightarrow> gostring) \<Rightarrow> node_options \<Rightarrow> gotime \<Rightarrow> node \<Rightarrow> nat \<Rightarrow> io_error + (reader \<times> out) \<Rightarrow> accepted list
   \<Rightarrow> node option" where
  "serveConnection uni opts now N c opened streams =
     (case handleConnection opts now N c opened of
        None \<Rightarrow> None
      | Some (Inl _, N1) \<Rightarrow> Some N1
      | Some (Inr pr, N1) \<Rightarrow>
          (case Receive uni (peer_env_of opts) (n_world N1) streams of
             None \<Rightarrow> None
           | Some (None, W) \<Rightarrow> Some (N1\<lparr>n_world := W\<rparr>)
           | Some (Some _, W) \<Rightarrow> Some (cleanup (N1\<lparr>n_world := W\<rparr>) pr)))"

text \<open>
  The accept loop of \<open>Start\<close>: what \<open>Accept\<close> gives, or the end of the context. Every accepted
  connection is handled beside the loop. The \<open>break\<close> of the code on a closed listener leaves the
  \<open>select\<close>, not the loop. The first result is \<open>None\<close> while the loop runs.
\<close>

datatype accept_result =
    StartDone
  | AcceptClosed
  | AcceptCanceled
  | AcceptFailed gostring
  | AcceptConn nat "io_error + (reader \<times> out)"

fun Start_loop ::
  "node_options \<Rightarrow> gotime \<Rightarrow> node \<Rightarrow> accept_result list \<Rightarrow> (gostring option option \<times> node) option" where
  "Start_loop opts now N [] = Some (None, N)"
| "Start_loop opts now N (StartDone # rs) = Some (Some None, N)"
| "Start_loop opts now N (AcceptClosed # rs) = Start_loop opts now N rs"
| "Start_loop opts now N (AcceptCanceled # rs) = Start_loop opts now N rs"
| "Start_loop opts now N (AcceptFailed e # rs) = Some (Some (Some e), N)"
| "Start_loop opts now N (AcceptConn c opened # rs) =
     (case handleConnection opts now N c opened of None \<Rightarrow> None | Some (_, N') \<Rightarrow> Start_loop opts now N' rs)"

section \<open>Discovery\<close>

definition DiscoveryPayload :: "node_options \<Rightarrow> gotime \<Rightarrow> byte list option" where
  "DiscoveryPayload opts now =
     MustEncode (helpers_of opts) (AnEvent (EventHandshake
       (NewGreet (version opts) (MyID opts) now [WithMetadata (my_Metadata opts), WithPort (word_of_int (ListenPort opts))])))"

text \<open>\<open>dial\<close> is the transport: what dialling an address gives.\<close>

definition PeerDiscovered ::
  "node_options \<Rightarrow> gotime \<Rightarrow> (gostring \<Rightarrow> dial_result) \<Rightarrow> node \<Rightarrow> gostring \<Rightarrow> byte list \<Rightarrow> node option" where
  "PeerDiscovered opts now dial N peerIP payload =
     (case DecodeExpect as_handshake (helpers_of opts) (e_AsTime (peer_options opts)) \<lparr>r_bytes = payload, r_err = EOF\<rparr> of
        None \<Rightarrow> None
      | Some (Inl _, _) \<Rightarrow> Some N
      | Some (Inr greet, _) \<Rightarrow>
          if sm_Exist (peers N) (d_ID (h_MetaData (Payload greet))) then Some N
          else map_option snd
            (ConnectTo opts now N (dial (peerIP @ str '':'' @ nat_digits (unat (h_Port (Payload greet)))))))"

section \<open>Announcements\<close>

text \<open>\<open>streams c\<close> is what opening a stream on connection \<open>c\<close> gives. The streams written are recorded.\<close>

definition broadcast_to ::
  "helpers \<Rightarrow> (nat \<Rightarrow> io_error + out) \<Rightarrow> event_announce \<Rightarrow> i64 \<Rightarrow> peer
   \<Rightarrow> ((i64, peer) sync_map \<times> (i64 \<times> out) list) option
   \<Rightarrow> bool \<times> ((i64, peer) sync_map \<times> (i64 \<times> out) list) option" where
  "broadcast_to H streams an i p st =
     (case st of
        None \<Rightarrow> (False, None)
      | Some (ps, sent) \<Rightarrow>
          if i = From an then (True, st)
          else
            (case WriteContext H (streams (conn p)) (EventAnnounce an) NoRaw of
               None \<Rightarrow> (False, None)
             | Some (err, w) \<Rightarrow>
                 (True, Some
                   (case err of None \<Rightarrow> ps | Some _ \<Rightarrow> sm_Delete ps (d_ID (metaData p)),
                    case w of None \<Rightarrow> sent | Some w' \<Rightarrow> sent @ [(i, w')]))))"

definition Broadcast ::
  "helpers \<Rightarrow> (nat \<Rightarrow> io_error + out) \<Rightarrow> (i64, peer) sync_map \<Rightarrow> event_announce
   \<Rightarrow> ((i64, peer) sync_map \<times> (i64 \<times> out) list) option" where
  "Broadcast H streams ps an = sm_Tap ps (broadcast_to H streams an) (Some (ps, []))"

text \<open>The result is the stream the request was written to, if one was sent.\<close>

definition handleAnnounce ::
  "node_options \<Rightarrow> (nat \<Rightarrow> io_error + out) \<Rightarrow> gotime \<Rightarrow> node \<Rightarrow> event_announce \<Rightarrow> (out option \<times> node) option" where
  "handleAnnounce opts streams now N an =
     (case sm_Get (peers N) (From an) of
        None \<Rightarrow> Some (None, N)
      | Some p \<Rightarrow>
          if MaxFileSize (Clip opts) < a_ContentLength (Payload an) then
            Some (None,
              if a_BatchID (Payload an) \<noteq> 0 then
                N\<lparr>n_world := (n_world N)\<lparr>w_batches := snd (Add (w_batches (n_world N))
                  (zero_message\<lparr>m_ID := a_ID (Payload an), m_BatchID := a_BatchID (Payload an),
                     m_BatchTotal := a_BatchTotal (Payload an)\<rparr>))\<rparr>\<rparr>
              else N)
          else if DuplicateByAnnounce (Payload (LastMsg (w_channel (n_world N)))) (Payload an) then Some (None, N)
          else
            (case RequestMessage (helpers_of opts) (streams (conn p)) (MyID opts) now (a_ID (Payload an)) of
               None \<Rightarrow> None
             | Some (_, w) \<Rightarrow> Some (w, N)))"

section \<open>Monitor\<close>

definition messageFromUpdate :: "i64 \<Rightarrow> update \<Rightarrow> message" where
  "messageFromUpdate newID u =
     (if IsPath (u_MimeType u) then
        \<lparr>m_ID = newID, m_Data = u_Data u, m_MimeType = u_MimeType u, m_ContentHash = u_Hash u,
         m_ContentLength = u_Size u, m_Name = path_base (u_Data u), m_BatchID = u_BatchID u,
         m_BatchTotal = u_BatchTotal u\<rparr>
      else
        \<lparr>m_ID = newID, m_Data = u_Data u, m_MimeType = u_MimeType u, m_ContentHash = u_Hash u,
         m_ContentLength = of_nat (length (u_Data u)), m_Name = [], m_BatchID = u_BatchID u,
         m_BatchTotal = u_BatchTotal u\<rparr>)"

definition monitor_update :: "node_options \<Rightarrow> i64 \<Rightarrow> gotime \<Rightarrow> node \<Rightarrow> update \<Rightarrow> node option" where
  "monitor_update opts newID now N u =
     (let m = messageFromUpdate newID u in
      if Message_Zero m then Some N
      else if Message_Duplicate m (current N) \<and> \<not> Message_Zero (current N) then Some N
      else
        (case Send (w_channel (n_world N)) (Message_Event (MyID opts) now m) of
           None \<Rightarrow> None
         | Some c \<Rightarrow> Some (N\<lparr>current := m, n_world := (n_world N)\<lparr>w_channel := c\<rparr>\<rparr>)))"

text \<open>The clipboard's part of a message taken from the channel.\<close>

definition monitor_write :: "node_options \<Rightarrow> node \<Rightarrow> event_message \<Rightarrow> node" where
  "monitor_write opts N m =
     (if From m \<noteq> d_ID (my_Metadata opts) then
        (let p = Payload m in
         if m_BatchID p \<noteq> 0 \<and> 1 < m_BatchTotal p then
           (let ((batchData, ready), c) = Add (w_batches (n_world N)) p;
                N' = N\<lparr>n_world := (n_world N)\<lparr>w_batches := c\<rparr>\<rparr>
            in if ready then N'\<lparr>written := written N' @ [(m_MimeType p, batchData)]\<rparr> else N')
         else N\<lparr>written := written N @ [(m_MimeType p, m_Data p)]\<rparr>)
      else N)"

definition monitor_message ::
  "node_options \<Rightarrow> (nat \<Rightarrow> io_error + out) \<Rightarrow> node \<Rightarrow> ((i64 \<times> out) list \<times> node) option" where
  "monitor_message opts streams N =
     (case Messages (w_channel (n_world N)) of
        None \<Rightarrow> Some ([], N)
      | Some (m, c) \<Rightarrow>
          (let N1 = monitor_write opts (N\<lparr>n_world := (n_world N)\<lparr>w_channel := c\<rparr>\<rparr>) m in
           case Broadcast (helpers_of opts) streams (peers N1)
                  \<lparr>From = From m, Created = Created m, Payload = Message_Announce (Payload m)\<rparr> of
             None \<Rightarrow> None
           | Some (ps, sent) \<Rightarrow> Some (sent, N1\<lparr>peers := ps\<rparr>)))"

definition monitor_announce ::
  "node_options \<Rightarrow> (nat \<Rightarrow> io_error + out) \<Rightarrow> gotime \<Rightarrow> node \<Rightarrow> (out option \<times> node) option" where
  "monitor_announce opts streams now N =
     (case Announcements (w_channel (n_world N)) of
        None \<Rightarrow> Some (None, N)
      | Some (an, c) \<Rightarrow> handleAnnounce opts streams now (N\<lparr>n_world := (n_world N)\<lparr>w_channel := c\<rparr>\<rparr>) an)"

text \<open>
  The loop of \<open>monitor\<close>: the end of the context, the end of the watching of the clipboard with its error,
  a message, or an announcement, whichever is chosen first. The first result is \<open>None\<close> while it runs,
  then the error returned. The updates are handled by a goroutine beside it (\<open>monitor_update\<close>).
\<close>

datatype monitor_input =
    MonitorDone
  | WatchEnded "gostring option"
  | MonitorMessage "nat \<Rightarrow> io_error + out"
  | MonitorAnnounce gotime "nat \<Rightarrow> io_error + out"

fun monitor :: "node_options \<Rightarrow> node \<Rightarrow> monitor_input list \<Rightarrow> (gostring option option \<times> node) option" where
  "monitor opts N [] = Some (None, N)"
| "monitor opts N (MonitorDone # is) = Some (Some None, N)"
| "monitor opts N (WatchEnded err # is) = Some (Some err, N)"
| "monitor opts N (MonitorMessage streams # is) =
     (case monitor_message opts streams N of None \<Rightarrow> None | Some (_, N') \<Rightarrow> monitor opts N' is)"
| "monitor opts N (MonitorAnnounce now streams # is) =
     (case monitor_announce opts streams now N of None \<Rightarrow> None | Some (_, N') \<Rightarrow> monitor opts N' is)"

section \<open>Runs\<close>

text \<open>What can happen to a node, with the time and the answers of the network.\<close>

datatype node_event =
    Accepted nat "io_error + (reader \<times> out)"
  | Served nat "io_error + (reader \<times> out)" "accepted list"
  | Dialed dial_result
  | Discovered gostring "byte list" "gostring \<Rightarrow> dial_result"
  | Incoming reader "io_error + out"
  | Updated i64 update
  | TakeMessage "nat \<Rightarrow> io_error + out"
  | TakeAnnounce "nat \<Rightarrow> io_error + out"
  | BatchTimer i64
  | Disconnected peer

fun node_step :: "node_options \<Rightarrow> gotime \<Rightarrow> node \<Rightarrow> node_event \<Rightarrow> node option" where
  "node_step opts now N (Accepted c opened) = map_option snd (handleConnection opts now N c opened)"
| "node_step opts now N (Served c opened streams) = serveConnection (\<lambda>s. s) opts now N c opened streams"
| "node_step opts now N (Dialed r) = map_option snd (ConnectTo opts now N r)"
| "node_step opts now N (Discovered ip payload dial) = PeerDiscovered opts now dial N ip payload"
| "node_step opts now N (Incoming r open_stream) =
     map_option (\<lambda>(_, _, W). N\<lparr>n_world := W\<rparr>) (handleStream (peer_env_of opts) open_stream (n_world N) r)"
| "node_step opts now N (Updated newID u) = monitor_update opts newID now N u"
| "node_step opts now N (TakeMessage streams) = map_option snd (monitor_message opts streams N)"
| "node_step opts now N (TakeAnnounce streams) = map_option snd (monitor_announce opts streams now N)"
| "node_step opts now N (BatchTimer b) =
     Some (N\<lparr>n_world := (n_world N)\<lparr>w_batches := expire (w_batches (n_world N)) b\<rparr>\<rparr>)"
| "node_step opts now N (Disconnected p) = Some (cleanup N p)"

fun node_run :: "node_options \<Rightarrow> node \<Rightarrow> (gotime \<times> node_event) list \<Rightarrow> node option" where
  "node_run opts N [] = Some N"
| "node_run opts N ((now, ev) # evs) = Option.bind (node_step opts now N ev) (\<lambda>N'. node_run opts N' evs)"

section \<open>Invariant\<close>

definition node_ok :: "node \<Rightarrow> bool" where
  "node_ok N \<longleftrightarrow> world_ok (n_world N) \<and> sm_ok (peers N)
     \<and> (\<forall>k p. sm_Get (peers N) k = Some p \<longrightarrow> d_ID (metaData p) = k)"

definition options_ok :: "node_options \<Rightarrow> bool" where
  "options_ok opts \<longleftrightarrow> helpers_ok (helpers_of opts) \<and> unat (MaxFileSize (Clip opts)) < 2 ^ 63"

lemma sm_Get_new [simp]: "sm_Get NewSyncMapStorage = Map.empty"
  by (simp add: sm_Get_def NewSyncMapStorage_def fun_eq_iff)

lemma node_ok_New [inv_intros]: "node_ok (node_New cap files)"
  by (simp add: node_ok_def node_New_def world_ok_def channel_ok_New collector_ok_new sm_ok_new)

lemma node_ok_cong:
  "node_ok N \<Longrightarrow> world_ok (n_world N') \<Longrightarrow> peers N' = peers N \<Longrightarrow> node_ok N'"
  by (simp add: node_ok_def)

lemma node_ok_peers:
  assumes "node_ok N" and "sm_ok ps" and "\<And>k p. sm_Get ps k = Some p \<Longrightarrow> d_ID (metaData p) = k"
  shows "node_ok (N\<lparr>peers := ps\<rparr>)"
  using assms by (simp add: node_ok_def)

lemma addPeer_ok [inv_intros]: "node_ok N \<Longrightarrow> node_ok (snd (addPeer N h c))"
  by (auto simp: node_ok_def addPeer_def Let_def sm_ok_Add store.get_add split: option.splits if_splits)

lemma cleanup_ok [inv_intros]: "node_ok N \<Longrightarrow> node_ok (cleanup N p)"
  by (auto simp: node_ok_def cleanup_def Let_def sm_ok_Delete store.get_del split: option.splits if_splits)

lemma handleConnection_ok:
  assumes "options_ok opts" and "node_ok N"
  shows "\<exists>r N'. handleConnection opts now N c opened = Some (r, N') \<and> node_ok N'"
proof -
  obtain x w where x: "exchange (helpers_of opts) (e_AsTime (peer_options opts)) (greeting opts now) opened = Some (x, w)"
    using exchange_returns [of "helpers_of opts" "e_AsTime (peer_options opts)" "greeting opts now" opened] assms(1)
    by (auto simp: options_ok_def)
  show ?thesis
  proof (cases x)
    case (Inl e)
    with x assms(2) show ?thesis by (simp add: handleConnection_def)
  next
    case (Inr h)
    with x addPeer_ok [OF assms(2), of "Payload h" c] show ?thesis
      by (simp add: handleConnection_def case_prod_beta)
  qed
qed

lemma serveConnection_ok:
  assumes "options_ok opts" and "node_ok N"
  shows "\<exists>N'. serveConnection uni opts now N c opened streams = Some N' \<and> node_ok N'"
proof -
  obtain r N1 where h: "handleConnection opts now N c opened = Some (r, N1)" "node_ok N1"
    using handleConnection_ok [OF assms] by blast
  show ?thesis
  proof (cases r)
    case (Inl e)
    with h show ?thesis by (simp add: serveConnection_def)
  next
    case (Inr pr)
    have W: "world_ok (n_world N1)" using h(2) by (simp add: node_ok_def)
    obtain t W where t: "Receive uni (peer_env_of opts) (n_world N1) streams = Some (t, W)" "world_ok W"
      using Receive_ok [OF _ _ W, of "peer_env_of opts" uni streams] assms(1)
      by (auto simp: options_ok_def peer_env_of_def)
    then have ok: "node_ok (N1\<lparr>n_world := W\<rparr>)" using h(2) by (simp add: node_ok_def)
    with Inr h(1) t(1) cleanup_ok [OF ok, of pr] show ?thesis
      by (cases t) (simp_all add: serveConnection_def)
  qed
qed

lemma Start_loop_ok:
  "options_ok opts \<Longrightarrow> node_ok N \<Longrightarrow> \<exists>r N'. Start_loop opts now N rs = Some (r, N') \<and> node_ok N'"
proof (induction opts now N rs rule: Start_loop.induct)
  case (6 opts now N c opened rs)
  then obtain r N1 where "handleConnection opts now N c opened = Some (r, N1)" "node_ok N1"
    using handleConnection_ok by blast
  with 6 show ?case by simp
qed simp_all

text \<open>A listener that is closed while the context lives keeps the loop spinning for ever.\<close>

lemma closed_listener_spins: "Start_loop opts now N (replicate k AcceptClosed) = Some (None, N)"
  by (induction k) simp_all

lemma ConnectTo_ok:
  assumes "options_ok opts" and "node_ok N"
  shows "\<exists>r N'. ConnectTo opts now N dialed = Some (r, N') \<and> node_ok N'"
proof (cases "MaxPeers opts \<le> sm_Len (peers N)")
  case False
  show ?thesis
  proof (cases dialed)
    case (Inl e)
    with False assms(2) show ?thesis by (cases e) (simp_all add: ConnectTo_def)
  next
    case (Inr p)
    obtain c opened where p: "p = (c, opened)" by fastforce
    obtain r N' where r: "handleConnection opts now N c opened = Some (r, N')" "node_ok N'"
      using handleConnection_ok [OF assms] by blast
    show ?thesis
    proof (cases r)
      case (Inl e)
      with r Inr p False show ?thesis by (simp add: ConnectTo_def)
    next
      case (Inr q)
      with r \<open>dialed = Inr p\<close> p False show ?thesis by (simp add: ConnectTo_def)
    qed
  qed
qed (simp add: ConnectTo_def assms(2))

lemma PeerDiscovered_ok:
  assumes "options_ok opts" and "node_ok N"
  shows "\<exists>N'. PeerDiscovered opts now dial N ip payload = Some N' \<and> node_ok N'"
proof -
  obtain x r' where d: "DecodeEvent (helpers_of opts) (e_AsTime (peer_options opts)) \<lparr>r_bytes = payload, r_err = EOF\<rparr> = Some (x, r')"
    using DecodeEvent_returns [of "helpers_of opts" "e_AsTime (peer_options opts)" "\<lparr>r_bytes = payload, r_err = EOF\<rparr>"] assms(1)
    by (auto simp: options_ok_def)
  obtain y where y: "DecodeExpect as_handshake (helpers_of opts) (e_AsTime (peer_options opts)) \<lparr>r_bytes = payload, r_err = EOF\<rparr>
      = Some (y, r')"
    using d by (cases x) (simp_all add: DecodeExpect_def)
  show ?thesis
  proof (cases y)
    case (Inl e)
    with y assms(2) show ?thesis by (simp add: PeerDiscovered_def)
  next
    case (Inr g)
    let ?addr = "ip @ str '':'' @ nat_digits (unat (h_Port (Payload g)))"
    obtain r N' where "ConnectTo opts now N (dial ?addr) = Some (r, N')" "node_ok N'"
      using ConnectTo_ok [OF assms] by blast
    with y Inr assms(2) show ?thesis by (simp add: PeerDiscovered_def)
  qed
qed

section \<open>Broadcast\<close>

lemma broadcast_to_run:
  assumes H: "helpers_ok H"
  shows "\<exists>ps' sent'. range_map m (broadcast_to H streams an) (Some (ps, sent)) = Some (ps', sent')
    \<and> (sm_ok ps \<longrightarrow> sm_ok ps')
    \<and> (sm_ok ps \<longrightarrow> (\<forall>k p. sm_Get ps' k = Some p \<longrightarrow> sm_Get ps k = Some p))"
proof (induction m arbitrary: ps sent)
  case (Cons e m)
  obtain k p where e: "e = (k, p)" by fastforce
  obtain err w where w: "WriteContext H (streams (conn p)) (EventAnnounce an) NoRaw = Some (err, w)"
    using WriteContext_returns [OF H, of "streams (conn p)" "EventAnnounce an" NoRaw] by auto
  define ps1 where "ps1 = (if k = From an then ps else case err of None \<Rightarrow> ps | Some _ \<Rightarrow> sm_Delete ps (d_ID (metaData p)))"
  define sent1 where "sent1 = (if k = From an then sent else case w of None \<Rightarrow> sent | Some w' \<Rightarrow> sent @ [(k, w')])"
  have "broadcast_to H streams an k p (Some (ps, sent)) = (True, Some (ps1, sent1))"
    using w by (simp add: broadcast_to_def ps1_def sent1_def)
  moreover have "sm_ok ps \<longrightarrow> sm_ok ps1"
    by (auto simp: ps1_def sm_ok_Delete split: option.split)
  moreover have "sm_ok ps \<longrightarrow> (\<forall>k p. sm_Get ps1 k = Some p \<longrightarrow> sm_Get ps k = Some p)"
    by (auto simp: ps1_def store.get_del split: option.splits if_splits)
  ultimately show ?case
    using Cons.IH [of ps1 sent1] e by auto
qed simp

lemma Broadcast_ok:
  assumes "helpers_ok H" and "sm_ok ps"
  shows "\<exists>ps' sent. Broadcast H streams ps an = Some (ps', sent) \<and> sm_ok ps'
    \<and> (\<forall>k p. sm_Get ps' k = Some p \<longrightarrow> sm_Get ps k = Some p)"
  using broadcast_to_run [OF assms(1), of "sm_m ps" streams an ps "[]"] assms(2)
  by (auto simp: Broadcast_def sm_Tap_def)

lemma WriteContext_plain:
  assumes H: "helpers_ok H" and room: "length (event_wire H ev) \<le> n"
  shows "WriteContext H (Inr (open_out n)) ev NoRaw = Some (None, Some ((open_out n)\<lparr>o_bytes := event_wire H ev\<rparr>))"
proof -
  obtain arr where "WriteEvent H out_put (open_out n) new_encode_buffer (AnEvent ev)
      = Some (map_option (PWrite \<circ> FIo) (fst (out_put (open_out n) (event_wire H ev))),
          snd (out_put (open_out n) (event_wire H ev)), arr)"
    using write_wire [OF H, of out_put "open_out n" new_encode_buffer ev] by blast
  with room show ?thesis by (simp add: WriteContext_def out_put_def open_out_def)
qed

text \<open>The entries whose stream opens, and those whose does not, when the announcement goes round.\<close>

definition reached :: "(nat \<Rightarrow> io_error + out) \<Rightarrow> event_announce \<Rightarrow> bool \<Rightarrow> (i64, peer) gomap \<Rightarrow> i64 list" where
  "reached streams an up m =
     map fst (filter (\<lambda>(k, p). k \<noteq> From an \<and> ((\<exists>w. streams (conn p) = Inr w) = up)) m)"

lemma broadcast_to_exact:
  assumes H: "helpers_ok H" and room: "length (event_wire H (EventAnnounce an)) \<le> n"
    and streams: "\<And>c. streams c = Inr (open_out n) \<or> (\<exists>e. streams c = Inl e)"
    and ids: "list_all (\<lambda>(k, p). d_ID (metaData p) = k) m"
  shows "range_map m (broadcast_to H streams an) (Some (ps, sent))
    = Some (foldl sm_Delete ps (reached streams an False m),
        sent @ map (\<lambda>k. (k, (open_out n)\<lparr>o_bytes := event_wire H (EventAnnounce an)\<rparr>)) (reached streams an True m))"
  using ids
proof (induction m arbitrary: ps sent)
  case (Cons e m)
  obtain k p where e: "e = (k, p)" by fastforce
  consider (own) "k = From an" | (up) "k \<noteq> From an" "streams (conn p) = Inr (open_out n)"
    | (down) err where "k \<noteq> From an" "streams (conn p) = Inl err"
    using streams [of "conn p"] by blast
  then show ?case
  proof cases
    case own
    with Cons e show ?thesis by (simp add: broadcast_to_def reached_def)
  next
    case up
    with Cons e WriteContext_plain [OF H room] show ?thesis
      by (simp add: broadcast_to_def reached_def)
  next
    case down
    then have "WriteContext H (streams (conn p)) (EventAnnounce an) NoRaw = Some (Some (ErrOpenStream err), None)"
      by (simp add: WriteContext_def)
    with Cons e down show ?thesis
      by (simp add: broadcast_to_def reached_def)
  qed
qed (simp add: reached_def)

lemma sm_Get_deletes:
  "sm_ok ps \<Longrightarrow> sm_Get (foldl sm_Delete ps ks) = (\<lambda>k. if k \<in> set ks then None else sm_Get ps k)"
  by (induction ks arbitrary: ps) (auto simp: sm_ok_Delete store.get_del fun_eq_iff)

lemma node_ok_ids: "node_ok N \<Longrightarrow> list_all (\<lambda>(k, p). d_ID (metaData p) = k) (sm_m (peers N))"
  by (auto simp: node_ok_def list_all_iff sm_ok_def gomap_ok_def sm_Get_def)

lemma reached_iff:
  assumes "node_ok N"
  shows "k \<in> set (reached streams an up (sm_m (peers N))) \<longleftrightarrow>
    (\<exists>p. sm_Get (peers N) k = Some p \<and> k \<noteq> From an \<and> ((\<exists>w. streams (conn p) = Inr w) = up))"
proof -
  have "sm_Get (peers N) k = Some p \<longleftrightarrow> (k, p) \<in> set (sm_m (peers N))" for p
    using assms by (simp add: node_ok_def sm_ok_def gomap_ok_def sm_Get_def)
  then show ?thesis by (simp add: reached_def image_iff)
qed

section \<open>Monitor\<close>

lemma handleAnnounce_ok:
  assumes "options_ok opts" and "node_ok N"
  shows "\<exists>w N'. handleAnnounce opts streams now N an = Some (w, N') \<and> node_ok N'"
proof (cases "sm_Get (peers N) (From an)")
  case (Some p)
  obtain err w where w: "RequestMessage (helpers_of opts) (streams (conn p)) (MyID opts) now (a_ID (Payload an)) = Some (err, w)"
    using WriteContext_returns [of "helpers_of opts"] assms(1) unfolding RequestMessage_def options_ok_def
    by (metis not_None_eq surj_pair)
  have nack: "node_ok (N\<lparr>n_world := (n_world N)\<lparr>w_batches := snd (Add (w_batches (n_world N)) m)\<rparr>\<rparr>)" for m
    using assms(2) by (simp add: node_ok_def world_ok_def collector_ok_Add)
  show ?thesis
    using Some w assms(2) nack by (auto simp: handleAnnounce_def)
qed (simp add: handleAnnounce_def assms(2))

lemma monitor_update_ok:
  assumes "node_ok N"
  shows "\<exists>N'. monitor_update opts i now N u = Some N' \<and> node_ok N'"
proof -
  obtain c where "Send (w_channel (n_world N)) (Message_Event (MyID opts) now (messageFromUpdate i u)) = Some c" "channel_ok c"
    using Send_ok [of "w_channel (n_world N)" "Message_Event (MyID opts) now (messageFromUpdate i u)"] assms
    by (auto simp: node_ok_def world_ok_def)
  with assms show ?thesis by (simp add: monitor_update_def Let_def node_ok_def world_ok_def)
qed

lemma monitor_write_ok [inv_intros]: "node_ok N \<Longrightarrow> node_ok (monitor_write opts N m)"
  using collector_ok_Add [of "w_batches (n_world N)" "Payload m"]
  by (simp add: monitor_write_def node_ok_def world_ok_def Let_def case_prod_beta)

lemma node_ok_channel: "node_ok N \<Longrightarrow> channel_ok c \<Longrightarrow> node_ok (N\<lparr>n_world := (n_world N)\<lparr>w_channel := c\<rparr>\<rparr>)"
  by (simp add: node_ok_def world_ok_def)

lemma monitor_message_ok:
  assumes "options_ok opts" and "node_ok N"
  shows "\<exists>sent N'. monitor_message opts streams N = Some (sent, N') \<and> node_ok N'"
proof (cases "Messages (w_channel (n_world N))")
  case (Some r)
  obtain m c where r: "r = (m, c)" by fastforce
  let ?N = "monitor_write opts (N\<lparr>n_world := (n_world N)\<lparr>w_channel := c\<rparr>\<rparr>) m"
  let ?an = "\<lparr>From = From m, Created = Created m, Payload = Message_Announce (Payload m)\<rparr>"
  have ok: "node_ok ?N"
    using Messages_ok [of "w_channel (n_world N)" m c] Some r assms(2)
    by (intro monitor_write_ok node_ok_channel) (auto simp: node_ok_def world_ok_def)
  obtain ps sent where b: "Broadcast (helpers_of opts) streams (peers ?N) ?an = Some (ps, sent)" "sm_ok ps"
    "\<And>k p. sm_Get ps k = Some p \<Longrightarrow> sm_Get (peers ?N) k = Some p"
    using Broadcast_ok [of "helpers_of opts" "peers ?N" streams ?an] assms(1) ok
    by (auto simp: options_ok_def node_ok_def)
  have "node_ok (?N\<lparr>peers := ps\<rparr>)"
    using ok b(2,3) by (auto intro: node_ok_peers simp: node_ok_def)
  with b(1) Some r show ?thesis by (simp add: monitor_message_def Let_def)
qed (simp add: monitor_message_def assms(2))

lemma monitor_announce_ok:
  assumes "options_ok opts" and "node_ok N"
  shows "\<exists>w N'. monitor_announce opts streams now N = Some (w, N') \<and> node_ok N'"
proof (cases "Announcements (w_channel (n_world N))")
  case (Some r)
  obtain an c where r: "r = (an, c)" by fastforce
  have "node_ok (N\<lparr>n_world := (n_world N)\<lparr>w_channel := c\<rparr>\<rparr>)"
    using Announcements_ok [of "w_channel (n_world N)" an c] Some r assms(2)
    by (intro node_ok_channel) (auto simp: node_ok_def world_ok_def)
  from handleAnnounce_ok [OF assms(1) this] Some r show ?thesis by (simp add: monitor_announce_def)
qed (simp add: monitor_announce_def assms(2))

lemma monitor_ok:
  assumes "options_ok opts" and "node_ok N"
  shows "\<exists>r N'. monitor opts N is = Some (r, N') \<and> node_ok N'
    \<and> (r = None \<longleftrightarrow> list_all (\<lambda>i. case i of MonitorDone \<Rightarrow> False | WatchEnded _ \<Rightarrow> False | _ \<Rightarrow> True) is)"
  using assms(2)
proof (induction "is" arbitrary: N)
  case (Cons i "is")
  show ?case
  proof (cases i)
    case (MonitorMessage streams)
    with monitor_message_ok [OF assms(1) Cons.prems, of streams] Cons.IH show ?thesis by fastforce
  next
    case (MonitorAnnounce now streams)
    with monitor_announce_ok [OF assms(1) Cons.prems, of streams now] Cons.IH show ?thesis by fastforce
  qed (use Cons.prems in simp_all)
qed simp

lemma node_step_ok:
  assumes "options_ok opts" and "node_ok N"
  shows "\<exists>N'. node_step opts now N ev = Some N' \<and> node_ok N'"
proof (cases ev)
  case (Accepted c opened)
  with handleConnection_ok [OF assms, of now c opened] show ?thesis by auto
next
  case (Served c opened streams)
  with serveConnection_ok [OF assms] show ?thesis by simp
next
  case (Dialed r)
  with ConnectTo_ok [OF assms, of now r] show ?thesis by auto
next
  case (Discovered ip payload dial)
  with PeerDiscovered_ok [OF assms] show ?thesis by simp
next
  case (Incoming r op)
  have W: "world_ok (n_world N)" using assms(2) by (simp add: node_ok_def)
  obtain err o' W' where "handleStream (peer_env_of opts) op (n_world N) r = Some (err, o', W')" "world_ok W'"
    using handleStream_ok [OF _ W, of "peer_env_of opts" op r] assms(1)
    by (auto simp: options_ok_def peer_env_of_def)
  with Incoming assms(2) show ?thesis by (simp add: node_ok_def)
next
  case (Updated i u)
  with monitor_update_ok [OF assms(2)] show ?thesis by simp
next
  case (TakeMessage streams)
  with monitor_message_ok [OF assms, of streams] show ?thesis by auto
next
  case (TakeAnnounce streams)
  with monitor_announce_ok [OF assms, of streams now] show ?thesis by auto
next
  case (BatchTimer b)
  with assms(2) show ?thesis by (simp add: node_ok_def world_ok_def collector_ok_expire)
next
  case (Disconnected p)
  with cleanup_ok [OF assms(2)] show ?thesis by simp
qed

lemma node_run_ok:
  assumes "options_ok opts" and "node_ok N"
  shows "\<exists>N'. node_run opts N evs = Some N' \<and> node_ok N'"
  using assms(2)
proof (induction evs arbitrary: N)
  case (Cons e evs)
  obtain now ev where e: "e = (now, ev)" by fastforce
  obtain N' where "node_step opts now N ev = Some N'" "node_ok N'"
    using node_step_ok [OF assms(1) Cons.prems] by blast
  with e Cons.IH [of N'] show ?case by simp
qed simp

section \<open>Batches on their way to the clipboard\<close>

definition foreign_parts :: "node_options \<Rightarrow> event_message list \<Rightarrow> bool" where
  "foreign_parts opts ms \<longleftrightarrow>
     list_all (\<lambda>m. From m \<noteq> d_ID (my_Metadata opts) \<and> m_MimeType (Payload m) = TypePath
       \<and> m_BatchID (Payload m) \<noteq> 0 \<and> 1 < m_BatchTotal (Payload m)) ms"

lemma monitor_write_all:
  "foreign_parts opts ms \<Longrightarrow>
   foldl (monitor_write opts) N ms =
     N\<lparr>n_world := (n_world N)\<lparr>w_batches := snd (add_all (w_batches (n_world N)) (map Payload ms))\<rparr>,
       written := written N @ map (\<lambda>r. (TypePath, fst r))
         (filter snd (fst (add_all (w_batches (n_world N)) (map Payload ms))))\<rparr>"
proof (induction ms arbitrary: N)
  case (Cons m ms)
  then have "foreign_parts opts ms" by (simp add: foreign_parts_def)
  from Cons.IH [OF this] Cons.prems show ?case
    by (simp add: foreign_parts_def monitor_write_def Let_def case_prod_beta)
qed simp

lemma monitor_write_cong:
  assumes "w_batches (n_world N) = w_batches (n_world N')" and "written N = written N'"
  shows "w_batches (n_world (monitor_write opts N m)) = w_batches (n_world (monitor_write opts N' m))"
    and "written (monitor_write opts N m) = written (monitor_write opts N' m)"
  using assms by (auto simp: monitor_write_def Let_def case_prod_beta)

text \<open>A whole batch: nothing is written before its last part.\<close>

lemma monitor_write_parts:
  assumes "foreign_parts opts ms" and "batch_parts b n (map Payload ms)" and "ms \<noteq> []"
    and "unat n = length ms" and "map_of (w_batches (n_world N)) b = None"
  shows "written (foldl (monitor_write opts) N ms) = written N @
      [(TypePath, join_with batchSeparator (sort (filter (\<lambda>d. d \<noteq> []) (map (m_Data \<circ> Payload) ms))))]
    \<and> written (foldl (monitor_write opts) N (butlast ms)) = written N"
proof -
  obtain ns m where ms: "ms = ns @ [m]"
    using assms(3) by (cases ms rule: rev_cases) auto
  have f: "foreign_parts opts ns" using assms(1) ms by (simp add: foreign_parts_def)
  have c: "fst (add_all (w_batches (n_world N)) (map Payload ms)) =
      replicate (length ns) ([], False) @ [(join (parts_items (map Payload ms)), True)]"
    using add_all_complete [of b n "map Payload ns" "Payload m"] assms(2,4,5) ms by simp
  have "fst (add_all (w_batches (n_world N)) (map Payload ns)) = replicate (length ns) ([], False)"
    using add_all_incomplete [of b n "map Payload ns"] assms(2,4,5) ms batch_parts_prefix by auto
  then have "written (foldl (monitor_write opts) N ns) = written N"
    using monitor_write_all [OF f, of N] by (simp add: filter_replicate)
  moreover have "written (foldl (monitor_write opts) N ms) = written N @ [(TypePath, join (parts_items (map Payload ms)))]"
    using monitor_write_all [OF assms(1), of N] c by (simp add: filter_replicate)
  moreover have "join (parts_items (map Payload ms)) =
      join_with batchSeparator (sort (filter (\<lambda>d. d \<noteq> []) (map (m_Data \<circ> Payload) ms)))"
    by (simp add: join_def parts_items_def comp_def)
  ultimately show ?thesis using ms by (simp del: foldl_append)
qed

section \<open>Properties\<close>


definition sample_opts :: "i64 \<Rightarrow> node_options" where
  "sample_opts i = \<lparr>version = str ''1.0.0'', MyID = i, my_Metadata = sample_device i, ListenPort = 7001,
     MaxPeers = 1, Clip = \<lparr>AllowCopyFiles = True, MaxFileSize = 1000, MaxClipboardFiles = 15\<rparr>,
     peer_options = sample_env\<rparr>"

lemma sample_opts_ok: "options_ok (sample_opts i)"
  by (simp add: options_ok_def sample_opts_def ref_helpers_ok)


text \<open>C8. A broadcast writes the announcement, whole, on one stream to every registered peer except its
  author and to nobody else, and afterwards exactly the peers whose stream could not be opened are
  gone from the registry.\<close>

theorem broadcast_exact:
  assumes "helpers_ok H" and "node_ok N" and "length (event_wire H (EventAnnounce an)) \<le> n"
    and "\<And>c. streams c = Inr (open_out n) \<or> (\<exists>e. streams c = Inl e)"
  shows "\<exists>ps sent. Broadcast H streams (peers N) an = Some (ps, sent)
    \<and> distinct (map fst sent)
    \<and> set (map fst sent) = {k. \<exists>p. sm_Get (peers N) k = Some p \<and> k \<noteq> From an \<and> (\<exists>w. streams (conn p) = Inr w)}
    \<and> (\<forall>(k, w) \<in> set sent. o_bytes w = event_wire H (EventAnnounce an))
    \<and> sm_Get ps = (\<lambda>k. if \<exists>p e. sm_Get (peers N) k = Some p \<and> k \<noteq> From an \<and> streams (conn p) = Inl e
                        then None else sm_Get (peers N) k)"
proof -
  let ?m = "sm_m (peers N)"
  let ?sent = "map (\<lambda>k. (k, (open_out n)\<lparr>o_bytes := event_wire H (EventAnnounce an)\<rparr>)) (reached streams an True ?m)"
  let ?ps = "foldl sm_Delete (peers N) (reached streams an False ?m)"
  have "Broadcast H streams (peers N) an = Some (?ps, ?sent)"
    using broadcast_to_exact [OF assms(1,3,4) node_ok_ids [OF assms(2)], where ps = "peers N" and sent = "[]"]
    by (simp add: Broadcast_def sm_Tap_def)
  moreover have "distinct (reached streams an True ?m)"
    using assms(2) by (auto simp: node_ok_def sm_ok_def gomap_ok_def reached_def distinct_map_filter)
  moreover have down: "(\<forall>w. streams c \<noteq> Inr w) = (\<exists>e. streams c = Inl e)" for c
    using assms(4) [of c] by auto
  have "sm_Get ?ps = (\<lambda>k. if \<exists>p e. sm_Get (peers N) k = Some p \<and> k \<noteq> From an \<and> streams (conn p) = Inl e
                        then None else sm_Get (peers N) k)"
    using sm_Get_deletes [of "peers N" "reached streams an False ?m"] assms(2)
    unfolding reached_iff [OF assms(2)] by (simp add: down node_ok_def)
  ultimately show ?thesis
    using reached_iff [OF assms(2), of _ streams an True]
    by (intro exI [of _ ?ps] exI [of _ ?sent]) (auto simp: comp_def)
qed

definition sample_peer :: "nat \<Rightarrow> i64 \<Rightarrow> peer" where
  "sample_peer c i = \<lparr>conn = c, metaData = sample_device i\<rparr>"

definition two_peers :: node where
  "two_peers = (node_New 1 Map.empty)\<lparr>peers := sm_Add (sm_Add NewSyncMapStorage 2 (sample_peer 20 2)) 3 (sample_peer 30 3)\<rparr>"

lemma two_peers_ok: "node_ok two_peers"
  using node_ok_New [of 1 Map.empty]
  by (auto simp: node_ok_def two_peers_def sm_ok_Add sm_ok_new store.get_add sample_peer_def sample_device_def
      split: if_splits)

theorem broadcast_exact_witness:
  "\<exists>ps sent. Broadcast ref_helpers (\<lambda>c. if c = 20 then Inl EOF else Inr (open_out 100)) (peers two_peers)
      (file_ann 9) = Some (ps, sent) \<and> set (map fst sent) = {3} \<and> sm_Get ps 2 = None"
proof -
  have "length (event_wire ref_helpers (EventAnnounce (file_ann 9))) \<le> 100" by code_simp
  from broadcast_exact [OF ref_helpers_ok two_peers_ok this, of "\<lambda>c. if c = 20 then Inl EOF else Inr (open_out 100)"]
  obtain ps sent where b: "Broadcast ref_helpers (\<lambda>c. if c = 20 then Inl EOF else Inr (open_out 100)) (peers two_peers)
      (file_ann 9) = Some (ps, sent)"
    "set (map fst sent) = {k. \<exists>p. sm_Get (peers two_peers) k = Some p \<and> k \<noteq> From (file_ann 9)
       \<and> (\<exists>w. (if conn p = 20 then Inl EOF else Inr (open_out 100)) = Inr w)}"
    "sm_Get ps = (\<lambda>k. if \<exists>p e. sm_Get (peers two_peers) k = Some p \<and> k \<noteq> From (file_ann 9)
       \<and> (if conn p = 20 then Inl EOF else Inr (open_out 100)) = Inl e then None else sm_Get (peers two_peers) k)"
    by (fastforce split: if_splits simp del: set_map)
  have get: "sm_Get (peers two_peers) = [2 \<mapsto> sample_peer 20 2, 3 \<mapsto> sample_peer 30 3]"
    by (simp add: two_peers_def store.get_add sm_ok_Add sm_ok_new)
  have "set (map fst sent) = {3}"
    unfolding b(2) get by (auto simp: file_ann_def sample_peer_def split: if_splits)
  moreover have "sm_Get ps 2 = None"
    unfolding b(3) get by (simp add: file_ann_def sample_peer_def)
  ultimately show ?thesis using b(1) by blast
qed

text \<open>C9. An announcement is answered with a request for exactly the announced message, on the author's
  connection, if and only if the author is a registered peer, the content is within the size limit
  and it is not the message the node already has; in no case does it change the channel or the
  registry.\<close>

theorem announce_requested_iff:
  assumes "helpers_ok (helpers_of opts)"
    and "length (event_wire (helpers_of opts) (EventRequest (NewRequest (MyID opts) now (a_ID (Payload an))))) \<le> n"
  shows "\<exists>req N'. handleAnnounce opts (\<lambda>_. Inr (open_out n)) now N an = Some (req, N')
    \<and> map_option o_bytes req =
        (if sm_Get (peers N) (From an) \<noteq> None \<and> a_ContentLength (Payload an) \<le> MaxFileSize (Clip opts)
            \<and> \<not> DuplicateByAnnounce (Payload (lastMsg (w_channel (n_world N)))) (Payload an)
         then Some (event_wire (helpers_of opts) (EventRequest (NewRequest (MyID opts) now (a_ID (Payload an)))))
         else None)
    \<and> peers N' = peers N \<and> w_channel (n_world N') = w_channel (n_world N)"
  using WriteContext_plain [OF assms]
  by (cases "sm_Get (peers N) (From an)")
    (auto simp: handleAnnounce_def RequestMessage_def LastMsg_def not_less)

theorem announce_requested_iff_witness:
  "\<exists>req N'. handleAnnounce (sample_opts 1) (\<lambda>_. Inr (open_out 100)) sample_time two_peers
      ((file_ann 9)\<lparr>From := 2\<rparr>) = Some (Some req, N')"
proof -
  let ?an = "(file_ann 9)\<lparr>From := 2\<rparr>"
  have "length (event_wire ref_helpers (EventRequest (NewRequest 1 sample_time 9))) \<le> 100" by code_simp
  then have len: "length (event_wire (helpers_of (sample_opts 1))
      (EventRequest (NewRequest (MyID (sample_opts 1)) sample_time (a_ID (Payload ?an))))) \<le> 100"
    by (simp add: sample_opts_def file_ann_def file_msg_def)
  have "helpers_ok (helpers_of (sample_opts 1))" using sample_opts_ok by (simp add: options_ok_def)
  from announce_requested_iff [OF this len, of two_peers] show ?thesis
    by (auto simp: two_peers_def store.get_add sm_ok_Add sm_ok_new sample_opts_def file_ann_def file_msg_def
        node_New_def New_def zero_event_message_def zero_message_def DuplicateByAnnounce_def split: if_splits)
qed

text \<open>A batch of files another node sends is written to the clipboard exactly once, when its last
  part is taken from the channel, in whatever order the parts come: as the sorted list of the paths
  under which they were stored; until then nothing is written.\<close>

theorem batch_written_once:
  assumes "foreign_parts opts ms" and "batch_parts b n (map Payload ms)" and "ms \<noteq> []"
    and "unat n = length ms" and "map_of (w_batches (n_world N)) b = None"
  shows "written (foldl (monitor_write opts) N ms) = written N @
      [(TypePath, join_with batchSeparator (sort (filter (\<lambda>d. d \<noteq> []) (map (m_Data \<circ> Payload) ms))))]
    \<and> written (foldl (monitor_write opts) N (butlast ms)) = written N"
  using monitor_write_parts [OF assms] .

definition path_part :: "i64 \<Rightarrow> byte list \<Rightarrow> event_message" where
  "path_part i d = \<lparr>From = 2, Created = sample_time, Payload = (part i 9 2 d)\<lparr>m_MimeType := TypePath\<rparr>\<rparr>"

theorem batch_written_once_witness:
  "written (foldl (monitor_write (sample_opts 1)) two_peers [path_part 5 (str ''/b''), path_part 4 (str ''/a'')])
     = [(TypePath, str ''/a'' @ [10] @ str ''/b'')]"
  using batch_written_once [of "sample_opts 1" "[path_part 5 (str ''/b''), path_part 4 (str ''/a'')]" 9 2 two_peers]
  by (simp add: foreign_parts_def batch_parts_def path_part_def part_def zero_message_def sample_opts_def sample_device_def
      two_peers_def node_New_def NewBatchCollector_def batchSeparator_def del: foldl.simps)

text \<open>The same clipboard content reported twice in a row is sent to the channel once: the second
  report, whatever identifier and time it would get, changes nothing.\<close>

theorem update_forwarded_once:
  assumes "node_ok N" and "i \<noteq> 0" and "j \<noteq> 0" and "i \<noteq> m_ID (current N)"
  shows "\<exists>N'. monitor_update opts i now N u = Some N' \<and> monitor_update opts j now' N' u = Some N'"
proof -
  have fields: "m_MimeType (messageFromUpdate k u) = u_MimeType u" "m_ContentHash (messageFromUpdate k u) = u_Hash u"
    "m_ID (messageFromUpdate k u) = k"
    "m_ContentLength (messageFromUpdate k u) = (if IsPath (u_MimeType u) then u_Size u else of_nat (length (u_Data u)))" for k
    by (simp_all add: messageFromUpdate_def)
  obtain c where "Send (w_channel (n_world N)) (Message_Event (MyID opts) now (messageFromUpdate i u)) = Some c"
    using Send_ok [of "w_channel (n_world N)" "Message_Event (MyID opts) now (messageFromUpdate i u)"] assms(1)
    by (auto simp: node_ok_def world_ok_def)
  with assms(2-4) show ?thesis
    by (auto simp: monitor_update_def Let_def Message_Zero_def Message_Duplicate_def fields)
qed

theorem update_forwarded_once_witness:
  "\<exists>N'. monitor_update (sample_opts 1) 5 sample_time two_peers
      \<lparr>u_Data = [104, 105], u_Size = 2, u_MimeType = TypeText, u_Hash = 77, u_BatchID = 0, u_BatchTotal = 0\<rparr> = Some N'
    \<and> monitor_update (sample_opts 1) 6 sample_time N'
      \<lparr>u_Data = [104, 105], u_Size = 2, u_MimeType = TypeText, u_Hash = 77, u_BatchID = 0, u_BatchTotal = 0\<rparr> = Some N'"
  by (rule update_forwarded_once [OF two_peers_ok]) (simp_all add: two_peers_def node_New_def zero_message_def)

text \<open>C12. When a registered node connects again, its old connection is closed but stays the registered
  one (the storage keeps the first value), and when the old connection's handler ends it removes the
  node from the registry: the new connection is open and receiving, but no announcement is ever
  broadcast to it and none of its announcements is answered.\<close>

theorem reconnect_unregisters:
  assumes "node_ok N" and "sm_Get (peers N) (d_ID (h_MetaData hand)) = Some old"
    and "c \<noteq> conn old" and "c \<notin> set (closed N)"
    and "addPeer N hand c = (pr, N1)" and "cleanup N1 old = N2"
  shows "sm_Get (peers N1) (d_ID (h_MetaData hand)) = Some old \<and> conn old \<in> set (closed N1)
    \<and> conn pr = c \<and> c \<notin> set (closed N2) \<and> sm_Get (peers N2) (d_ID (h_MetaData hand)) = None"
proof -
  have sm: "sm_ok (peers N)" and i: "d_ID (metaData old) = d_ID (h_MetaData hand)"
    using assms(1,2) by (simp_all add: node_ok_def)
  have N1: "N1 = N\<lparr>closed := conn old # closed N, peers := sm_Add (peers N) (d_ID (h_MetaData hand)) pr\<rparr>"
    and pr: "conn pr = c"
    using assms(2,5) by (auto simp: addPeer_def Let_def)
  have get: "sm_Get (peers N1) = sm_Get (peers N)"
    using sm assms(2) unfolding N1 by (simp add: store.get_add)
  have "sm_ok (peers N1)" using sm unfolding N1 by (simp add: sm_ok_Add)
  with get assms(2,3,4,6) N1 pr i show ?thesis
    by (auto simp: cleanup_def Let_def store.get_del)
qed

theorem reconnect_unregisters_witness:
  "sm_Get (peers (cleanup (snd (addPeer two_peers \<lparr>h_Version = [], h_MetaData = sample_device 2, h_Port = 1\<rparr> 21))
     (sample_peer 20 2))) 2 = None"
proof -
  let ?h = "\<lparr>h_Version = [], h_MetaData = sample_device 2, h_Port = 1\<rparr>"
  have "addPeer two_peers ?h 21 = (fst (addPeer two_peers ?h 21), snd (addPeer two_peers ?h 21))" by simp
  from reconnect_unregisters [OF two_peers_ok _ _ _ this refl, of "sample_peer 20 2"] show ?thesis
    by (simp add: two_peers_def store.get_add sm_ok_Add sm_ok_new sample_device_def sample_peer_def node_New_def)
qed

text \<open>The peer limit binds connections the node dials: at the limit they are refused whatever the
  transport would give. It does not bind connections it accepts: one more node that shakes hands is
  registered.\<close>

theorem limit_only_dialled:
  assumes "node_ok N" and "MaxPeers opts \<le> sm_Len (peers N)" and "length (sm_m (peers N)) < 2 ^ 63 - 1"
    and "exchange (helpers_of opts) (e_AsTime (peer_options opts)) (greeting opts now) opened = Some (Inr h, w)"
    and "sm_Get (peers N) (d_ID (h_MetaData (Payload h))) = None"
  shows "ConnectTo opts now N dialed = Some (Inl (Some ErrMaxPeersReached), N)
    \<and> (\<exists>pr N'. handleConnection opts now N c opened = Some (Inr pr, N')
        \<and> sm_Len (peers N') = sm_Len (peers N) + 1)"
proof -
  have sm: "sm_ok (peers N)" using assms(1) by (simp add: node_ok_def)
  let ?p = "\<lparr>conn = c, metaData = h_MetaData (Payload h)\<rparr>"
  have hc: "handleConnection opts now N c opened
      = Some (Inr ?p, N\<lparr>peers := sm_Add (peers N) (d_ID (h_MetaData (Payload h))) ?p\<rparr>)"
    using assms(4,5) by (simp add: handleConnection_def addPeer_def Let_def)
  have "length (sm_m (sm_Add (peers N) (d_ID (h_MetaData (Payload h))) ?p)) = Suc (length (sm_m (peers N)))"
    using assms(5) length_update_new [OF map_of_None_keys [OF assms(5)[unfolded sm_Get_def]]]
    by (simp add: sm_Add_def LoadOrStore_def sm_Get_def)
  then have "sm_Len (sm_Add (peers N) (d_ID (h_MetaData (Payload h))) ?p) = sm_Len (peers N) + 1"
    using assms(3) by (intro store.add_grows [OF sm assms(5)]) (simp_all add: sm_big_def)
  with hc assms(2) show ?thesis by (simp add: ConnectTo_def)
qed

theorem limit_only_dialled_witness:
  "\<exists>pr N'. handleConnection (sample_opts 1) sample_time two_peers 40
      (Inr (\<lparr>r_bytes = event_wire ref_helpers (EventHandshake (sample_greet (str ''1.0.0'') 1)), r_err = EOF\<rparr>, open_out 100))
    = Some (Inr pr, N') \<and> sm_Len (peers N') = 3"
proof -
  let ?g = "sample_greet (str ''1.0.0'') 1"
  let ?in = "(\<lparr>r_bytes = event_wire ref_helpers (EventHandshake ?g), r_err = EOF\<rparr>, open_out 100)"
  have greet: "greeting (sample_opts 1) sample_time = ?g"
    by (simp add: greeting_def sample_greet_def sample_opts_def)
  have len: "length (event_wire ref_helpers (EventHandshake ?g)) \<le> 100" by code_simp
  obtain w where ex: "exchange ref_helpers ref_AsTime ?g (Inr ?in) = Some (Inr (?g\<lparr>From := 0\<rparr>), Some w)"
    using exchange_wire [OF ref_helpers_ok ref_AsTime_ok sample_greet_sendable(1) len, of "[]" EOF]
    by (auto simp: IsMajorDifference_refl)
  have dev: "d_ID (h_MetaData (Payload (?g\<lparr>From := 0\<rparr>))) = 1"
    by (simp add: sample_greet_def sample_device_def)
  have len2: "sm_Len (peers two_peers) = 2" "length (sm_m (peers two_peers)) = 2" "sm_Get (peers two_peers) 1 = None"
    by code_simp+
  have "ConnectTo (sample_opts 1) sample_time two_peers (Inl (ErrDialSecret ErrSecretMismatch)) = Some (Inl (Some ErrMaxPeersReached), two_peers)
    \<and> (\<exists>pr N'. handleConnection (sample_opts 1) sample_time two_peers 40 (Inr ?in) = Some (Inr pr, N')
        \<and> sm_Len (peers N') = sm_Len (peers two_peers) + 1)"
    by (rule limit_only_dialled [OF two_peers_ok, where h = "?g\<lparr>From := 0\<rparr>" and w = "Some w"])
      (use ex len2 dev greet in \<open>simp_all add: sample_opts_def\<close>)
  with len2(1) show ?thesis by simp
qed

text \<open>A node that hears another's discovery payload dials exactly the address it came from and the
  port the other listens on, unless the other is already a registered peer.\<close>

theorem discovery_dials:
  assumes "helpers_ok (helpers_of a)" and "as_time_ok (e_AsTime (peer_options b))"
    and "helpers_of b = helpers_of a"
    and "sendable (helpers_of a) (EventHandshake (greeting a now))"
    and "0 \<le> ListenPort a" and "ListenPort a < 65536"
  shows "\<exists>payload. DiscoveryPayload a now = Some payload
    \<and> PeerDiscovered b now' dial N ip payload =
        (if sm_Get (peers N) (d_ID (my_Metadata a)) \<noteq> None then Some N
         else map_option snd (ConnectTo b now' N (dial (ip @ str '':'' @ nat_digits (nat (ListenPort a))))))"
proof -
  let ?g = "greeting a now"
  have "DiscoveryPayload a now = Some (event_wire (helpers_of a) (EventHandshake ?g))"
    by (simp add: DiscoveryPayload_def greeting_def newHandshake_def MustEncode_def Encode_event [OF assms(1)])
  moreover have "DecodeExpect as_handshake (helpers_of b) (e_AsTime (peer_options b))
      \<lparr>r_bytes = event_wire (helpers_of a) (EventHandshake ?g), r_err = EOF\<rparr>
      = Some (Inr (?g\<lparr>From := 0\<rparr>), \<lparr>r_bytes = [], r_err = EOF\<rparr>)"
    using DecodeExpect_handshake [OF assms(1,2,4), of "[]" EOF] assms(3) by simp
  moreover have "unat (h_Port (Payload ?g)) = nat (ListenPort a)"
    using port_value [OF assms(5,6)] by (simp add: greeting_def unat_eq_nat_uint del: nat_uint_eq)
  ultimately show ?thesis
    by (simp add: PeerDiscovered_def sm_Exist_def sm_Get_def greeting_def)
qed

theorem discovery_dials_witness:
  "\<exists>payload. DiscoveryPayload (sample_opts 1) sample_time = Some payload
    \<and> PeerDiscovered (sample_opts 2) sample_time
        (\<lambda>addr. if addr = str ''10.0.0.1:7001'' then Inl (ErrDialSecret ErrSecretMismatch) else Inl (ErrOtherDial addr))
        (node_New 1 Map.empty) (str ''10.0.0.1'') payload = Some (node_New 1 Map.empty)"
proof -
  have g: "greeting (sample_opts 1) sample_time = sample_greet (str ''1.0.0'') 1"
    by (simp add: greeting_def sample_greet_def sample_opts_def)
  let ?dial = "\<lambda>addr. if addr = str ''10.0.0.1:7001'' then Inl (ErrDialSecret ErrSecretMismatch) else Inl (ErrOtherDial addr)"
  have digits: "nat_digits 7001 = str ''7001''" by (simp add: nat_digits.simps)
  have "helpers_of (sample_opts i) = ref_helpers" "e_AsTime (peer_options (sample_opts i)) = ref_AsTime"
    "ListenPort (sample_opts i) = 7001" for i
    by (simp_all add: sample_opts_def)
  note d = discovery_dials [of "sample_opts 1" "sample_opts 2" sample_time sample_time ?dial "node_New 1 Map.empty" "str ''10.0.0.1''",
      unfolded this g, OF ref_helpers_ok ref_AsTime_ok refl sample_greet_sendable(1)]
  have c: "ConnectTo (sample_opts 2) sample_time (node_New 1 Map.empty) (Inl (ErrDialSecret ErrSecretMismatch))
      = Some (Inl None, node_New 1 Map.empty)"
    by (simp add: ConnectTo_def sample_opts_def node_New_def sm_Len_def NewSyncMapStorage_def)
  have dl: "?dial (str ''10.0.0.1'' @ str '':'' @ nat_digits (nat 7001)) = Inl (ErrDialSecret ErrSecretMismatch)"
    using digits by simp
  have "sm_Get (peers (node_New 1 Map.empty)) i = None" for i
    by (simp add: node_New_def)
  with c d show ?thesis unfolding dl by simp
qed

end
