(* ===== verification/Sync.thy ===== *)
theory Sync
  imports Node
begin

text \<open>
  Two nodes together: a content copied on one node, followed through every component up to the
  clipboard of the other. The steps are those of \<open>Node\<close> and \<open>Peer\<close>, the bytes one side writes are the
  bytes the other side reads, and every stream takes up to \<open>n\<close> bytes.
\<close>

section \<open>A file's name\<close>

text \<open>The name of a copied file is the last component of its path, so the store takes it.\<close>

lemma path_base_snoc:
  assumes "normal_comp c"
  shows "path_base (p @ slash # c) = c"
proof -
  have c: "c \<noteq> []" "slash \<notin> set c" using assms by (auto simp: normal_comp_def)
  then obtain x xs where x: "rev c = x # xs" by (cases "rev c") auto
  with c have "x \<noteq> slash" by (metis list.set_intros(1) set_rev)
  with x have "dropWhile (\<lambda>b. b = slash) (rev (p @ slash # c)) = rev (p @ slash # c)" by simp
  moreover have "takeWhile (\<lambda>b. b \<noteq> slash) (rev (p @ slash # c)) = rev c"
    using c(2) takeWhile_append2 [of "rev c" "\<lambda>b. b \<noteq> slash" "slash # rev p"] by simp (metis)
  ultimately show ?thesis using c(1) by (simp add: path_base_def)
qed

section \<open>Streams between the nodes\<close>

lemma handleStream_announce:
  assumes "helpers_ok (e_helpers E)" and "as_time_ok (e_AsTime E)" and "sendable (e_helpers E) (EventAnnounce an)"
  shows "handleStream E op W \<lparr>r_bytes = event_wire (e_helpers E) (EventAnnounce an), r_err = e\<rparr>
    = (case Announce (w_channel W) (an\<lparr>From := Author (a_ID (Payload an)),
           Payload := (Payload an)\<lparr>a_MimeType := received_mime (a_MimeType (Payload an))\<rparr>\<rparr>) of
         None \<Rightarrow> None | Some c \<Rightarrow> Some (None, None, W\<lparr>w_channel := c\<rparr>))"
  using DecodeEvent_wire [OF assms, of "[]" e] by (simp add: handleStream_def)

lemma handleStream_request:
  assumes "helpers_ok (e_helpers E)" and "as_time_ok (e_AsTime E)" and "sendable (e_helpers E) (EventRequest req)"
    and "Get (w_channel W) (r_ID (Payload req)) = Some em"
    and "m_ID (Payload em) = r_ID (Payload req)" and "\<not> IsPath (m_MimeType (Payload em))"
    and "length (event_wire (e_helpers E) (EventMessage em)) + length (m_Data (Payload em)) \<le> n"
  shows "\<exists>w. handleStream E (Inr (open_out n)) W \<lparr>r_bytes = event_wire (e_helpers E) (EventRequest req), r_err = e\<rparr>
      = Some (None, Some w, W)
    \<and> o_bytes w = event_wire (e_helpers E) (EventMessage em) @ m_Data (Payload em)"
proof -
  let ?req = "req\<lparr>From := Author (r_ID (Payload req))\<rparr>"
  obtain w where "handleRequest (e_helpers E) (w_fs W) (Inr (open_out n)) em ?req = Some (None, Some w)"
    "o_bytes w = event_wire (e_helpers E) (EventMessage em) @ m_Data (Payload em)"
    using handleRequest_sends [OF assms(1), of em ?req "w_fs W" "m_Data (Payload em)" n] assms(5-7)
    by (auto simp: raw_of_def)
  with DecodeEvent_wire [OF assms(1-3), of "[]" e] assms(4) show ?thesis
    by (simp add: handleStream_def)
qed

section \<open>A content on its way\<close>

text \<open>A text or picture as a message, and what is needed for it to travel.\<close>

definition plain_update :: "update \<Rightarrow> bool" where
  "plain_update u \<longleftrightarrow> u_MimeType u \<in> {TypeText, TypeImage} \<and> u_Hash u \<noteq> 0 \<and> u_Data u \<noteq> []
     \<and> length (u_Data u) < 2 ^ 63 \<and> u_BatchID u = 0"

definition event_of :: "node_options \<Rightarrow> gotime \<Rightarrow> i64 \<Rightarrow> update \<Rightarrow> event_message" where
  "event_of a now i u = Message_Event (MyID a) now (messageFromUpdate i u)"

definition announce_of :: "event_message \<Rightarrow> event_announce" where
  "announce_of m = \<lparr>From = From m, Created = Created m, Payload = Message_Announce (Payload m)\<rparr>"

lemma plain_message:
  assumes "plain_update u" and "i \<noteq> 0"
  shows "messageFromUpdate i u = \<lparr>m_ID = i, m_Data = u_Data u, m_MimeType = u_MimeType u, m_ContentHash = u_Hash u,
      m_ContentLength = of_nat (length (u_Data u)), m_Name = [], m_BatchID = 0, m_BatchTotal = u_BatchTotal u\<rparr>"
    and "\<not> Message_Zero (messageFromUpdate i u)" and "received_mime (u_MimeType u) = u_MimeType u"
    and "unat (of_nat (length (u_Data u)) :: u64) = length (u_Data u)"
proof -
  have len: "unat (of_nat (length (u_Data u)) :: u64) = length (u_Data u)"
    using assms(1) by (simp add: plain_update_def unsigned_of_nat take_bit_nat_eq_self)
  moreover have "length (u_Data u) \<noteq> 0" using assms(1) by (simp add: plain_update_def)
  ultimately have "(of_nat (length (u_Data u)) :: u64) \<noteq> 0" by (metis unsigned_0)
  with assms len show "messageFromUpdate i u = \<lparr>m_ID = i, m_Data = u_Data u, m_MimeType = u_MimeType u, m_ContentHash = u_Hash u,
      m_ContentLength = of_nat (length (u_Data u)), m_Name = [], m_BatchID = 0, m_BatchTotal = u_BatchTotal u\<rparr>"
    "\<not> Message_Zero (messageFromUpdate i u)" "received_mime (u_MimeType u) = u_MimeType u"
    "unat (of_nat (length (u_Data u)) :: u64) = length (u_Data u)"
    by (auto simp: plain_update_def messageFromUpdate_def IsPath_def Message_Zero_def received_mime_def)
qed

text \<open>The update of one node, followed to the clipboard of the other.\<close>

definition copy_once ::
  "node_options \<Rightarrow> node_options \<Rightarrow> nat \<Rightarrow> gotime \<Rightarrow> i64 \<Rightarrow> update \<Rightarrow> node \<Rightarrow> node \<Rightarrow> (node \<times> node) option" where
  "copy_once a b n now i u NA NB =
     Option.bind (monitor_update a i now NA u) (\<lambda>NA1.
     Option.bind (monitor_message a (\<lambda>_. Inr (open_out n)) NA1) (\<lambda>(sent, NA2).
     Option.bind (map_of sent (d_ID (my_Metadata b))) (\<lambda>w1.
     Option.bind (handleStream (peer_env_of b) (Inr (open_out n)) (n_world NB) \<lparr>r_bytes = o_bytes w1, r_err = EOF\<rparr>) (\<lambda>(_, _, W1).
     Option.bind (monitor_announce b (\<lambda>_. Inr (open_out n)) now (NB\<lparr>n_world := W1\<rparr>)) (\<lambda>(req, NB2).
     Option.bind req (\<lambda>w2.
     Option.bind (handleStream (peer_env_of a) (Inr (open_out n)) (n_world NA2) \<lparr>r_bytes = o_bytes w2, r_err = EOF\<rparr>) (\<lambda>(_, reply, WA).
     Option.bind reply (\<lambda>w3.
     Option.bind (handleStream (peer_env_of b) (Inr (open_out n)) (n_world NB2) \<lparr>r_bytes = o_bytes w3, r_err = EOF\<rparr>) (\<lambda>(_, _, W3).
     map_option (\<lambda>(_, NB3). (NA2\<lparr>n_world := WA\<rparr>, NB3))
       (monitor_message b (\<lambda>_. Inr (open_out n)) (NB2\<lparr>n_world := W3\<rparr>)))))))))))"

lemma peer_env_of_simps [simp]:
  "e_helpers (peer_env_of opts) = helpers_of opts" "e_AsTime (peer_env_of opts) = e_AsTime (peer_options opts)"
  "maxReceiveSize (peer_env_of opts) = MaxFileSize (Clip opts)"
  by (simp_all add: peer_env_of_def)

text \<open>An update that makes a message, and whose type the other side understands.\<close>

definition carried :: "i64 \<Rightarrow> update \<Rightarrow> bool" where
  "carried i u \<longleftrightarrow> \<not> Message_Zero (messageFromUpdate i u) \<and> received_mime (u_MimeType u) = u_MimeType u"

lemma message_fields [simp]:
  "m_ID (messageFromUpdate i u) = i" "m_Data (messageFromUpdate i u) = u_Data u"
  "m_MimeType (messageFromUpdate i u) = u_MimeType u" "m_ContentHash (messageFromUpdate i u) = u_Hash u"
  "m_BatchID (messageFromUpdate i u) = u_BatchID u" "m_BatchTotal (messageFromUpdate i u) = u_BatchTotal u"
  by (simp_all add: messageFromUpdate_def)

lemma event_fields [simp]:
  "Payload (event_of a now i u) = messageFromUpdate i u" "From (event_of a now i u) = MyID a"
  "From (announce_of m) = From m" "Created (announce_of m) = Created m"
  "Payload (announce_of m) = Message_Announce (Payload m)"
  by (simp_all add: event_of_def Message_Event_def announce_of_def)

lemma plain_carried: "plain_update u \<Longrightarrow> i \<noteq> 0 \<Longrightarrow> carried i u"
  using plain_message(2,3) by (simp add: carried_def)

text \<open>When every stream opens, a broadcast removes nobody and every other node gets the announcement.\<close>

lemma broadcast_all:
  assumes H: "helpers_ok H" and N: "node_ok N"
    and room: "length (event_wire H (EventAnnounce an)) \<le> n"
  obtains sent where "Broadcast H (\<lambda>_. Inr (open_out n)) (peers N) an = Some (peers N, sent)"
    and "\<And>k p. sm_Get (peers N) k = Some p \<Longrightarrow> k \<noteq> From an \<Longrightarrow>
      \<exists>w. map_of sent k = Some w \<and> o_bytes w = event_wire H (EventAnnounce an)"
proof -
  let ?up = "reached (\<lambda>_. Inr (open_out n)) an True (sm_m (peers N))"
  let ?sent = "map (\<lambda>k. (k, (open_out n)\<lparr>o_bytes := event_wire H (EventAnnounce an)\<rparr>)) ?up"
  have none: "reached (\<lambda>_. Inr (open_out n)) an False (sm_m (peers N)) = []"
    by (auto simp: reached_def filter_empty_conv)
  have "range_map (sm_m (peers N)) (broadcast_to H (\<lambda>_. Inr (open_out n)) an) (Some (peers N, []))
      = Some (foldl sm_Delete (peers N) (reached (\<lambda>_. Inr (open_out n)) an False (sm_m (peers N))), [] @ ?sent)"
    by (rule broadcast_to_exact [OF H room]) (simp_all add: node_ok_ids [OF N])
  then have b: "Broadcast H (\<lambda>_. Inr (open_out n)) (peers N) an = Some (peers N, ?sent)"
    by (simp add: Broadcast_def sm_Tap_def none)
  have "\<exists>w. map_of ?sent k = Some w \<and> o_bytes w = event_wire H (EventAnnounce an)"
    if "sm_Get (peers N) k = Some p" "k \<noteq> From an" for k p
  proof -
    have "k \<in> set ?up" using reached_iff [OF N] that by auto
    then have "k \<in> fst ` set ?sent" by (simp add: image_image)
    then obtain w where "map_of ?sent k = Some w" by (metis map_of_eq_None_iff not_None_eq)
    moreover from map_of_SomeD [OF this] have "o_bytes w = event_wire H (EventAnnounce an)" by auto
    ultimately show ?thesis by blast
  qed
  with b show thesis by (rule that)
qed

text \<open>The side that copies: the message becomes the last one, and its announcement goes out.\<close>

lemma copier_announces:
  assumes a: "options_ok a" and N: "node_ok NA" and u: "carried i u"
    and own: "MyID a = d_ID (my_Metadata a)" and queue: "msg (w_channel (n_world NA)) = []"
    and new: "\<not> Message_Duplicate (messageFromUpdate i u) (current NA)"
      "\<not> Message_Duplicate (Payload (lastMsg (w_channel (n_world NA)))) (messageFromUpdate i u)"
    and peer: "sm_Get (peers NA) k = Some p" "k \<noteq> MyID a"
    and room: "length (event_wire (helpers_of a) (EventAnnounce (announce_of (event_of a now i u)))) \<le> n"
  shows "\<exists>NA1 sent NA2 w. monitor_update a i now NA u = Some NA1
    \<and> monitor_message a (\<lambda>_. Inr (open_out n)) NA1 = Some (sent, NA2) \<and> map_of sent k = Some w
    \<and> o_bytes w = event_wire (helpers_of a) (EventAnnounce (announce_of (event_of a now i u)))
    \<and> node_ok NA2 \<and> peers NA2 = peers NA \<and> w_fs (n_world NA2) = w_fs (n_world NA)
    \<and> current NA2 = messageFromUpdate i u \<and> lastMsg (w_channel (n_world NA2)) = event_of a now i u
    \<and> msg (w_channel (n_world NA2)) = [] \<and> written NA2 = written NA
    \<and> ann (w_channel (n_world NA2)) = ann (w_channel (n_world NA))
    \<and> fileHistory (w_channel (n_world NA2)) = fileHistory (w_channel (n_world NA))"
proof -
  let ?em = "event_of a now i u"
  have H: "helpers_ok (helpers_of a)" using a by (simp add: options_ok_def)
  obtain h where send: "Send (w_channel (n_world NA)) ?em
      = Some ((w_channel (n_world NA))\<lparr>lastMsg := ?em, servedFiles := h, msg := [?em]\<rparr>)"
    using Send_new [of "w_channel (n_world NA)" ?em] N new(2) queue by (auto simp: node_ok_def world_ok_def)
  let ?c = "(w_channel (n_world NA))\<lparr>lastMsg := ?em, servedFiles := h, msg := [?em]\<rparr>"
  let ?NA1 = "NA\<lparr>current := messageFromUpdate i u, n_world := (n_world NA)\<lparr>w_channel := ?c\<rparr>\<rparr>"
  have up: "monitor_update a i now NA u = Some ?NA1"
    using u new(1) send by (simp add: monitor_update_def Let_def event_of_def carried_def)
  have N1: "node_ok ?NA1"
    using monitor_update_ok [OF N, of a i now u] up by simp
  let ?NA2 = "?NA1\<lparr>n_world := (n_world ?NA1)\<lparr>w_channel := ?c\<lparr>msg := []\<rparr>\<rparr>\<rparr>"
  obtain sent where b: "Broadcast (helpers_of a) (\<lambda>_. Inr (open_out n)) (peers ?NA1) (announce_of ?em) = Some (peers ?NA1, sent)"
    "\<And>k p. sm_Get (peers ?NA1) k = Some p \<Longrightarrow> k \<noteq> MyID a \<Longrightarrow>
      \<exists>w. map_of sent k = Some w \<and> o_bytes w = event_wire (helpers_of a) (EventAnnounce (announce_of ?em))"
    using broadcast_all [OF H N1 room] by auto
  have mon: "monitor_message a (\<lambda>_. Inr (open_out n)) ?NA1 = Some (sent, ?NA2)"
    using b(1) own by (simp add: monitor_message_def Messages_def monitor_write_def announce_of_def event_of_def Message_Event_def Let_def)
  have "node_ok ?NA2" using monitor_message_ok [OF a N1, of "\<lambda>_. Inr (open_out n)"] mon by simp
  with up mon b(2) [of k p] peer show ?thesis by fastforce
qed

lemma event_of_simps:
  assumes "plain_update u" and "i \<noteq> 0"
  shows "Payload (event_of a now i u) = messageFromUpdate i u" "m_ID (messageFromUpdate i u) = i"
    "m_Data (messageFromUpdate i u) = u_Data u" "m_MimeType (messageFromUpdate i u) = u_MimeType u"
    "m_ContentHash (messageFromUpdate i u) = u_Hash u"
    "m_ContentLength (messageFromUpdate i u) = of_nat (length (u_Data u))" "m_BatchID (messageFromUpdate i u) = 0"
    "m_Name (messageFromUpdate i u) = []" "u_MimeType u \<noteq> TypePath"
  using assms(1) by (simp_all add: event_of_def Message_Event_def plain_message(1) [OF assms], auto simp: plain_update_def)

lemma Announce_new:
  assumes "channel_ok c" and "a_ContentHash (Payload an) \<notin> ann_hashes c"
  shows "\<exists>h. Announce c an = Some (c\<lparr>fileHistory := h, ann := ann c @ [an]\<rparr>)
    \<and> fst ` set (fifo_entries h) \<subseteq> insert (a_ContentHash (Payload an)) (ann_hashes c)
    \<and> a_ContentHash (Payload an) \<in> fst ` set (fifo_entries h)"
proof -
  have inv: "fifo_inv HistorySize (fileHistory c)" using assms(1) by (simp add: channel_ok_def)
  have "fifo_Get (fileHistory c) (a_ContentHash (Payload an)) = None"
    using assms(2) hist.get_None [OF inv] by (simp add: ann_hashes_def)
  from hist.add_absent [OF inv this, of an] obtain h where
    "fifo_Add (fileHistory c) (a_ContentHash (Payload an)) an = Some (True, h)"
    "fifo_entries h = last_n (nat HistorySize) (fifo_entries (fileHistory c) @ [(a_ContentHash (Payload an), an)])"
    by blast
  moreover from this(2) have "fst ` set (fifo_entries h)
      \<subseteq> fst ` set (fifo_entries (fileHistory c) @ [(a_ContentHash (Payload an), an)])"
    by (simp only: image_mono [OF set_last_n])
  then have "fst ` set (fifo_entries h) \<subseteq> insert (a_ContentHash (Payload an)) (ann_hashes c)"
    by (simp add: ann_hashes_def)
  moreover have "(a_ContentHash (Payload an), an) \<in> set (fifo_entries h)"
    unfolding \<open>fifo_entries h = _\<close> by (simp add: last_n_def HistorySize_def)
  then have "a_ContentHash (Payload an) \<in> fst ` set (fifo_entries h)" by force
  ultimately show ?thesis
    by (intro exI [of _ h]) (simp add: Announce_def shouldUpdateAnn_def)
qed

text \<open>The other side: the announcement is answered with a request, and only the history changes.\<close>

lemma receiver_requests:
  assumes b: "options_ok b" "as_time_ok (e_AsTime (peer_options b))" and N: "node_ok NB" and u: "carried i u"
    and send: "sendable (helpers_of b) (EventAnnounce (announce_of (event_of a now i u)))"
    and peer: "sm_Get (peers NB) (Author i) = Some p"
    and queue: "ann (w_channel (n_world NB)) = []"
    and new: "u_Hash u \<notin> ann_hashes (w_channel (n_world NB))"
      "\<not> DuplicateByAnnounce (Payload (lastMsg (w_channel (n_world NB)))) (Message_Announce (messageFromUpdate i u))"
    and fits: "m_ContentLength (messageFromUpdate i u) \<le> MaxFileSize (Clip b)"
    and room: "length (event_wire (helpers_of b) (EventRequest (NewRequest (MyID b) now i))) \<le> n"
  shows "\<exists>W1 w h. let NB2 = NB\<lparr>n_world := (n_world NB)\<lparr>w_channel := (w_channel (n_world NB))\<lparr>fileHistory := h\<rparr>\<rparr>\<rparr> in
    handleStream (peer_env_of b) op (n_world NB)
        \<lparr>r_bytes = event_wire (helpers_of b) (EventAnnounce (announce_of (event_of a now i u))), r_err = EOF\<rparr> = Some (None, None, W1)
    \<and> monitor_announce b (\<lambda>_. Inr (open_out n)) now (NB\<lparr>n_world := W1\<rparr>) = Some (Some w, NB2)
    \<and> o_bytes w = event_wire (helpers_of b) (EventRequest (NewRequest (MyID b) now i))
    \<and> node_ok NB2 \<and> fst ` set (fifo_entries h) \<subseteq> insert (u_Hash u) (ann_hashes (w_channel (n_world NB)))"
proof -
  have H: "helpers_ok (helpers_of b)" using b(1) by (simp add: options_ok_def)
  let ?an = "\<lparr>From = Author i, Created = now, Payload = Message_Announce (messageFromUpdate i u)\<rparr>"
  have an: "(announce_of (event_of a now i u))\<lparr>From := Author (a_ID (Payload (announce_of (event_of a now i u)))),
      Payload := (Payload (announce_of (event_of a now i u)))\<lparr>a_MimeType :=
        received_mime (a_MimeType (Payload (announce_of (event_of a now i u))))\<rparr>\<rparr> = ?an"
    using u by (simp add: announce_of_def event_of_def Message_Event_def Message_Announce_def carried_def)
  have c: "channel_ok (w_channel (n_world NB))" using N by (simp add: node_ok_def world_ok_def)
  obtain h where h: "Announce (w_channel (n_world NB)) ?an
      = Some ((w_channel (n_world NB))\<lparr>fileHistory := h, ann := [?an]\<rparr>)"
    "fst ` set (fifo_entries h) \<subseteq> insert (u_Hash u) (ann_hashes (w_channel (n_world NB)))"
    using Announce_new [OF c, of ?an] new(1) queue by (auto simp: Message_Announce_def)
  let ?W1 = "(n_world NB)\<lparr>w_channel := (w_channel (n_world NB))\<lparr>fileHistory := h, ann := [?an]\<rparr>\<rparr>"
  have st: "handleStream (peer_env_of b) op (n_world NB)
      \<lparr>r_bytes = event_wire (helpers_of b) (EventAnnounce (announce_of (event_of a now i u))), r_err = EOF\<rparr> = Some (None, None, ?W1)"
    using handleStream_announce [of "peer_env_of b" "announce_of (event_of a now i u)" op "n_world NB" EOF] H b(2) send h(1)
    unfolding an by simp
  let ?N = "NB\<lparr>n_world := (n_world NB)\<lparr>w_channel := (w_channel (n_world NB))\<lparr>fileHistory := h\<rparr>\<rparr>\<rparr>"
  have same: "(w_channel (n_world NB))\<lparr>fileHistory := h, ann := []\<rparr> = (w_channel (n_world NB))\<lparr>fileHistory := h\<rparr>"
    using queue by (cases "w_channel (n_world NB)") simp
  have len: "\<not> MaxFileSize (Clip b) < a_ContentLength (Message_Announce (messageFromUpdate i u))"
    using fits by (simp add: Message_Announce_def not_less)
  have "a_ID (Message_Announce (messageFromUpdate i u)) = i" by (simp add: Message_Announce_def)
  then obtain w where w: "handleAnnounce b (\<lambda>_. Inr (open_out n)) now ?N ?an = Some (Some w, ?N)"
    "o_bytes w = event_wire (helpers_of b) (EventRequest (NewRequest (MyID b) now i))"
    using WriteContext_plain [OF H room] peer new(2) len
    by (simp add: handleAnnounce_def RequestMessage_def LastMsg_def)
  have mon: "monitor_announce b (\<lambda>_. Inr (open_out n)) now (NB\<lparr>n_world := ?W1\<rparr>) = Some (Some w, ?N)"
    using w(1) by (simp add: monitor_announce_def Announcements_def same)
  have "world_ok ?W1"
    using handleStream_ok [where E = "peer_env_of b" and W = "n_world NB" and op = op and
        stream = "\<lparr>r_bytes = event_wire (helpers_of b) (EventAnnounce (announce_of (event_of a now i u))), r_err = EOF\<rparr>"]
      H N b(1) st
    by (simp add: node_ok_def options_ok_def)
  then have "node_ok (NB\<lparr>n_world := ?W1\<rparr>)"
    using N by (simp add: node_ok_def)
  from monitor_announce_ok [OF b(1) this, of "\<lambda>_. Inr (open_out n)" now] mon have "node_ok ?N" by simp
  with st mon w(2) h(2) show ?thesis by (simp add: Let_def) blast
qed

text \<open>The message arrives there: it goes to the clipboard, and the node announces it in turn.\<close>

lemma arrived_fields [simp]:
  "From (arrived em dat) = Author (m_ID (Payload em))" "m_ID (Payload (arrived em dat)) = m_ID (Payload em)"
  "m_Data (Payload (arrived em dat)) = dat" "m_ContentHash (Payload (arrived em dat)) = m_ContentHash (Payload em)"
  "m_MimeType (Payload (arrived em dat)) = received_mime (m_MimeType (Payload em))"
  "m_BatchID (Payload (arrived em dat)) = m_BatchID (Payload em)"
  "m_BatchTotal (Payload (arrived em dat)) = m_BatchTotal (Payload em)"
  by (simp_all add: arrived_def)

lemma relay_wire:
  "received_mime (m_MimeType (Payload em)) = m_MimeType (Payload em) \<Longrightarrow>
   event_wire H (EventAnnounce (announce_of (arrived em dat))) = event_wire H (EventAnnounce (announce_of em))"
  by (simp add: event_wire_def the_proto_def proto_announce_def announce_of_def arrived_def Message_Announce_def)

lemma monitor_write_frame [simp]:
  "peers (monitor_write opts N m) = peers N" "current (monitor_write opts N m) = current N"
  "w_channel (n_world (monitor_write opts N m)) = w_channel (n_world N)"
  "w_fs (n_world (monitor_write opts N m)) = w_fs (n_world N)"
  by (auto simp: monitor_write_def Let_def case_prod_beta)

lemma receiver_takes:
  assumes b: "options_ok b" "as_time_ok (e_AsTime (peer_options b))" and N: "node_ok NB" and u: "carried i u"
    and send: "sendable (helpers_of b) (EventMessage (event_of a now i u))"
    and queue: "msg (w_channel (n_world NB)) = []"
    and new: "\<not> DuplicateByAnnounce (Payload (lastMsg (w_channel (n_world NB)))) (Message_Announce (messageFromUpdate i u))"
    and stored: "handleMessage (peer_env_of b) (n_world NB) (arrived (event_of a now i u) []) \<lparr>r_bytes = bs, r_err = EOF\<rparr>
      = deliver ((n_world NB)\<lparr>w_fs := fs'\<rparr>) (arrived (event_of a now i u) dat)"
    and room: "length (event_wire (helpers_of b) (EventAnnounce (announce_of (event_of a now i u)))) \<le> n"
  shows "\<exists>W3 sent NB3. handleStream (peer_env_of b) op (n_world NB)
        \<lparr>r_bytes = event_wire (helpers_of b) (EventMessage (event_of a now i u)) @ bs, r_err = EOF\<rparr> = Some (None, None, W3)
    \<and> monitor_message b (\<lambda>_. Inr (open_out n)) (NB\<lparr>n_world := W3\<rparr>) = Some (sent, NB3)
    \<and> node_ok NB3 \<and> peers NB3 = peers NB \<and> current NB3 = current NB \<and> w_fs (n_world NB3) = fs'
    \<and> lastMsg (w_channel (n_world NB3)) = arrived (event_of a now i u) dat
    \<and> msg (w_channel (n_world NB3)) = [] \<and> ann (w_channel (n_world NB3)) = ann (w_channel (n_world NB))
    \<and> fileHistory (w_channel (n_world NB3)) = fileHistory (w_channel (n_world NB))
    \<and> w_batches (n_world NB3) = w_batches (n_world (monitor_write b NB (arrived (event_of a now i u) dat)))
    \<and> written NB3 = written (monitor_write b NB (arrived (event_of a now i u) dat))"
proof -
  have H: "helpers_ok (helpers_of b)" using b(1) by (simp add: options_ok_def)
  let ?em = "event_of a now i u" and ?c = "w_channel (n_world NB)"
  let ?em' = "arrived ?em dat"
  have mime: "received_mime (m_MimeType (Payload ?em)) = m_MimeType (Payload ?em)" using u by (simp add: carried_def)
  have "\<not> Message_Duplicate (Payload (lastMsg ?c)) (Payload ?em')"
    using new by (auto simp: Message_Duplicate_def DuplicateByAnnounce_def Message_Announce_def split: if_splits)
  then obtain h where h: "Send ?c ?em' = Some (?c\<lparr>lastMsg := ?em', servedFiles := h, msg := [?em']\<rparr>)"
    using Send_new [of ?c ?em'] N queue by (auto simp: node_ok_def world_ok_def)
  let ?W3 = "(n_world NB)\<lparr>w_fs := fs', w_channel := ?c\<lparr>lastMsg := ?em', servedFiles := h, msg := [?em']\<rparr>\<rparr>"
  have st: "handleStream (peer_env_of b) op (n_world NB)
      \<lparr>r_bytes = event_wire (helpers_of b) (EventMessage ?em) @ bs, r_err = EOF\<rparr> = Some (None, None, ?W3)"
    using handleStream_message [of "peer_env_of b" ?em op "n_world NB" bs EOF] H b(2) send stored h
    by (simp add: deliver_def)
  have "world_ok ?W3"
    using handleStream_ok [where E = "peer_env_of b" and W = "n_world NB" and op = op and
        stream = "\<lparr>r_bytes = event_wire (helpers_of b) (EventMessage ?em) @ bs, r_err = EOF\<rparr>"] H N b(1) st
    by (simp add: node_ok_def options_ok_def)
  then have N1: "node_ok (NB\<lparr>n_world := ?W3\<rparr>)" using N by (simp add: node_ok_def)
  let ?N2 = "NB\<lparr>n_world := ?W3\<lparr>w_channel := ?c\<lparr>lastMsg := ?em', servedFiles := h, msg := []\<rparr>\<rparr>\<rparr>"
  have "channel_ok (?c\<lparr>lastMsg := ?em', servedFiles := h, msg := []\<rparr>)"
    using Messages_ok [of "w_channel ?W3" ?em'] N1 by (simp add: Messages_def node_ok_def world_ok_def)
  then have N2: "node_ok (monitor_write b ?N2 ?em')"
    using node_ok_channel [OF N1, of "?c\<lparr>lastMsg := ?em', servedFiles := h, msg := []\<rparr>"] by (intro monitor_write_ok) simp
  have room': "length (event_wire (helpers_of b) (EventAnnounce (announce_of ?em'))) \<le> n"
    unfolding relay_wire [OF mime] by (rule room)
  obtain sent where "Broadcast (helpers_of b) (\<lambda>_. Inr (open_out n)) (peers (monitor_write b ?N2 ?em')) (announce_of ?em')
      = Some (peers (monitor_write b ?N2 ?em'), sent)"
    by (rule broadcast_all [OF H N2 room'], blast)
  then have mon: "monitor_message b (\<lambda>_. Inr (open_out n)) (NB\<lparr>n_world := ?W3\<rparr>) = Some (sent, monitor_write b ?N2 ?em')"
    by (simp add: monitor_message_def Messages_def announce_of_def Let_def)
  show ?thesis
    using st mon N2 monitor_write_cong [of ?N2 NB b ?em'] by (intro exI conjI) (assumption | simp)+
qed

text \<open>A text or picture is read from the stream, and goes to the clipboard as it is.\<close>

lemma plain_stored:
  assumes u: "plain_update u" "i \<noteq> 0" and fits: "of_nat (length (u_Data u)) \<le> MaxFileSize (Clip b)"
  shows "handleMessage (peer_env_of b) W (arrived (event_of a now i u) []) \<lparr>r_bytes = u_Data u, r_err = EOF\<rparr>
    = deliver (W\<lparr>w_fs := w_fs W\<rparr>) (arrived (event_of a now i u) (u_Data u))"
proof -
  note simps = event_of_simps [OF u]
  have "handleMessage (peer_env_of b) W (arrived (event_of a now i u) []) \<lparr>r_bytes = u_Data u @ [], r_err = EOF\<rparr>
      = deliver W (arrived (event_of a now i u) (u_Data u))"
  proof (rule handleMessage_bytes)
    show "\<not> maxReceiveSize (peer_env_of b) < m_ContentLength (Payload (event_of a now i u))"
      using fits by (simp add: simps not_less)
    show "\<not> IsPath (received_mime (m_MimeType (Payload (event_of a now i u))))"
      using plain_message(3) [OF u] simps(9) by (simp add: simps IsPath_def)
    show "length (u_Data u) = unat (m_ContentLength (Payload (event_of a now i u)))"
      unfolding simps plain_message(4) [OF u] ..
    show "length (u_Data u) < 2 ^ 63" using u(1) by (simp add: plain_update_def)
  qed
  then show ?thesis by simp
qed

section \<open>Nodes that can copy\<close>

text \<open>Two nodes that can understand each other, and that are connected and idle.\<close>

definition pair_ok :: "node_options \<Rightarrow> node_options \<Rightarrow> bool" where
  "pair_ok a b \<longleftrightarrow> options_ok a \<and> options_ok b \<and> helpers_of a = helpers_of b
     \<and> as_time_ok (e_AsTime (peer_options a)) \<and> as_time_ok (e_AsTime (peer_options b))
     \<and> MyID a = d_ID (my_Metadata a) \<and> MyID a \<noteq> d_ID (my_Metadata b)"

definition ready :: "node_options \<Rightarrow> node_options \<Rightarrow> node \<Rightarrow> node \<Rightarrow> bool" where
  "ready a b NA NB \<longleftrightarrow> node_ok NA \<and> node_ok NB
     \<and> sm_Get (peers NA) (d_ID (my_Metadata b)) \<noteq> None \<and> sm_Get (peers NB) (MyID a) \<noteq> None
     \<and> msg (w_channel (n_world NA)) = [] \<and> msg (w_channel (n_world NB)) = [] \<and> ann (w_channel (n_world NB)) = []"

text \<open>Neither node has the content of the update, or a message of its identifier.\<close>

definition unseen :: "node \<Rightarrow> node \<Rightarrow> i64 \<Rightarrow> update \<Rightarrow> bool" where
  "unseen NA NB i u \<longleftrightarrow> i \<noteq> 0
     \<and> \<not> Message_Duplicate (messageFromUpdate i u) (current NA)
     \<and> \<not> Message_Duplicate (Payload (lastMsg (w_channel (n_world NA)))) (messageFromUpdate i u)
     \<and> \<not> DuplicateByAnnounce (Payload (lastMsg (w_channel (n_world NB)))) (Message_Announce (messageFromUpdate i u))
     \<and> u_Hash u \<notin> ann_hashes (w_channel (n_world NB))"

text \<open>The three events can be framed, and the streams take each of them and \<open>len\<close> bytes more.\<close>

definition can_travel :: "node_options \<Rightarrow> node_options \<Rightarrow> gotime \<Rightarrow> nat \<Rightarrow> nat \<Rightarrow> i64 \<Rightarrow> update \<Rightarrow> bool" where
  "can_travel a b now n len i u \<longleftrightarrow>
     list_all (\<lambda>ev. sendable (helpers_of b) ev \<and> length (event_wire (helpers_of b) ev) + len \<le> n)
       [EventAnnounce (announce_of (event_of a now i u)), EventRequest (NewRequest (MyID b) now i),
        EventMessage (event_of a now i u)]"

lemma pair_facts:
  assumes "pair_ok a b"
  shows "options_ok a" "options_ok b" "helpers_of a = helpers_of b" "as_time_ok (e_AsTime (peer_options a))"
    "as_time_ok (e_AsTime (peer_options b))" "MyID a = d_ID (my_Metadata a)" "MyID a \<noteq> d_ID (my_Metadata b)"
    "helpers_ok (helpers_of a)" "helpers_ok (helpers_of b)"
  using assms unfolding pair_ok_def options_ok_def by blast+

lemma copy_plain_full:
  assumes pair: "pair_ok a b" and st: "ready a b NA NB" and pu: "plain_update u" and own: "Author i = MyID a"
    and new: "unseen NA NB i u" and fits: "of_nat (length (u_Data u)) \<le> MaxFileSize (Clip b)"
    and room: "can_travel a b now n (length (u_Data u)) i u"
  shows "\<exists>NA' NB'. copy_once a b n now i u NA NB = Some (NA', NB') \<and> ready a b NA' NB'
    \<and> lastMsg (w_channel (n_world NA')) = event_of a now i u
    \<and> lastMsg (w_channel (n_world NB')) = arrived (event_of a now i u) (u_Data u)
    \<and> written NB' = written NB @ [(u_MimeType u, u_Data u)] \<and> written NA' = written NA
    \<and> ann (w_channel (n_world NA')) = ann (w_channel (n_world NA))
    \<and> ann_hashes (w_channel (n_world NA')) = ann_hashes (w_channel (n_world NA))
    \<and> ann_hashes (w_channel (n_world NB')) \<subseteq> insert (u_Hash u) (ann_hashes (w_channel (n_world NB)))
    \<and> current NA' = messageFromUpdate i u \<and> current NB' = current NB \<and> peers NA' = peers NA \<and> peers NB' = peers NB"
proof -
  note opts = pair_facts [OF pair]
  have i: "i \<noteq> 0" using new by (simp add: unseen_def)
  have u: "carried i u" using plain_carried [OF pu i] .
  note simps = event_of_simps [OF pu i]
  have ok: "node_ok NA" "node_ok NB" "msg (w_channel (n_world NA)) = []" "msg (w_channel (n_world NB)) = []"
    "ann (w_channel (n_world NB)) = []" using st by (simp_all add: ready_def)
  have len: "m_ContentLength (messageFromUpdate i u) \<le> MaxFileSize (Clip b)" using fits by (simp add: simps)
  obtain p where p: "sm_Get (peers NA) (d_ID (my_Metadata b)) = Some p" using st by (auto simp: ready_def)
  obtain q where q: "sm_Get (peers NB) (Author i) = Some q" using st own by (auto simp: ready_def)
  obtain NA1 sent NA2 w1 where a: "monitor_update a i now NA u = Some NA1"
    "monitor_message a (\<lambda>_. Inr (open_out n)) NA1 = Some (sent, NA2)" "map_of sent (d_ID (my_Metadata b)) = Some w1"
    "o_bytes w1 = event_wire (helpers_of b) (EventAnnounce (announce_of (event_of a now i u)))"
    "node_ok NA2" "peers NA2 = peers NA" "lastMsg (w_channel (n_world NA2)) = event_of a now i u"
    "msg (w_channel (n_world NA2)) = []" "written NA2 = written NA"
    "ann (w_channel (n_world NA2)) = ann (w_channel (n_world NA))"
    "ann_hashes (w_channel (n_world NA2)) = ann_hashes (w_channel (n_world NA))" "current NA2 = messageFromUpdate i u"
    using copier_announces [OF opts(1) ok(1) u opts(6) ok(3) _ _ p, of now n] new room opts(3,6,7)
    by (auto simp: unseen_def can_travel_def ann_hashes_def)
  obtain W1 w2 NB2 where r: "handleStream (peer_env_of b) (Inr (open_out n)) (n_world NB)
        \<lparr>r_bytes = o_bytes w1, r_err = EOF\<rparr> = Some (None, None, W1)"
    "monitor_announce b (\<lambda>_. Inr (open_out n)) now (NB\<lparr>n_world := W1\<rparr>) = Some (Some w2, NB2)"
    "o_bytes w2 = event_wire (helpers_of b) (EventRequest (NewRequest (MyID b) now i))"
    "node_ok NB2" "written NB2 = written NB" "peers NB2 = peers NB"
    "lastMsg (w_channel (n_world NB2)) = lastMsg (w_channel (n_world NB))"
    "msg (w_channel (n_world NB2)) = []" "ann (w_channel (n_world NB2)) = []" "current NB2 = current NB"
    "ann_hashes (w_channel (n_world NB2)) \<subseteq> insert (u_Hash u) (ann_hashes (w_channel (n_world NB)))"
    using receiver_requests [OF opts(2,5) ok(2) u _ q ok(5) _ _ len, of a now n "Inr (open_out n)"] new room ok(4,5)
    unfolding a(4) by (auto simp: Let_def unseen_def can_travel_def ann_hashes_def)
  obtain w3 where s: "handleStream (peer_env_of a) (Inr (open_out n)) (n_world NA2) \<lparr>r_bytes = o_bytes w2, r_err = EOF\<rparr>
      = Some (None, Some w3, n_world NA2)"
    "o_bytes w3 = event_wire (helpers_of b) (EventMessage (event_of a now i u)) @ u_Data u"
    using handleStream_request [of "peer_env_of a" "NewRequest (MyID b) now i" "n_world NA2" "event_of a now i u" n EOF]
      opts(3,4,9) room a(7) simps
    unfolding r(3) by (auto simp: NewRequest_def NewEvent_def Get_def IsPath_def can_travel_def)
  obtain W3 sent3 NB3 where t: "handleStream (peer_env_of b) (Inr (open_out n)) (n_world NB2)
        \<lparr>r_bytes = o_bytes w3, r_err = EOF\<rparr> = Some (None, None, W3)"
    "monitor_message b (\<lambda>_. Inr (open_out n)) (NB2\<lparr>n_world := W3\<rparr>) = Some (sent3, NB3)"
    "node_ok NB3" "peers NB3 = peers NB2" "lastMsg (w_channel (n_world NB3)) = arrived (event_of a now i u) (u_Data u)"
    "msg (w_channel (n_world NB3)) = []" "ann (w_channel (n_world NB3)) = []"
    "written NB3 = written (monitor_write b NB2 (arrived (event_of a now i u) (u_Data u)))"
    "current NB3 = current NB2" "ann_hashes (w_channel (n_world NB3)) = ann_hashes (w_channel (n_world NB2))"
    using receiver_takes [OF opts(2,5) r(4) u, of a now "u_Data u" "w_fs (n_world NB2)" "u_Data u" n "Inr (open_out n)"]
      plain_stored [OF pu i fits] new room r(7,8,9)
    unfolding s(2) by (auto simp: unseen_def can_travel_def ann_hashes_def)
  have "written NB3 = written NB @ [(u_MimeType u, u_Data u)]"
    using t(8) r(5) own opts(7) simps u by (simp add: monitor_write_def carried_def Let_def)
  moreover have "copy_once a b n now i u NA NB = Some (NA2, NB3)"
    using a(1,2,3) r(1,2) s(1) t(1,2) by (simp add: copy_once_def)
  moreover have "ready a b NA2 NB3"
    using st a(5,6,8) r(6) t(3,4,6,7) by (simp add: ready_def)
  ultimately show ?thesis using a(6-12) r(6,10,11) t(4,5,9,10) by (intro exI conjI) (assumption | simp)+
qed

lemma copy_plain:
  assumes "pair_ok a b" and "ready a b NA NB" and "plain_update u" and "Author i = MyID a" and "unseen NA NB i u"
    and "of_nat (length (u_Data u)) \<le> MaxFileSize (Clip b)" and "can_travel a b now n (length (u_Data u)) i u"
  shows "\<exists>NA' NB'. copy_once a b n now i u NA NB = Some (NA', NB') \<and> ready a b NA' NB'
    \<and> lastMsg (w_channel (n_world NA')) = event_of a now i u
    \<and> lastMsg (w_channel (n_world NB')) = arrived (event_of a now i u) (u_Data u)
    \<and> written NB' = written NB @ [(u_MimeType u, u_Data u)]"
  using copy_plain_full [OF assms] by blast

section \<open>Properties\<close>

text \<open>C1. What is copied on one node is pasted on the other: a text or picture reported by the clipboard
  of one node reaches, through announcement, request and answer, the clipboard of a connected node
  exactly once and byte for byte, whatever the state of both nodes, provided both have handled what
  was queued, neither has this content already, and it is within the size limit.\<close>

theorem copy_reaches_peer:
  assumes "pair_ok a b" and "ready a b NA NB" and "plain_update u" and "Author i = MyID a" and "unseen NA NB i u"
    and "of_nat (length (u_Data u)) \<le> MaxFileSize (Clip b)" and "can_travel a b now n (length (u_Data u)) i u"
  shows "\<exists>NA' NB'. copy_once a b n now i u NA NB = Some (NA', NB')
    \<and> written NB' = written NB @ [(u_MimeType u, u_Data u)]"
  using copy_plain [OF assms] by blast

definition sample_update :: update where
  "sample_update = \<lparr>u_Data = [104, 105], u_Size = 2, u_MimeType = TypeText, u_Hash = 77, u_BatchID = 0, u_BatchTotal = 0\<rparr>"

definition one_peer :: "i64 \<Rightarrow> node" where
  "one_peer i = (node_New 1 Map.empty)\<lparr>peers := sm_Add NewSyncMapStorage i (sample_peer 20 i)\<rparr>"

lemma one_peer_ok: "node_ok (one_peer i)"
  using node_ok_New [of 1 Map.empty]
  by (auto simp: node_ok_def one_peer_def sm_ok_Add sm_ok_new store.get_add sample_peer_def sample_device_def
      split: if_splits)

lemma one_peer_get: "sm_Get (peers (one_peer i)) i = Some (sample_peer 20 i)"
  by (simp add: one_peer_def store.get_add sm_ok_new)

abbreviation sample_events :: "any_event list" where
  "sample_events \<equiv> [EventAnnounce (announce_of (event_of (sample_opts 1) sample_time 0x1005 sample_update)),
     EventRequest (NewRequest 2 sample_time 0x1005),
     EventMessage (event_of (sample_opts 1) sample_time 0x1005 sample_update)]"

lemma sample_events_fit:
  "list_all (sendable ref_helpers) sample_events"
  "list_all (\<lambda>ev. length (event_wire ref_helpers ev) + length (u_Data sample_update) \<le> 100) sample_events"
proof -
  have "list_all (\<lambda>ev. time_ok (created ev)) sample_events"
    by (simp add: announce_of_def event_of_def Message_Event_def NewRequest_def NewEvent_def time_ok_def sample_time_def)
  moreover have "list_all (\<lambda>ev. Event_SizeVT ref_helpers (Some (the_proto ev)) < 100) sample_events" by code_simp
  ultimately show "list_all (sendable ref_helpers) sample_events"
    by (simp add: sendable_def del: Event_SizeVT.simps)
  show "list_all (\<lambda>ev. length (event_wire ref_helpers ev) + length (u_Data sample_update) \<le> 100) sample_events"
    by code_simp
qed

lemma sample_pair: "pair_ok (sample_opts 1) (sample_opts 2)"
  by (simp add: pair_ok_def sample_opts_ok ref_AsTime_ok sample_opts_def sample_device_def)
     (simp add: options_ok_def ref_helpers_ok)

lemma sample_ready: "ready (sample_opts 1) (sample_opts 2) (one_peer 2) (one_peer 1)"
  using one_peer_ok one_peer_get
  by (simp add: ready_def sample_opts_def sample_device_def) (simp add: one_peer_def node_New_def New_def)

lemma sample_plain:
  "plain_update sample_update" "Author 0x1005 = MyID (sample_opts 1)"
  "unseen (one_peer 2) (one_peer 1) 0x1005 sample_update"
  "of_nat (length (u_Data sample_update)) \<le> MaxFileSize (Clip (sample_opts 2))"
  "can_travel (sample_opts 1) (sample_opts 2) sample_time 100 (length (u_Data sample_update)) 0x1005 sample_update"
proof -
  have "Author 0x1005 = 1" by code_simp
  then show "Author 0x1005 = MyID (sample_opts 1)" by (simp add: sample_opts_def)
  have "helpers_of (sample_opts 2) = ref_helpers" "MyID (sample_opts 2) = 2" by (simp_all add: sample_opts_def)
  then show "can_travel (sample_opts 1) (sample_opts 2) sample_time 100 (length (u_Data sample_update)) 0x1005 sample_update"
    using sample_events_fit by (simp only: can_travel_def list.pred_inject simp_thms)
  show "unseen (one_peer 2) (one_peer 1) 0x1005 sample_update"
    by (simp add: unseen_def one_peer_def node_New_def New_def newHistory_def ann_hashes_def sample_update_def
        Message_Duplicate_def DuplicateByAnnounce_def zero_message_def zero_event_message_def Message_Announce_def)
qed (simp_all add: plain_update_def sample_update_def sample_opts_def)

theorem copy_reaches_peer_witness:
  "\<exists>NA' NB'. copy_once (sample_opts 1) (sample_opts 2) 100 sample_time 0x1005 sample_update (one_peer 2) (one_peer 1) = Some (NA', NB')
    \<and> written NB' = [(TypeText, [104, 105])]"
  using copy_reaches_peer [OF sample_pair sample_ready sample_plain]
  by (simp add: sample_update_def one_peer_def node_New_def)

text \<open>C5. Nothing is sent back: when the clipboard of the node that received a text or picture reports the same
  content as a copy of its own, whatever time and identifier it gets, the channel of the node stays as
  it is, with nothing to announce; and when the clipboard of the first node reports it again, nothing
  happens there either. (For files this does not hold: a stored file has another path, so another hash.)\<close>

theorem echo_stops:
  assumes "pair_ok a b" and "ready a b NA NB" and "plain_update u" and "Author i = MyID a" and "unseen NA NB i u"
    and "of_nat (length (u_Data u)) \<le> MaxFileSize (Clip b)" and "can_travel a b now n (length (u_Data u)) i u"
    and "u_MimeType v = u_MimeType u" and "u_Hash v = u_Hash u"
  shows "\<exists>NA' NB' NA2 NB2. copy_once a b n now i u NA NB = Some (NA', NB')
    \<and> monitor_update b j now' NB' v = Some NB2 \<and> w_channel (n_world NB2) = w_channel (n_world NB')
    \<and> monitor_update a j now' NA' v = Some NA2 \<and> w_channel (n_world NA2) = w_channel (n_world NA')"
proof -
  from copy_plain [OF assms(1-7)] obtain NA' NB' where c: "copy_once a b n now i u NA NB = Some (NA', NB')"
    "lastMsg (w_channel (n_world NA')) = event_of a now i u"
    "lastMsg (w_channel (n_world NB')) = arrived (event_of a now i u) (u_Data u)" by blast
  have i: "i \<noteq> 0" using assms(5) by (simp add: unseen_def)
  have u: "u_Hash u \<noteq> 0" "received_mime (u_MimeType u) = u_MimeType u" "\<not> Message_Zero (messageFromUpdate i u)"
    using assms(3) plain_carried [OF assms(3) i] by (simp_all add: plain_update_def carried_def)
  have dup: "\<exists>N'. monitor_update opts j now' N v = Some N' \<and> w_channel (n_world N') = w_channel (n_world N)"
    if "\<not> Message_Zero (Payload (lastMsg (w_channel (n_world N))))"
      "Message_Duplicate (Payload (lastMsg (w_channel (n_world N)))) (messageFromUpdate j v)" for N opts
    using that by (simp add: monitor_update_def Message_Event_def Send_duplicate Let_def)
  have "\<exists>N'. monitor_update a j now' NA' v = Some N' \<and> w_channel (n_world N') = w_channel (n_world NA')"
    using u assms(8,9) by (intro dup) (simp_all add: c(2) Message_Duplicate_def)
  moreover have "\<exists>N'. monitor_update b j now' NB' v = Some N' \<and> w_channel (n_world N') = w_channel (n_world NB')"
    using u assms(8,9) by (intro dup) (simp_all add: c(3) Message_Duplicate_def, simp add: arrived_def Message_Zero_def)
  ultimately show ?thesis using c(1) by blast
qed

theorem echo_stops_witness:
  "\<exists>NA' NB' NB2. copy_once (sample_opts 1) (sample_opts 2) 100 sample_time 0x1005 sample_update (one_peer 2) (one_peer 1) = Some (NA', NB')
    \<and> monitor_update (sample_opts 2) 0x2007 sample_time NB' sample_update = Some NB2
    \<and> w_channel (n_world NB2) = w_channel (n_world NB')"
  using echo_stops [OF sample_pair sample_ready sample_plain, where v = sample_update and j = "0x2007" and now' = sample_time] by blast

text \<open>C11. Announcements are not relayed: when a node passes on the announcement of a content it got itself, a
  node that is not connected to the author of the content does not request it, from anyone. But it
  remembers the content as announced, so that the author's own announcement of it, should they connect
  later, goes nowhere either.\<close>

theorem relay_unanswered:
  assumes "options_ok c" and "as_time_ok (e_AsTime (peer_options c))" and "sendable (helpers_of c) (EventAnnounce an)"
    and "node_ok N" and "ann (w_channel (n_world N)) = []" and "a_ContentHash (Payload an) \<notin> ann_hashes (w_channel (n_world N))"
    and "sm_Get (peers N) (Author (a_ID (Payload an))) = None"
    and "a_ContentHash (Payload an') = a_ContentHash (Payload an)"
  shows "\<exists>W1 N2. handleStream (peer_env_of c) op (n_world N)
        \<lparr>r_bytes = event_wire (helpers_of c) (EventAnnounce an), r_err = EOF\<rparr> = Some (None, None, W1)
    \<and> monitor_announce c streams now (N\<lparr>n_world := W1\<rparr>) = Some (None, N2)
    \<and> written N2 = written N \<and> Announce (w_channel (n_world N2)) an' = Some (w_channel (n_world N2))"
proof -
  let ?an = "an\<lparr>From := Author (a_ID (Payload an)),
    Payload := (Payload an)\<lparr>a_MimeType := received_mime (a_MimeType (Payload an))\<rparr>\<rparr>"
  have H: "helpers_ok (helpers_of c)" using assms(1) by (simp add: options_ok_def)
  have ok: "channel_ok (w_channel (n_world N))" using assms(4) by (simp add: node_ok_def world_ok_def)
  obtain h where h: "Announce (w_channel (n_world N)) ?an
      = Some ((w_channel (n_world N))\<lparr>fileHistory := h, ann := [?an]\<rparr>)"
    "a_ContentHash (Payload an) \<in> fst ` set (fifo_entries h)"
    using Announce_new [OF ok, of ?an] assms(5,6) by auto
  let ?c = "(w_channel (n_world N))\<lparr>fileHistory := h, ann := []\<rparr>"
  have "channel_ok ((w_channel (n_world N))\<lparr>fileHistory := h, ann := [?an]\<rparr>)"
    using Announce_ok [OF ok, of ?an] h(1) by simp
  then have "channel_ok ?c"
    by (rule Announcements_ok [of _ ?an]) (simp add: Announcements_def)
  then have "Announce ?c an' = Some ?c"
    using Announce_seen [of ?c an'] h(2) assms(8) by (simp add: ann_hashes_def)
  moreover have "handleStream (peer_env_of c) op (n_world N)
        \<lparr>r_bytes = event_wire (helpers_of c) (EventAnnounce an), r_err = EOF\<rparr>
      = Some (None, None, (n_world N)\<lparr>w_channel := (w_channel (n_world N))\<lparr>fileHistory := h, ann := [?an]\<rparr>\<rparr>)"
    using handleStream_announce [of "peer_env_of c" an op "n_world N" EOF] H assms(2,3) h(1) by simp
  ultimately show ?thesis
    using assms(7) by (simp add: monitor_announce_def Announcements_def handleAnnounce_def)
qed

theorem relay_unanswered_witness:
  "\<exists>W1 N2. handleStream (peer_env_of (sample_opts 1)) (Inl EOF) (n_world (one_peer 2))
        \<lparr>r_bytes = event_wire ref_helpers (EventAnnounce (announce_of (event_of (sample_opts 1) sample_time 0x3005 sample_update))), r_err = EOF\<rparr>
      = Some (None, None, W1)
    \<and> monitor_announce (sample_opts 1) (\<lambda>_. Inl EOF) sample_time ((one_peer 2)\<lparr>n_world := W1\<rparr>) = Some (None, N2)"
proof -
  let ?an = "announce_of (event_of (sample_opts 1) sample_time 0x3005 sample_update)"
  have opts: "helpers_of (sample_opts i) = ref_helpers" "e_AsTime (peer_options (sample_opts i)) = ref_AsTime" for i
    by (simp_all add: sample_opts_def)
  have fresh: "ann (w_channel (n_world (one_peer i))) = []" "ann_hashes (w_channel (n_world (one_peer i))) = {}" for i
    by (simp_all add: one_peer_def node_New_def New_def newHistory_def ann_hashes_def)
  have "Event_SizeVT ref_helpers (Some (the_proto (EventAnnounce ?an))) < 100" by code_simp
  then have send: "sendable ref_helpers (EventAnnounce ?an)"
    by (simp add: sendable_def time_ok_def event_of_def Message_Event_def announce_of_def sample_time_def del: Event_SizeVT.simps)
  have "Author 0x3005 = 3" by code_simp
  then have none: "sm_Get (peers (one_peer 2)) (Author (a_ID (Payload ?an))) = None"
    by (simp add: one_peer_def store.get_add sm_ok_new Message_Announce_def)
  show ?thesis
    using relay_unanswered [of "sample_opts 1" ?an "one_peer 2" ?an "Inl EOF" "\<lambda>_. Inl EOF" sample_time]
      send none one_peer_ok fresh opts sample_opts_ok ref_AsTime_ok by auto
qed

end
