(* ===== verification/FileSync.thy ===== *)
theory FileSync
  imports Sync Eventful
begin

text \<open>
  A selection of files between two nodes: the clipboard of one node reports one update per file, each is
  announced, requested, sent and stored as in \<open>Sync\<close>, and when the last one has arrived the clipboard of
  the other node gets the list of the stored files. Files are followed one after the other.
\<close>

section \<open>Files\<close>

text \<open>The update of a regular, non-empty file of the node, with the file's size.\<close>

definition file_at :: "node \<Rightarrow> gostring \<Rightarrow> byte list" where
  "file_at N p = (case w_fs (n_world N) p of Some (File c) \<Rightarrow> c | _ \<Rightarrow> [])"

definition file_update :: "node \<Rightarrow> update \<Rightarrow> bool" where
  "file_update N u \<longleftrightarrow> u_MimeType u = TypePath \<and> u_Hash u \<noteq> 0 \<and> normal_comp (path_base (u_Data u))
     \<and> w_fs (n_world N) (u_Data u) = Some (File (file_at N (u_Data u)))
     \<and> u_Size u = of_nat (length (file_at N (u_Data u)))
     \<and> file_at N (u_Data u) \<noteq> [] \<and> length (file_at N (u_Data u)) < 2 ^ 63"

text \<open>Where a node stores a received file, and that it can: the place is free and the file not too large.\<close>

definition stored_path :: "node_options \<Rightarrow> i64 \<Rightarrow> update \<Rightarrow> gostring" where
  "stored_path b i u = file_path (fileWriter (peer_options b)) (messageFromUpdate i u)"

definition storable :: "node_options \<Rightarrow> fs \<Rightarrow> i64 \<Rightarrow> update \<Rightarrow> bool" where
  "storable b fs i u \<longleftrightarrow> can_save (fileWriter (peer_options b)) fs (messageFromUpdate i u)
     \<and> fs (stored_path b i u) = None \<and> u_Size u \<le> MaxFileSize (Clip b)"

lemma file_carried: "file_update N u \<Longrightarrow> i \<noteq> 0 \<Longrightarrow> carried i u"
proof -
  assume u: "file_update N u" "i \<noteq> 0"
  have "unat (of_nat (length (file_at N (u_Data u))) :: u64) = length (file_at N (u_Data u))"
    using u(1) by (simp add: file_update_def unsigned_of_nat take_bit_nat_eq_self)
  moreover have "length (file_at N (u_Data u)) \<noteq> 0" using u(1) by (simp add: file_update_def)
  ultimately have "(of_nat (length (file_at N (u_Data u))) :: u64) \<noteq> 0" by (metis unsigned_0)
  with u show ?thesis
    by (simp add: carried_def file_update_def messageFromUpdate_def IsPath_def Message_Zero_def received_mime_def)
qed

section \<open>One file\<close>

text \<open>The owner answers the request with the file's bytes.\<close>

lemma handleStream_file_request:
  assumes "helpers_ok (e_helpers E)" and "as_time_ok (e_AsTime E)" and "sendable (e_helpers E) (EventRequest req)"
    and "Get (w_channel W) (r_ID (Payload req)) = Some em"
    and "m_ID (Payload em) = r_ID (Payload req)" and "m_MimeType (Payload em) = TypePath"
    and "w_fs W (m_Data (Payload em)) = Some (File c)"
    and "length (event_wire (e_helpers E) (EventMessage em)) + length c \<le> n"
  shows "\<exists>w. handleStream E (Inr (open_out n)) W \<lparr>r_bytes = event_wire (e_helpers E) (EventRequest req), r_err = e\<rparr>
      = Some (None, Some w, W)
    \<and> o_bytes w = event_wire (e_helpers E) (EventMessage em) @ c"
proof -
  let ?req = "req\<lparr>From := Author (r_ID (Payload req))\<rparr>"
  obtain w where "handleRequest (e_helpers E) (w_fs W) (Inr (open_out n)) em ?req = Some (None, Some w)"
    "o_bytes w = event_wire (e_helpers E) (EventMessage em) @ c"
    using handleRequest_sends [OF assms(1), of em ?req "w_fs W" c n] assms(5-8)
    by (auto simp: raw_of_def IsPath_def)
  with DecodeEvent_wire [OF assms(1-3), of "[]" e] assms(4) show ?thesis
    by (simp add: handleStream_def)
qed

text \<open>The receiver stores them; besides the file, only directories of its own are new.\<close>

lemma file_stored:
  assumes u: "file_update NA u" "i \<noteq> 0" and place: "storable b (w_fs W) i u"
    and os: "os_deny (peer_options b) = (\<lambda>_. False)" "length (file_at NA (u_Data u)) \<le> os_disk (peer_options b)"
  shows "\<exists>fs'. handleMessage (peer_env_of b) W (arrived (event_of a now i u) [])
        \<lparr>r_bytes = file_at NA (u_Data u), r_err = EOF\<rparr>
      = deliver (W\<lparr>w_fs := fs'\<rparr>) (arrived (event_of a now i u) (stored_path b i u))
    \<and> fs' (stored_path b i u) = Some (File (file_at NA (u_Data u)))
    \<and> (\<forall>q. q \<noteq> stored_path b i u \<longrightarrow> fs' q \<noteq> w_fs W q \<longrightarrow>
          q \<in> set (ancestors (isolateDirClean (fileWriter (peer_options b)) (messageFromUpdate i u)))
          \<and> w_fs W q = None \<and> fs' q = Some Dir)"
proof -
  let ?st = "fileWriter (peer_options b)" and ?p = "Payload (arrived (event_of a now i u) [])"
  let ?c = "file_at NA (u_Data u)" and ?m = "messageFromUpdate i u"
  have m: "m_Name ?m = path_base (u_Data u)" "m_ContentLength ?m = u_Size u"
    using u(1) by (simp_all add: messageFromUpdate_def file_update_def IsPath_def)
  have same: "file_path ?st ?p = stored_path b i u" "can_save ?st (w_fs W) ?p = can_save ?st (w_fs W) ?m"
    "isolateDirClean ?st ?p = isolateDirClean ?st ?m" "m_Name ?p = m_Name ?m" "m_ContentLength ?p = m_ContentLength ?m"
    by (simp_all add: stored_path_def arrived_def file_path_def can_save_def isolateDirClean_def isolate_name_def)
  obtain fs' where fs': "store_Write (\<lambda>_. False) (os_disk (peer_options b)) ?st (w_fs W) \<lparr>r_bytes = ?c, r_err = EOF\<rparr> ?p
      = ((stored_path b i u, None), fs')" "fs' (stored_path b i u) = Some (File ?c)"
    "\<forall>q. q \<noteq> stored_path b i u \<longrightarrow> fs' q \<noteq> w_fs W q \<longrightarrow>
          q \<in> set (ancestors (isolateDirClean ?st ?m)) \<and> w_fs W q = None \<and> fs' q = Some Dir"
    using store_Write_saves [of ?p ?st "w_fs W" ?c "os_disk (peer_options b)" EOF] u(1) place os(2)
    unfolding same m by (auto simp: storable_def file_update_def)
  have fits: "\<not> maxReceiveSize (peer_env_of b) < m_ContentLength (Payload (event_of a now i u))"
    using place m(2) by (simp add: storable_def not_less)
  have "handleMessage (peer_env_of b) W (arrived (event_of a now i u) []) \<lparr>r_bytes = ?c, r_err = EOF\<rparr>
      = deliver (W\<lparr>w_fs := fs'\<rparr>) (arrived (event_of a now i u) (stored_path b i u))"
    by (rule handleMessage_file [where err = None]) (use fits u(1) fs'(1) os(1) in \<open>simp_all add: file_update_def peer_env_of_def\<close>)
  with fs'(2,3) show ?thesis by blast
qed

text \<open>Up to the answer: the copying node has the message, the other one the announcement in its history.\<close>

abbreviation with_history :: "node \<Rightarrow> (u64, event_announce) fifo \<Rightarrow> node" where
  "with_history N h \<equiv> N\<lparr>n_world := (n_world N)\<lparr>w_channel := (w_channel (n_world N))\<lparr>fileHistory := h\<rparr>\<rparr>\<rparr>"

lemma file_requested:
  assumes pair: "pair_ok a b" and st: "ready a b NA NB" and u: "file_update NA u" and own: "Author i = MyID a"
    and new: "unseen NA NB i u" and fits: "u_Size u \<le> MaxFileSize (Clip b)"
    and room: "can_travel a b now n (length (file_at NA (u_Data u))) i u"
  shows "\<exists>NA1 sent NA2 w1 W1 w2 h w3. monitor_update a i now NA u = Some NA1
    \<and> monitor_message a (\<lambda>_. Inr (open_out n)) NA1 = Some (sent, NA2) \<and> map_of sent (d_ID (my_Metadata b)) = Some w1
    \<and> handleStream (peer_env_of b) (Inr (open_out n)) (n_world NB) \<lparr>r_bytes = o_bytes w1, r_err = EOF\<rparr> = Some (None, None, W1)
    \<and> monitor_announce b (\<lambda>_. Inr (open_out n)) now (NB\<lparr>n_world := W1\<rparr>) = Some (Some w2, with_history NB h)
    \<and> handleStream (peer_env_of a) (Inr (open_out n)) (n_world NA2) \<lparr>r_bytes = o_bytes w2, r_err = EOF\<rparr>
        = Some (None, Some w3, n_world NA2)
    \<and> o_bytes w3 = event_wire (helpers_of b) (EventMessage (event_of a now i u)) @ file_at NA (u_Data u)
    \<and> node_ok NA2 \<and> peers NA2 = peers NA \<and> w_fs (n_world NA2) = w_fs (n_world NA)
    \<and> current NA2 = messageFromUpdate i u \<and> lastMsg (w_channel (n_world NA2)) = event_of a now i u
    \<and> msg (w_channel (n_world NA2)) = [] \<and> node_ok (with_history NB h)
    \<and> fst ` set (fifo_entries h) \<subseteq> insert (u_Hash u) (ann_hashes (w_channel (n_world NB)))"
proof -
  let ?c = "file_at NA (u_Data u)"
  note opts = pair_facts [OF pair]
  have i: "i \<noteq> 0" using new by (simp add: unseen_def)
  have car: "carried i u" using file_carried u i by blast
  obtain p where p: "sm_Get (peers NA) (d_ID (my_Metadata b)) = Some p" using st by (auto simp: ready_def)
  obtain q where q: "sm_Get (peers NB) (Author i) = Some q" using st own by (auto simp: ready_def)
  have ok: "node_ok NA" "node_ok NB" "msg (w_channel (n_world NA)) = []" "ann (w_channel (n_world NB)) = []"
    using st by (simp_all add: ready_def)
  have len: "m_ContentLength (messageFromUpdate i u) \<le> MaxFileSize (Clip b)"
    using u fits by (simp add: messageFromUpdate_def file_update_def IsPath_def)
  obtain NA1 sent NA2 w1 where a: "monitor_update a i now NA u = Some NA1"
    "monitor_message a (\<lambda>_. Inr (open_out n)) NA1 = Some (sent, NA2)" "map_of sent (d_ID (my_Metadata b)) = Some w1"
    "o_bytes w1 = event_wire (helpers_of b) (EventAnnounce (announce_of (event_of a now i u)))"
    "node_ok NA2" "peers NA2 = peers NA" "w_fs (n_world NA2) = w_fs (n_world NA)" "current NA2 = messageFromUpdate i u"
    "lastMsg (w_channel (n_world NA2)) = event_of a now i u" "msg (w_channel (n_world NA2)) = []"
    using copier_announces [OF opts(1) ok(1) car opts(6) ok(3) _ _ p, of now n] new room opts(3,6,7)
    by (auto simp: unseen_def can_travel_def)
  obtain W1 w2 h where r: "handleStream (peer_env_of b) (Inr (open_out n)) (n_world NB)
        \<lparr>r_bytes = o_bytes w1, r_err = EOF\<rparr> = Some (None, None, W1)"
    "monitor_announce b (\<lambda>_. Inr (open_out n)) now (NB\<lparr>n_world := W1\<rparr>) = Some (Some w2, with_history NB h)"
    and r3: "o_bytes w2 = event_wire (helpers_of b) (EventRequest (NewRequest (MyID b) now i))"
    and r4: "node_ok (with_history NB h)"
      "fst ` set (fifo_entries h) \<subseteq> insert (u_Hash u) (ann_hashes (w_channel (n_world NB)))"
    using receiver_requests [OF opts(2,5) ok(2) car _ q ok(4) _ _ len, of a now n "Inr (open_out n)"] new room
    unfolding a(4) by (auto simp: Let_def unseen_def can_travel_def)
  obtain w3 where "handleStream (peer_env_of a) (Inr (open_out n)) (n_world NA2) \<lparr>r_bytes = o_bytes w2, r_err = EOF\<rparr>
      = Some (None, Some w3, n_world NA2)"
    "o_bytes w3 = event_wire (helpers_of b) (EventMessage (event_of a now i u)) @ ?c"
    using handleStream_file_request [of "peer_env_of a" "NewRequest (MyID b) now i" "n_world NA2" "event_of a now i u" ?c n EOF]
      opts(3,4,9) room a(7,9) u
    unfolding r3 by (auto simp: NewRequest_def NewEvent_def Get_def can_travel_def file_update_def)
  with a(1-3) r r4 a(5-10) show ?thesis
    by (intro exI conjI) assumption+
qed

text \<open>One file from end to end, and the state both nodes are in afterwards.\<close>

definition file_arrived :: "node_options \<Rightarrow> node_options \<Rightarrow> gotime \<Rightarrow> i64 \<Rightarrow> update \<Rightarrow> event_message" where
  "file_arrived a b now i u = arrived (event_of a now i u) (stored_path b i u)"

lemma copy_file:
  assumes pair: "pair_ok a b" and st: "ready a b NA NB" and u: "file_update NA u" and own: "Author i = MyID a"
    and new: "unseen NA NB i u" and place: "storable b (w_fs (n_world NB)) i u"
    and os: "os_deny (peer_options b) = (\<lambda>_. False)" "length (file_at NA (u_Data u)) \<le> os_disk (peer_options b)"
    and room: "can_travel a b now n (length (file_at NA (u_Data u))) i u"
  shows "\<exists>NA' NB'. copy_once a b n now i u NA NB = Some (NA', NB') \<and> ready a b NA' NB'
    \<and> w_fs (n_world NA') = w_fs (n_world NA) \<and> current NA' = messageFromUpdate i u
    \<and> lastMsg (w_channel (n_world NA')) = event_of a now i u
    \<and> lastMsg (w_channel (n_world NB')) = file_arrived a b now i u
    \<and> ann_hashes (w_channel (n_world NB')) \<subseteq> insert (u_Hash u) (ann_hashes (w_channel (n_world NB)))
    \<and> w_fs (n_world NB') (stored_path b i u) = Some (File (file_at NA (u_Data u)))
    \<and> (\<forall>q. q \<noteq> stored_path b i u \<longrightarrow> w_fs (n_world NB') q \<noteq> w_fs (n_world NB) q \<longrightarrow>
          q \<in> set (ancestors (isolateDirClean (fileWriter (peer_options b)) (messageFromUpdate i u)))
          \<and> w_fs (n_world NB) q = None \<and> w_fs (n_world NB') q = Some Dir)
    \<and> w_batches (n_world NB') = w_batches (n_world (monitor_write b NB (file_arrived a b now i u)))
    \<and> written NB' = written (monitor_write b NB (file_arrived a b now i u))"
proof -
  let ?c = "file_at NA (u_Data u)"
  note opts = pair_facts [OF pair]
  have i: "i \<noteq> 0" using new by (simp add: unseen_def)
  have fits: "u_Size u \<le> MaxFileSize (Clip b)" using place by (simp add: storable_def)
  from file_requested [OF pair st u own new fits room] obtain NA1 sent NA2 w1 W1 w2 h w3
    where a: "monitor_update a i now NA u = Some NA1"
    "monitor_message a (\<lambda>_. Inr (open_out n)) NA1 = Some (sent, NA2)" "map_of sent (d_ID (my_Metadata b)) = Some w1"
    "handleStream (peer_env_of b) (Inr (open_out n)) (n_world NB) \<lparr>r_bytes = o_bytes w1, r_err = EOF\<rparr> = Some (None, None, W1)"
    "monitor_announce b (\<lambda>_. Inr (open_out n)) now (NB\<lparr>n_world := W1\<rparr>) = Some (Some w2, with_history NB h)"
    "handleStream (peer_env_of a) (Inr (open_out n)) (n_world NA2) \<lparr>r_bytes = o_bytes w2, r_err = EOF\<rparr>
        = Some (None, Some w3, n_world NA2)"
    and w3: "o_bytes w3 = event_wire (helpers_of b) (EventMessage (event_of a now i u)) @ ?c"
    and A: "node_ok NA2" "peers NA2 = peers NA" "w_fs (n_world NA2) = w_fs (n_world NA)"
      "current NA2 = messageFromUpdate i u" "lastMsg (w_channel (n_world NA2)) = event_of a now i u"
      "msg (w_channel (n_world NA2)) = []"
    and B: "node_ok (with_history NB h)"
      "fst ` set (fifo_entries h) \<subseteq> insert (u_Hash u) (ann_hashes (w_channel (n_world NB)))"
    by (elim exE conjE) (rule that)
  let ?NB2 = "with_history NB h"
  obtain fs' where fs': "handleMessage (peer_env_of b) (n_world ?NB2) (arrived (event_of a now i u) [])
        \<lparr>r_bytes = ?c, r_err = EOF\<rparr> = deliver ((n_world ?NB2)\<lparr>w_fs := fs'\<rparr>) (file_arrived a b now i u)"
    "fs' (stored_path b i u) = Some (File ?c)"
    "\<forall>q. q \<noteq> stored_path b i u \<longrightarrow> fs' q \<noteq> w_fs (n_world NB) q \<longrightarrow>
          q \<in> set (ancestors (isolateDirClean (fileWriter (peer_options b)) (messageFromUpdate i u)))
          \<and> w_fs (n_world NB) q = None \<and> fs' q = Some Dir"
    using file_stored [OF u i _ os, of "n_world ?NB2" a now] place by (auto simp: file_arrived_def)
  obtain W3 sent3 NB3 where t: "handleStream (peer_env_of b) (Inr (open_out n)) (n_world ?NB2)
        \<lparr>r_bytes = o_bytes w3, r_err = EOF\<rparr> = Some (None, None, W3)"
    "monitor_message b (\<lambda>_. Inr (open_out n)) (?NB2\<lparr>n_world := W3\<rparr>) = Some (sent3, NB3)"
    "node_ok NB3" "peers NB3 = peers NB" "w_fs (n_world NB3) = fs'"
    "lastMsg (w_channel (n_world NB3)) = file_arrived a b now i u" "msg (w_channel (n_world NB3)) = []"
    "ann (w_channel (n_world NB3)) = []" "fileHistory (w_channel (n_world NB3)) = h"
    "w_batches (n_world NB3) = w_batches (n_world (monitor_write b ?NB2 (file_arrived a b now i u)))"
    "written NB3 = written (monitor_write b ?NB2 (file_arrived a b now i u))"
    using receiver_takes [OF opts(2,5) B(1) file_carried [OF u i], of a now ?c fs' "stored_path b i u" n "Inr (open_out n)"]
      fs'(1) new room st
    unfolding w3 by (auto simp: file_arrived_def unseen_def can_travel_def ready_def)
  have copy: "copy_once a b n now i u NA NB = Some (NA2, NB3)"
    using a t(1,2) by (simp add: copy_once_def)
  have "ready a b NA2 NB3"
    using st A(1,2,6) t(3,4,7,8) by (simp add: ready_def)
  with copy A(3-5) t(5,6,9,10,11) fs'(2,3) B(2)
    monitor_write_cong [of ?NB2 NB b "file_arrived a b now i u"] show ?thesis
    by (intro exI conjI) (assumption | simp add: ann_hashes_def)+
qed

section \<open>All of them\<close>

fun copy_files ::
  "node_options \<Rightarrow> node_options \<Rightarrow> nat \<Rightarrow> gotime \<Rightarrow> (i64 \<times> update) list \<Rightarrow> node \<times> node \<Rightarrow> (node \<times> node) option" where
  "copy_files a b n now [] (NA, NB) = Some (NA, NB)"
| "copy_files a b n now ((i, u) # xs) (NA, NB) =
     Option.bind (copy_once a b n now i u NA NB) (copy_files a b n now xs)"

text \<open>Files that can be copied: each on its own, and no two with one identifier, content or name.\<close>

definition selection :: "node_options \<Rightarrow> node_options \<Rightarrow> gotime \<Rightarrow> nat \<Rightarrow> node \<Rightarrow> node \<Rightarrow> (i64 \<times> update) list \<Rightarrow> bool" where
  "selection a b now n NA NB xs \<longleftrightarrow>
     list_all (\<lambda>(i, u). Author i = MyID a \<and> file_update NA u \<and> unseen NA NB i u \<and> storable b (w_fs (n_world NB)) i u
       \<and> length (file_at NA (u_Data u)) \<le> os_disk (peer_options b)
       \<and> can_travel a b now n (length (file_at NA (u_Data u))) i u) xs
     \<and> distinct (map fst xs) \<and> distinct (map (u_Hash \<circ> snd) xs) \<and> distinct (map (path_base \<circ> u_Data \<circ> snd) xs)"

lemma monitor_writes_cong:
  "w_batches (n_world N) = w_batches (n_world N') \<Longrightarrow> written N = written N' \<Longrightarrow>
   w_batches (n_world (foldl (monitor_write opts) N ms)) = w_batches (n_world (foldl (monitor_write opts) N' ms))
   \<and> written (foldl (monitor_write opts) N ms) = written (foldl (monitor_write opts) N' ms)"
proof (induction ms arbitrary: N N')
  case (Cons m ms)
  show ?case
    using Cons.IH [OF monitor_write_cong [OF Cons.prems]] by simp
qed simp

text \<open>The directory of a batch is the same for all of its files.\<close>

lemma batch_directory:
  "u_BatchID u = u_BatchID v \<Longrightarrow> u_BatchID u \<noteq> 0 \<Longrightarrow>
   isolateDirClean st (messageFromUpdate i u) = isolateDirClean st (messageFromUpdate j v)"
  by (simp add: isolateDirClean_def isolate_name_def)

lemma file_update_name: "file_update N u \<Longrightarrow> m_Name (messageFromUpdate i u) = path_base (u_Data u)"
  by (simp add: file_update_def messageFromUpdate_def IsPath_def)

lemma storable_after:
  assumes "storable b fs j v" and bid: "u_BatchID u = u_BatchID v" "u_BatchID u \<noteq> 0"
    and u: "file_update N u" and v: "file_update N v" and "path_base (u_Data u) \<noteq> path_base (u_Data v)"
    and frame: "\<forall>q. q \<noteq> stored_path b i u \<longrightarrow> fs' q \<noteq> fs q \<longrightarrow>
          q \<in> set (ancestors (isolateDirClean (fileWriter (peer_options b)) (messageFromUpdate i u)))
          \<and> fs q = None \<and> fs' q = Some Dir"
  shows "storable b fs' j v"
proof -
  let ?st = "fileWriter (peer_options b)"
  let ?dir = "isolateDirClean ?st (messageFromUpdate j v)"
  have dir: "isolateDirClean ?st (messageFromUpdate i u) = ?dir" by (rule batch_directory [OF bid])
  have name: "normal_comp (m_Name (messageFromUpdate i u))" "normal_comp (m_Name (messageFromUpdate j v))"
    using u v by (simp_all add: file_update_name, simp_all add: file_update_def)
  have out: "stored_path b i u \<notin> set (ancestors ?dir)" "stored_path b j v \<notin> set (ancestors ?dir)"
    using plain_path(3) [OF name(1), of ?st] plain_path(3) [OF name(2), of ?st] unfolding stored_path_def dir by blast+
  have "stored_path b j v \<noteq> stored_path b i u"
    using assms(6) u v by (simp add: stored_path_def file_path_def dir file_update_name)
  then have "fs' (stored_path b j v) = None"
    using frame out(2) assms(1) unfolding dir storable_def by metis
  moreover have "fs' q \<noteq> Some (File c)" if "q \<in> set (ancestors ?dir)" for q c
  proof -
    have "fs q \<noteq> Some (File c)" using assms(1) that by (auto simp: storable_def can_save_def list_all_iff)
    moreover have "fs' q = fs q \<or> fs' q = Some Dir" using frame out(1) that by metis
    ultimately show ?thesis by auto
  qed
  ultimately show ?thesis
    using assms(1) by (auto simp: storable_def can_save_def list_all_iff)
qed

lemma unseen_after:
  assumes "unseen NA NB j v" and "i \<noteq> j" and "u_Hash u \<noteq> u_Hash v"
    and "current NA' = messageFromUpdate i u" and "lastMsg (w_channel (n_world NA')) = event_of a now i u"
    and "lastMsg (w_channel (n_world NB')) = file_arrived a b now i u"
    and "ann_hashes (w_channel (n_world NB')) \<subseteq> insert (u_Hash u) (ann_hashes (w_channel (n_world NB)))"
  shows "unseen NA' NB' j v"
  using assms by (auto simp: unseen_def Message_Duplicate_def DuplicateByAnnounce_def file_arrived_def Message_Announce_def)

text \<open>What every file of the selection leaves as it was for the others.\<close>

lemma selection_after:
  assumes sel: "selection a b now n NA NB ((i, u) # xs)" and bid: "list_all (\<lambda>(j, v). u_BatchID v = bid) ((i, u) # xs)" "bid \<noteq> 0"
    and fs: "w_fs (n_world NA') = w_fs (n_world NA)"
    and last: "current NA' = messageFromUpdate i u" "lastMsg (w_channel (n_world NA')) = event_of a now i u"
      "lastMsg (w_channel (n_world NB')) = file_arrived a b now i u"
      "ann_hashes (w_channel (n_world NB')) \<subseteq> insert (u_Hash u) (ann_hashes (w_channel (n_world NB)))"
    and frame: "\<forall>q. q \<noteq> stored_path b i u \<longrightarrow> w_fs (n_world NB') q \<noteq> w_fs (n_world NB) q \<longrightarrow>
          q \<in> set (ancestors (isolateDirClean (fileWriter (peer_options b)) (messageFromUpdate i u)))
          \<and> w_fs (n_world NB) q = None \<and> w_fs (n_world NB') q = Some Dir"
  shows "selection a b now n NA' NB' xs"
proof -
  have same: "file_update NA' = file_update NA" "file_at NA' = file_at NA"
    by (simp_all add: file_update_def file_at_def fs fun_eq_iff)
  have "unseen NA' NB' j v \<and> storable b (w_fs (n_world NB')) j v" if "(j, v) \<in> set xs" for j v
  proof
    have old: "unseen NA NB j v" "storable b (w_fs (n_world NB)) j v" "file_update NA u" "file_update NA v"
      using sel that by (auto simp: selection_def list_all_iff)
    have ne: "i \<noteq> j" "u_Hash u \<noteq> u_Hash v" "path_base (u_Data u) \<noteq> path_base (u_Data v)"
      using sel that by (auto simp: selection_def image_iff)
    have b: "u_BatchID u = u_BatchID v" "u_BatchID u \<noteq> 0"
      using bid that by (auto simp: list_all_iff)
    show "unseen NA' NB' j v" by (rule unseen_after [OF old(1) ne(1,2) last])
    show "storable b (w_fs (n_world NB')) j v" by (rule storable_after [OF old(2) b old(3,4) ne(3) frame])
  qed
  with sel show ?thesis
    by (auto simp: selection_def list_all_iff same)
qed

lemma copy_files_run:
  assumes pair: "pair_ok a b" and deny: "os_deny (peer_options b) = (\<lambda>_. False)" and bid: "bid \<noteq> 0"
    and "ready a b NA NB" and "selection a b now n NA NB xs" and "list_all (\<lambda>(i, u). u_BatchID u = bid) xs"
  shows "\<exists>NA' NB'. copy_files a b n now xs (NA, NB) = Some (NA', NB')
    \<and> list_all (\<lambda>(i, u). w_fs (n_world NB') (stored_path b i u) = Some (File (file_at NA (u_Data u)))) xs
    \<and> (\<forall>q. w_fs (n_world NB) q \<noteq> None \<longrightarrow> w_fs (n_world NB') q = w_fs (n_world NB) q)
    \<and> written NB' = written (foldl (monitor_write b) NB (map (\<lambda>(i, u). file_arrived a b now i u) xs))"
  using assms(4-6)
proof (induction xs arbitrary: NA NB)
  case (Cons x xs)
  obtain i u where x: "x = (i, u)" by fastforce
  have s: "file_update NA u" "Author i = MyID a" "unseen NA NB i u" "storable b (w_fs (n_world NB)) i u"
    "length (file_at NA (u_Data u)) \<le> os_disk (peer_options b)" "can_travel a b now n (length (file_at NA (u_Data u))) i u"
    using Cons.prems(2) x by (simp_all add: selection_def)
  from copy_file [OF pair Cons.prems(1) s(1-4) deny s(5,6)] obtain NA1 NB1
    where c: "copy_once a b n now i u NA NB = Some (NA1, NB1)" "ready a b NA1 NB1"
      "w_fs (n_world NA1) = w_fs (n_world NA)" "current NA1 = messageFromUpdate i u"
      "lastMsg (w_channel (n_world NA1)) = event_of a now i u"
      "lastMsg (w_channel (n_world NB1)) = file_arrived a b now i u"
      "ann_hashes (w_channel (n_world NB1)) \<subseteq> insert (u_Hash u) (ann_hashes (w_channel (n_world NB)))"
      "w_fs (n_world NB1) (stored_path b i u) = Some (File (file_at NA (u_Data u)))"
    and frame: "\<forall>q. q \<noteq> stored_path b i u \<longrightarrow> w_fs (n_world NB1) q \<noteq> w_fs (n_world NB) q \<longrightarrow>
          q \<in> set (ancestors (isolateDirClean (fileWriter (peer_options b)) (messageFromUpdate i u)))
          \<and> w_fs (n_world NB) q = None \<and> w_fs (n_world NB1) q = Some Dir"
    and w: "w_batches (n_world NB1) = w_batches (n_world (monitor_write b NB (file_arrived a b now i u)))"
      "written NB1 = written (monitor_write b NB (file_arrived a b now i u))"
    by (elim exE conjE) (rule that)
  have "list_all (\<lambda>(j, v). u_BatchID v = bid) xs" using Cons.prems(3) by simp
  with Cons.IH [OF c(2) selection_after [OF Cons.prems(2,3)[unfolded x] bid c(3-7) frame]] obtain NA' NB'
    where r: "copy_files a b n now xs (NA1, NB1) = Some (NA', NB')"
      "list_all (\<lambda>(i, u). w_fs (n_world NB') (stored_path b i u) = Some (File (file_at NA1 (u_Data u)))) xs"
      "\<forall>q. w_fs (n_world NB1) q \<noteq> None \<longrightarrow> w_fs (n_world NB') q = w_fs (n_world NB1) q"
      "written NB' = written (foldl (monitor_write b) NB1 (map (\<lambda>(i, u). file_arrived a b now i u) xs))"
    by blast
  have at: "file_at NA1 = file_at NA" by (simp add: file_at_def c(3) fun_eq_iff)
  have "w_fs (n_world NB) (stored_path b i u) = None" using s(4) by (simp add: storable_def)
  then have keep: "w_fs (n_world NB) q \<noteq> None \<Longrightarrow> w_fs (n_world NB1) q = w_fs (n_world NB) q" for q
    using frame by metis
  have "w_fs (n_world NB') (stored_path b i u) = Some (File (file_at NA (u_Data u)))"
    using r(3) c(8) by simp
  moreover have "\<forall>q. w_fs (n_world NB) q \<noteq> None \<longrightarrow> w_fs (n_world NB') q = w_fs (n_world NB) q"
    using keep r(3) by metis
  ultimately show ?case
    using c(1) r(1,2,4) x at monitor_writes_cong [OF w] by simp
qed simp

text \<open>What the other clipboard gets for the whole batch.\<close>

lemma stored_path_nonempty: "stored_path b i u \<noteq> []"
  by (simp add: stored_path_def file_path_def)

lemma batch_written:
  assumes pair: "pair_ok a b" and xs: "xs \<noteq> []" "length xs < 2 ^ 32" and bid: "bid \<noteq> 0"
    and us: "list_all (\<lambda>(i, u). Author i = MyID a \<and> file_update NA u
      \<and> u_BatchID u = bid \<and> u_BatchTotal u = of_nat (length xs)) xs"
    and dist: "distinct (map fst xs)" and fresh: "map_of (w_batches (n_world NB)) bid = None"
  shows "written (foldl (monitor_write b) NB (map (\<lambda>(i, u). file_arrived a b now i u) xs))
    = written NB @ [(TypePath, join_with batchSeparator (sort (map (\<lambda>(i, u). stored_path b i u) xs)))]"
proof -
  let ?ms = "map (\<lambda>(i, u). file_arrived a b now i u) xs"
  have own: "MyID a \<noteq> d_ID (my_Metadata b)" using pair_facts(7) [OF pair] .
  have total: "unat (of_nat (length xs) :: u32) = length xs" using xs(2) by (simp add: unsigned_of_nat take_bit_nat_eq_self)
  have mime: "(i, u) \<in> set xs \<Longrightarrow> received_mime (u_MimeType u) = TypePath" for i u
    using us by (auto simp: list_all_iff file_update_def received_mime_def)
  show ?thesis
  proof (cases "length xs = 1")
    case True
    then obtain i u where x: "xs = [(i, u)]" by (cases xs) auto
    then show ?thesis
      using us own mime [of i u] True by (simp add: monitor_write_def file_arrived_def Let_def)
  next
    case False
    with xs(1) have two: "1 < length xs" by (cases xs) auto
    have "(1 :: u32) < of_nat (length xs)" using two total by (simp add: word_less_nat_alt)
    then have "foreign_parts b ?ms"
      using us own mime bid by (auto simp: foreign_parts_def list_all_iff file_arrived_def)
    moreover have "batch_parts bid (of_nat (length xs)) (map Payload ?ms)"
      using us dist by (auto simp: batch_parts_def list_all_iff file_arrived_def comp_def case_prod_beta)
    ultimately have "written (foldl (monitor_write b) NB ?ms) = written NB @
        [(TypePath, join_with batchSeparator (sort (filter (\<lambda>d. d \<noteq> []) (map (m_Data \<circ> Payload) ?ms))))]"
      using monitor_write_parts [of b ?ms bid "of_nat (length xs)" NB] total fresh xs(1) by simp
    moreover have "filter (\<lambda>d. d \<noteq> []) (map (m_Data \<circ> Payload) ?ms) = map (\<lambda>(i, u). stored_path b i u) xs"
      using stored_path_nonempty by (induction xs) (auto simp: file_arrived_def)
    ultimately show ?thesis by simp
  qed
qed

section \<open>Properties\<close>

text \<open>C3. A selection of files copied on one node is pasted on the other: the updates that the clipboard back
  end makes of the files reach, one after the other, the connected node; every file ends up there under
  a path of its own with the bytes it has on the first node, and the clipboard is written exactly once,
  when the last one has arrived, with the sorted list of these paths. The files are regular, not
  empty, within the limit, of different names, and new to both nodes.\<close>

theorem files_reach_peer:
  assumes "pair_ok a b" and "ready a b NA NB" and "os_deny (peer_options b) = (\<lambda>_. False)"
    and "us = fst (UpdatesFromFileInfo xxhash xxsum files)" and "files \<noteq> []" and "length files < 2 ^ 32"
    and "length ids = length files" and "selection a b now n NA NB (zip ids us)"
    and "u_BatchID (hd us) \<noteq> 0" and "map_of (w_batches (n_world NB)) (u_BatchID (hd us)) = None"
  shows "\<exists>NA' NB'. copy_files a b n now (zip ids us) (NA, NB) = Some (NA', NB')
    \<and> list_all (\<lambda>(i, u). w_fs (n_world NB') (stored_path b i u) = Some (File (file_at NA (u_Data u)))) (zip ids us)
    \<and> written NB' = written NB @
        [(TypePath, join_with batchSeparator (sort (map (\<lambda>(i, u). stored_path b i u) (zip ids us))))]"
proof -
  let ?bid = "u_BatchID (hd us)"
  have len: "length us = length files" using assms(4) by (simp add: UpdatesFromFileInfo_def Let_def)
  have us: "u \<in> set us \<Longrightarrow> u_BatchID u = ?bid \<and> u_BatchTotal u = of_nat (length us)" for u
    using assms(4,5) by (cases files) (auto simp: UpdatesFromFileInfo_def Let_def)
  have bids: "list_all (\<lambda>(i, u). u_BatchID u = ?bid) (zip ids us)"
    using us by (auto simp: list_all_iff dest: set_zip_rightD)
  have parts: "list_all (\<lambda>(i, u). Author i = MyID a \<and> file_update NA u
      \<and> u_BatchID u = ?bid \<and> u_BatchTotal u = of_nat (length (zip ids us))) (zip ids us)"
    using assms(7,8) us len by (auto simp: list_all_iff selection_def dest: set_zip_rightD)
  have "written (foldl (monitor_write b) NB (map (\<lambda>(i, u). file_arrived a b now i u) (zip ids us)))
    = written NB @ [(TypePath, join_with batchSeparator (sort (map (\<lambda>(i, u). stored_path b i u) (zip ids us))))]"
    by (rule batch_written [OF assms(1) _ _ assms(9) parts _ assms(10)])
      (use assms(5-8) len in \<open>auto simp: selection_def\<close>)
  with copy_files_run [OF assms(1,3,9,2,8) bids] show ?thesis by auto
qed

definition sample_hash :: "byte list \<Rightarrow> u64" where
  "sample_hash b = of_nat (length b div 8) + ucast (b ! 4)"

definition sample_files :: "file_info list" where
  "sample_files = [\<lparr>Path = str ''/s/a'', Size = 2, ModTime = 7\<rparr>, \<lparr>Path = str ''/s/b'', Size = 1, ModTime = 7\<rparr>]"

definition file_owner :: node where
  "file_owner = (one_peer 2)\<lparr>n_world := (n_world (one_peer 2))
     \<lparr>w_fs := [str ''/s/a'' \<mapsto> File [1, 2], str ''/s/b'' \<mapsto> File [3]]\<rparr>\<rparr>"

abbreviation path_update :: "gostring \<Rightarrow> u64 \<Rightarrow> u64 \<Rightarrow> update" where
  "path_update p s h \<equiv> \<lparr>u_Data = p, u_Size = s, u_MimeType = TypePath, u_Hash = h, u_BatchID = 7, u_BatchTotal = 2\<rparr>"

lemma sample_file_updates:
  "fst (UpdatesFromFileInfo sample_hash (\<lambda>_. []) sample_files) = [path_update (str ''/s/a'') 2 4, path_update (str ''/s/b'') 1 3]"
  by code_simp

abbreviation sample_path_events :: "i64 \<Rightarrow> update \<Rightarrow> any_event list" where
  "sample_path_events i u \<equiv> [EventAnnounce (announce_of (event_of (sample_opts 1) sample_time i u)),
     EventRequest (NewRequest 2 sample_time i), EventMessage (event_of (sample_opts 1) sample_time i u)]"

lemma sample_travel:
  assumes "list_all (\<lambda>ev. Event_SizeVT ref_helpers (Some (the_proto ev)) < 100) (sample_path_events i u)"
    and "list_all (\<lambda>ev. length (event_wire ref_helpers ev) + len \<le> n) (sample_path_events i u)"
  shows "can_travel (sample_opts 1) (sample_opts 2) sample_time n len i u"
proof -
  have "helpers_of (sample_opts 2) = ref_helpers" "MyID (sample_opts 2) = 2" by (simp_all add: sample_opts_def)
  moreover have "list_all (\<lambda>ev. time_ok (created ev)) (sample_path_events i u)"
    by (simp add: announce_of_def event_of_def Message_Event_def NewRequest_def NewEvent_def time_ok_def sample_time_def)
  ultimately show ?thesis using assms by (simp add: can_travel_def sendable_def del: Event_SizeVT.simps)
qed

lemma sample_selection:
  "selection (sample_opts 1) (sample_opts 2) sample_time 200 file_owner (one_peer 1)
     [(0x1005, path_update (str ''/s/a'') 2 4), (0x1006, path_update (str ''/s/b'') 1 3)]"
proof -
  have opts: "MyID (sample_opts i) = i" "MaxFileSize (Clip (sample_opts i)) = 1000" "os_disk (peer_options (sample_opts i)) = 100" for i
    by (simp_all add: sample_opts_def sample_env_def)
  have own: "Author 0x1005 = 1" "Author 0x1006 = 1" by code_simp+
  have base: "normal_comp (path_base (str ''/s/a''))" "normal_comp (path_base (str ''/s/b''))"
    "path_base (str ''/s/a'') \<noteq> path_base (str ''/s/b'')" by code_simp+
  have upd: "file_update file_owner (path_update (str ''/s/a'') 2 4)" "file_update file_owner (path_update (str ''/s/b'') 1 3)"
    "file_at file_owner (str ''/s/a'') = [1, 2]" "file_at file_owner (str ''/s/b'') = [3]"
    using base(1,2) by (simp_all add: file_update_def file_at_def file_owner_def)
  have new: "unseen file_owner (one_peer 1) 0x1005 (path_update (str ''/s/a'') 2 4)"
    "unseen file_owner (one_peer 1) 0x1006 (path_update (str ''/s/b'') 1 3)"
    by (simp_all add: unseen_def file_owner_def one_peer_def node_New_def New_def newHistory_def ann_hashes_def
        Message_Duplicate_def DuplicateByAnnounce_def zero_message_def zero_event_message_def Message_Announce_def)
  have place: "storable (sample_opts 2) (w_fs (n_world (one_peer 1))) i (path_update p 2 h)"
    "storable (sample_opts 2) (w_fs (n_world (one_peer 1))) i (path_update p 1 h)" for i p h
    by (simp_all add: storable_def can_save_def one_peer_def node_New_def opts list_all_iff)
  have travel: "can_travel (sample_opts 1) (sample_opts 2) sample_time 200 2 0x1005 (path_update (str ''/s/a'') 2 4)"
    "can_travel (sample_opts 1) (sample_opts 2) sample_time 200 1 0x1006 (path_update (str ''/s/b'') 1 3)"
    by (rule sample_travel, code_simp, code_simp)+
  show ?thesis
    using own upd new place travel base(3) by (simp add: selection_def opts numeral_2_eq_2)
qed

theorem files_reach_peer_witness:
  "\<exists>NA' NB'. copy_files (sample_opts 1) (sample_opts 2) 200 sample_time
      (zip [0x1005, 0x1006] (fst (UpdatesFromFileInfo sample_hash (\<lambda>_. []) sample_files))) (file_owner, one_peer 1) = Some (NA', NB')
    \<and> w_fs (n_world NB') (str ''/d/7/a'') = Some (File [1, 2])
    \<and> written NB' = [(TypePath, str ''/d/7/a'' @ [10] @ str ''/d/7/b'')]"
proof -
  let ?us = "[path_update (str ''/s/a'') 2 4, path_update (str ''/s/b'') 1 3]"
  let ?xs = "zip [0x1005, 0x1006] ?us"
  have owner: "node_ok file_owner"
    using one_peer_ok [of 2] by (simp add: file_owner_def node_ok_def world_ok_def)
  have ready: "ready (sample_opts 1) (sample_opts 2) file_owner (one_peer 1)"
    using owner one_peer_ok [of 1] one_peer_get [of 1] one_peer_get [of 2]
    by (simp add: ready_def sample_opts_def sample_device_def file_owner_def)
       (simp add: one_peer_def node_New_def New_def)
  have deny: "os_deny (peer_options (sample_opts 2)) = (\<lambda>_. False)" by (simp add: sample_opts_def sample_env_def)
  have path: "stored_path (sample_opts 2) 0x1005 (path_update (str ''/s/a'') 2 4) = str ''/d/7/a''"
    "stored_path (sample_opts 2) 0x1006 (path_update (str ''/s/b'') 1 3) = str ''/d/7/b''" by code_simp+
  have at: "file_at file_owner (str ''/s/a'') = [1, 2]" by (simp add: file_at_def file_owner_def)
  have init: "written (one_peer 1) = []" "w_batches (n_world (one_peer 1)) = []"
    by (simp_all add: one_peer_def node_New_def NewBatchCollector_def)
  have sorted: "join_with batchSeparator (sort [str ''/d/7/a'', str ''/d/7/b'']) = str ''/d/7/a'' @ [10] @ str ''/d/7/b''"
    by code_simp
  obtain NA' NB' where c: "copy_files (sample_opts 1) (sample_opts 2) 200 sample_time ?xs (file_owner, one_peer 1) = Some (NA', NB')"
    and l: "list_all (\<lambda>(i, u). w_fs (n_world NB') (stored_path (sample_opts 2) i u) = Some (File (file_at file_owner (u_Data u)))) ?xs"
    and w: "written NB' = written (one_peer 1) @
        [(TypePath, join_with batchSeparator (sort (map (\<lambda>(i, u). stored_path (sample_opts 2) i u) ?xs)))]"
    using files_reach_peer [OF sample_pair ready _ sample_file_updates [symmetric], of "[0x1005, 0x1006]" sample_time 200]
      sample_selection deny init(2) by (auto simp: sample_files_def)
  have "written NB' = [(TypePath, str ''/d/7/a'' @ [10] @ str ''/d/7/b'')]"
    using w unfolding zip_Cons_Cons zip_Nil list.map prod.case path init sorted append_Nil .
  moreover have "w_fs (n_world NB') (stored_path (sample_opts 2) 0x1005 (path_update (str ''/s/a'') 2 4))
      = Some (File (file_at file_owner (str ''/s/a'')))"
    using l by simp
  ultimately show ?thesis
    using c unfolding sample_file_updates path(1) at by blast
qed

text \<open>C10. An empty file keeps a whole selection from being pasted: its update makes no message, but it is
  counted in the total of the batch, so that when all the other files of the selection have arrived
  the batch is still waiting for it and the clipboard of the other node is not written.\<close>

theorem empty_file_stalls:
  assumes "pair_ok a b" and "us = fst (UpdatesFromFileInfo xxhash xxsum files)" and "length files < 2 ^ 32"
    and "k < length files" and "Size (files ! k) = 0"
    and "length ids = length files" and "distinct ids" and "list_all (\<lambda>i. Author i = MyID a) ids"
    and "u_BatchID (hd us) \<noteq> 0" and "map_of (w_batches (n_world NB)) (u_BatchID (hd us)) = None"
  shows "monitor_update a i now NA (us ! k) = Some NA
    \<and> written (foldl (monitor_write b) NB
        (map (\<lambda>(i, u). file_arrived a b now i u) (filter (\<lambda>(i, u). u_Size u \<noteq> 0) (zip ids us)))) = written NB"
proof
  have len: "length us = length files" using assms(2) by (simp add: UpdatesFromFileInfo_def Let_def)
  have u: "u_Size (us ! k) = 0" "u_MimeType (us ! k) = TypePath"
    using assms(2,4,5) by (simp_all add: UpdatesFromFileInfo_def Let_def)
  then show "monitor_update a i now NA (us ! k) = Some NA"
    by (simp add: monitor_update_def messageFromUpdate_def IsPath_def Message_Zero_def Let_def)
  let ?bid = "u_BatchID (hd us)" and ?xs = "filter (\<lambda>(i, u). u_Size u \<noteq> 0) (zip ids us)"
  let ?ms = "map (\<lambda>(i, u). file_arrived a b now i u) ?xs"
  have "(ids ! k, us ! k) \<in> set (zip ids us)" using assms(4,6) len by (auto simp: set_zip)
  then have short: "length ?xs < length files"
    using length_filter_less [of "(ids ! k, us ! k)" "zip ids us" "\<lambda>(i, u). u_Size u \<noteq> 0"] u(1) assms(6) len by simp
  have total: "unat (of_nat (length files) :: u32) = length files"
    using assms(3) by (simp add: unsigned_of_nat take_bit_nat_eq_self)
  have us: "v \<in> set us \<Longrightarrow> u_BatchID v = ?bid \<and> u_BatchTotal v = of_nat (length files) \<and> u_MimeType v = TypePath" for v
    using assms(2,4) by (cases files) (auto simp: UpdatesFromFileInfo_def Let_def)
  have xs: "u_BatchID v = ?bid \<and> u_BatchTotal v = of_nat (length files) \<and> u_MimeType v = TypePath \<and> Author i = MyID a"
    if "(i, v) \<in> set (zip ids us)" for i v
    using us set_zip_rightD [OF that] set_zip_leftD [OF that] assms(8) by (simp add: list_all_iff)
  have parts: "batch_parts ?bid (of_nat (length files)) (map Payload ?ms)"
  proof -
    have "distinct (map fst ?xs)" using assms(6,7) len by (intro distinct_map_filter) simp
    moreover have "map m_ID (map Payload ?ms) = map fst ?xs" by (simp add: file_arrived_def comp_def case_prod_beta)
    ultimately have "distinct (map m_ID (map Payload ?ms))" by (simp only:)
    moreover have "list_all (\<lambda>m. m_BatchID m = ?bid \<and> m_BatchTotal m = of_nat (length files)) (map Payload ?ms)"
      using xs by (auto simp: list_all_iff file_arrived_def)
    ultimately show ?thesis by (simp only: batch_parts_def list_all_iff simp_thms)
  qed
  have "foreign_parts b ?ms" if "?xs \<noteq> []"
  proof -
    have "0 < length ?xs" using that by (simp only: length_greater_0_conv not_False_eq_True)
    with short have "1 < length files" by linarith
    then have "(1 :: u32) < of_nat (length files)" using total by (simp add: word_less_nat_alt)
    then show ?thesis
      using xs assms(9) pair_facts(7) [OF assms(1)]
      by (auto simp: foreign_parts_def list_all_iff file_arrived_def received_mime_def)
  qed
  then show "written (foldl (monitor_write b) NB ?ms) = written NB"
    using add_all_incomplete [OF parts _ assms(10)] monitor_write_all [of b ?ms NB] short total
    by (cases "?xs = []") (simp_all add: filter_replicate)
qed

theorem empty_file_stalls_witness:
  "written (foldl (monitor_write (sample_opts 2)) (one_peer 1)
     [file_arrived (sample_opts 1) (sample_opts 2) sample_time 0x1005 (path_update (str ''/s/a'') 2 4)]) = []"
proof -
  let ?files = "[\<lparr>Path = str ''/s/a'', Size = 2, ModTime = 7\<rparr>, \<lparr>Path = str ''/s/b'', Size = 0, ModTime = 7\<rparr>]"
  have us: "fst (UpdatesFromFileInfo sample_hash (\<lambda>_. []) ?files) = [path_update (str ''/s/a'') 2 4, path_update (str ''/s/b'') 0 2]"
    by code_simp
  have init: "written (one_peer 1) = []" "w_batches (n_world (one_peer 1)) = []" "MyID (sample_opts 1) = 1"
    by (simp_all add: one_peer_def node_New_def NewBatchCollector_def sample_opts_def)
  have own: "Author 0x1005 = 1" "Author 0x1006 = 1" by code_simp+
  show ?thesis
    using empty_file_stalls [OF sample_pair us [symmetric], of 1 "[0x1005, 0x1006]" "one_peer 1"] init own by simp
qed

end
