(* ===== verification/Turns.thy ===== *)
theory Turns
  imports Sync
begin

text \<open>
  Two users copying in turn: any sequence of texts and pictures, each copied on either node, one exchange
  after the other. What a node receives must not keep it from sending, and the other way round.
\<close>

definition both_ready :: "node_options \<Rightarrow> node_options \<Rightarrow> node \<Rightarrow> node \<Rightarrow> bool" where
  "both_ready a b NA NB \<longleftrightarrow> ready a b NA NB \<and> ready b a NB NA"

text \<open>A turn: whether the first node copies, the identifier of its message, and the update.\<close>

type_synonym turn = "bool \<times> i64 \<times> update"

fun copy_turns :: "node_options \<Rightarrow> node_options \<Rightarrow> nat \<Rightarrow> gotime \<Rightarrow> turn list \<Rightarrow> node \<times> node \<Rightarrow> (node \<times> node) option" where
  "copy_turns a b n now [] st = Some st"
| "copy_turns a b n now ((first, i, u) # ts) (NA, NB) =
     (if first then Option.bind (copy_once a b n now i u NA NB) (copy_turns a b n now ts)
      else Option.bind (copy_once b a n now i u NB NA) (\<lambda>(NB', NA'). copy_turns a b n now ts (NA', NB')))"

text \<open>An update the one side can send and the other takes.\<close>

definition sends :: "node_options \<Rightarrow> node_options \<Rightarrow> nat \<Rightarrow> gotime \<Rightarrow> i64 \<Rightarrow> update \<Rightarrow> bool" where
  "sends a b n now i u \<longleftrightarrow> plain_update u \<and> i \<noteq> 0 \<and> Author i = MyID a
     \<and> of_nat (length (u_Data u)) \<le> MaxFileSize (Clip b) \<and> can_travel a b now n (length (u_Data u)) i u"

fun turn_ok :: "node_options \<Rightarrow> node_options \<Rightarrow> nat \<Rightarrow> gotime \<Rightarrow> turn \<Rightarrow> bool" where
  "turn_ok a b n now (first, i, u) = (if first then sends a b n now i u else sends b a n now i u)"

text \<open>The identifiers and the contents two nodes compare a new message with.\<close>

definition seen_ids :: "node \<Rightarrow> node \<Rightarrow> i64 set" where
  "seen_ids NA NB = {m_ID (current NA), m_ID (current NB),
     m_ID (Payload (lastMsg (w_channel (n_world NA)))), m_ID (Payload (lastMsg (w_channel (n_world NB))))}"

definition seen_hashes :: "node \<Rightarrow> node \<Rightarrow> u64 set" where
  "seen_hashes NA NB = {m_ContentHash (current NA), m_ContentHash (current NB),
     m_ContentHash (Payload (lastMsg (w_channel (n_world NA)))), m_ContentHash (Payload (lastMsg (w_channel (n_world NB))))}
     \<union> ann_hashes (w_channel (n_world NA)) \<union> ann_hashes (w_channel (n_world NB))"

definition all_new :: "node \<Rightarrow> node \<Rightarrow> turn list \<Rightarrow> bool" where
  "all_new NA NB ts \<longleftrightarrow> distinct (map (\<lambda>(_, i, _). i) ts) \<and> distinct (map (\<lambda>(_, _, u). u_Hash u) ts)
     \<and> list_all (\<lambda>(_, i, u). i \<notin> seen_ids NA NB \<and> u_Hash u \<notin> seen_hashes NA NB) ts"

lemma seen_swap: "seen_ids NB NA = seen_ids NA NB" "seen_hashes NB NA = seen_hashes NA NB"
  by (auto simp: seen_ids_def seen_hashes_def)

lemma both_ready_swap: "both_ready b a NB NA \<longleftrightarrow> both_ready a b NA NB"
  by (auto simp: both_ready_def)

lemma new_unseen:
  assumes "i \<noteq> 0" and "i \<notin> seen_ids NA NB" and "u_Hash u \<notin> seen_hashes NA NB"
  shows "unseen NA NB i u"
  using assms
  by (auto simp: unseen_def seen_ids_def seen_hashes_def Message_Duplicate_def DuplicateByAnnounce_def Message_Announce_def)

lemma one_turn:
  assumes pair: "pair_ok a b" and st: "both_ready a b NA NB" and u: "sends a b n now i u"
    and new: "i \<notin> seen_ids NA NB" "u_Hash u \<notin> seen_hashes NA NB"
  obtains NA' NB' where "copy_once a b n now i u NA NB = Some (NA', NB')" and "both_ready a b NA' NB'"
    and "written NB' = written NB @ [(u_MimeType u, u_Data u)]" and "written NA' = written NA"
    and "seen_ids NA' NB' \<subseteq> insert i (seen_ids NA NB)" and "seen_hashes NA' NB' \<subseteq> insert (u_Hash u) (seen_hashes NA NB)"
proof -
  have s: "plain_update u" "i \<noteq> 0" "Author i = MyID a" "of_nat (length (u_Data u)) \<le> MaxFileSize (Clip b)"
    "can_travel a b now n (length (u_Data u)) i u" using u by (simp_all add: sends_def)
  have r: "ready a b NA NB" "ready b a NB NA" using st by (simp_all add: both_ready_def)
  obtain NA' NB' where c: "copy_once a b n now i u NA NB = Some (NA', NB')" "ready a b NA' NB'"
    "lastMsg (w_channel (n_world NA')) = event_of a now i u"
    "lastMsg (w_channel (n_world NB')) = arrived (event_of a now i u) (u_Data u)"
    "written NB' = written NB @ [(u_MimeType u, u_Data u)]" "written NA' = written NA"
    "ann (w_channel (n_world NA')) = ann (w_channel (n_world NA))"
    "ann_hashes (w_channel (n_world NA')) = ann_hashes (w_channel (n_world NA))"
    "ann_hashes (w_channel (n_world NB')) \<subseteq> insert (u_Hash u) (ann_hashes (w_channel (n_world NB)))"
    "current NA' = messageFromUpdate i u" "current NB' = current NB" "peers NA' = peers NA" "peers NB' = peers NB"
    using copy_plain_full [OF pair r(1) s(1,3) new_unseen [OF s(2) new] s(4,5)] by (elim exE conjE) (rule that)
  have "ready b a NB' NA'" using c(2,7,12,13) r(2) by (simp add: ready_def)
  with c(2) have st': "both_ready a b NA' NB'" by (simp add: both_ready_def)
  have ids: "seen_ids NA' NB' \<subseteq> insert i (seen_ids NA NB)"
    by (auto simp: seen_ids_def c(3,4,10,11))
  have hashes: "seen_hashes NA' NB' \<subseteq> insert (u_Hash u) (seen_hashes NA NB)"
    using c(9) by (simp add: seen_hashes_def c(3,4,8,10,11)) blast
  show thesis by (rule that [OF c(1) st' c(5,6) ids hashes])
qed

lemma all_new_rest:
  assumes "all_new NA NB ((first, i, u) # ts)"
    and "seen_ids NA' NB' \<subseteq> insert i (seen_ids NA NB)" and "seen_hashes NA' NB' \<subseteq> insert (u_Hash u) (seen_hashes NA NB)"
  shows "all_new NA' NB' ts"
proof -
  have "i' \<notin> seen_ids NA' NB' \<and> u_Hash u' \<notin> seen_hashes NA' NB'" if t: "(f, i', u') \<in> set ts" for f i' u'
  proof -
    have "i' \<noteq> i" "u_Hash u' \<noteq> u_Hash u" using assms(1) t by (auto simp: all_new_def image_iff)
    moreover have "i' \<notin> seen_ids NA NB" "u_Hash u' \<notin> seen_hashes NA NB"
      using assms(1) t by (auto simp: all_new_def list_all_iff)
    ultimately show ?thesis using assms(2,3) by blast
  qed
  with assms(1) show ?thesis by (auto simp: all_new_def list_all_iff)
qed

text \<open>What the turns of one side bring to the clipboard of the other.\<close>

definition copied_by :: "bool \<Rightarrow> turn list \<Rightarrow> (mime_type \<times> byte list) list" where
  "copied_by side ts = map (\<lambda>(_, _, u). (u_MimeType u, u_Data u)) (filter (\<lambda>(first, _, _). first = side) ts)"

lemma copied_by_simps [simp]:
  "copied_by side [] = []"
  "copied_by side ((first, i, u) # ts) = (if first = side then (u_MimeType u, u_Data u) # copied_by side ts else copied_by side ts)"
  by (simp_all add: copied_by_def)

lemma turns_run:
  assumes pair: "pair_ok a b" "pair_ok b a"
  shows "both_ready a b NA NB \<Longrightarrow> list_all (turn_ok a b n now) ts \<Longrightarrow> all_new NA NB ts \<Longrightarrow>
    \<exists>NA' NB'. copy_turns a b n now ts (NA, NB) = Some (NA', NB') \<and> both_ready a b NA' NB'
      \<and> written NB' = written NB @ copied_by True ts \<and> written NA' = written NA @ copied_by False ts"
proof (induction ts arbitrary: NA NB)
  case (Cons t ts)
  obtain first i u where t: "t = (first, i, u)" by (cases t) auto
  have new: "i \<notin> seen_ids NA NB" "u_Hash u \<notin> seen_hashes NA NB" using Cons.prems(3) t by (simp_all add: all_new_def)
  show ?case
  proof (cases first)
    case True
    then have u: "sends a b n now i u" using Cons.prems(2) t by simp
    from one_turn [OF pair(1) Cons.prems(1) u new] obtain NA1 NB1 where c:
      "copy_once a b n now i u NA NB = Some (NA1, NB1)" "both_ready a b NA1 NB1"
      "written NB1 = written NB @ [(u_MimeType u, u_Data u)]" "written NA1 = written NA"
      "seen_ids NA1 NB1 \<subseteq> insert i (seen_ids NA NB)" "seen_hashes NA1 NB1 \<subseteq> insert (u_Hash u) (seen_hashes NA NB)" .
    have "all_new NA1 NB1 ts" using all_new_rest Cons.prems(3) c(5,6) unfolding t by blast
    from Cons.IH [OF c(2) _ this] Cons.prems(2) c(1,3,4) t True show ?thesis by auto
  next
    case False
    then have u: "sends b a n now i u" using Cons.prems(2) t by simp
    have st: "both_ready b a NB NA" using Cons.prems(1) by (simp add: both_ready_swap)
    have new': "i \<notin> seen_ids NB NA" "u_Hash u \<notin> seen_hashes NB NA" using new by (simp_all add: seen_swap)
    from one_turn [OF pair(2) st u new'] obtain NB1 NA1 where c:
      "copy_once b a n now i u NB NA = Some (NB1, NA1)" "both_ready b a NB1 NA1"
      "written NA1 = written NA @ [(u_MimeType u, u_Data u)]" "written NB1 = written NB"
      "seen_ids NB1 NA1 \<subseteq> insert i (seen_ids NB NA)" "seen_hashes NB1 NA1 \<subseteq> insert (u_Hash u) (seen_hashes NB NA)" .
    have "all_new NA1 NB1 ts"
      using all_new_rest [OF Cons.prems(3) [unfolded t], of NA1 NB1] c(5,6) by (simp add: seen_swap)
    from Cons.IH [OF _ _ this] Cons.prems(2) c(1,2,3,4) t False show ?thesis by (auto simp: both_ready_swap)
  qed
qed simp

section \<open>Properties\<close>

text \<open>C2. Two users can copy in turn, in any order and as often as they like: of any sequence of new texts and
  pictures, each copied on either of two idle connected nodes, the clipboard of each node gets exactly
  what was copied on the other, byte for byte and in order, and in the end both are idle again. What
  a node receives is never in the way of what it sends.\<close>

theorem turns_reach_both:
  assumes "pair_ok a b" and "pair_ok b a" and "both_ready a b NA NB"
    and "list_all (turn_ok a b n now) ts" and "all_new NA NB ts"
  shows "\<exists>NA' NB'. copy_turns a b n now ts (NA, NB) = Some (NA', NB') \<and> both_ready a b NA' NB'
    \<and> written NB' = written NB @ copied_by True ts \<and> written NA' = written NA @ copied_by False ts"
  using turns_run [OF assms(1,2,3,4,5)] .

definition sample_turn :: "u64 \<Rightarrow> byte list \<Rightarrow> update" where
  "sample_turn h d = \<lparr>u_Data = d, u_Size = 2, u_MimeType = TypeText, u_Hash = h, u_BatchID = 0, u_BatchTotal = 0\<rparr>"

abbreviation sample_turns :: "turn list" where
  "sample_turns \<equiv> [(True, 0x1005, sample_turn 77 [104, 105]), (False, 0x2005, sample_turn 78 [106]), (False, 0x2006, sample_turn 79 [107])]"

lemma sample_sends:
  assumes "list_all (\<lambda>ev. Event_SizeVT ref_helpers (Some (the_proto ev)) < 100) evs"
    and "list_all (\<lambda>ev. length (event_wire ref_helpers ev) + length d \<le> 100) evs"
    and "evs = [EventAnnounce (announce_of (event_of (sample_opts j) sample_time i (sample_turn h d))),
      EventRequest (NewRequest k sample_time i), EventMessage (event_of (sample_opts j) sample_time i (sample_turn h d))]"
    and "i \<noteq> 0" "Author i = j" "h \<noteq> 0" "d \<noteq> []" "length d < 100"
  shows "sends (sample_opts j) (sample_opts k) 100 sample_time i (sample_turn h d)"
proof -
  have o: "helpers_of (sample_opts k) = ref_helpers" "MyID (sample_opts k) = k" "MaxFileSize (Clip (sample_opts k)) = 1000" for k
    by (simp_all add: sample_opts_def)
  have "list_all (\<lambda>ev. time_ok (created ev)) evs"
    unfolding assms(3) by (simp add: announce_of_def event_of_def Message_Event_def NewRequest_def NewEvent_def time_ok_def sample_time_def)
  then have "can_travel (sample_opts j) (sample_opts k) sample_time 100 (length d) i (sample_turn h d)"
    using assms(1,2) unfolding can_travel_def o assms(3) by (simp add: sendable_def del: Event_SizeVT.simps)
  moreover have "(of_nat (length d) :: u64) \<le> 1000"
    using assms(8) by (simp add: word_le_nat_alt unsigned_of_nat take_bit_nat_eq_self)
  ultimately show ?thesis
    using assms(4-8) o by (simp add: sends_def plain_update_def sample_turn_def)
qed

theorem turns_reach_both_witness:
  "\<exists>NA' NB'. copy_turns (sample_opts 1) (sample_opts 2) 100 sample_time sample_turns (one_peer 2, one_peer 1) = Some (NA', NB')
    \<and> written NB' = [(TypeText, [104, 105])] \<and> written NA' = [(TypeText, [106]), (TypeText, [107])]"
proof -
  have p: "pair_ok (sample_opts 1) (sample_opts 2)" "pair_ok (sample_opts 2) (sample_opts 1)"
    by (simp_all add: pair_ok_def sample_opts_ok ref_AsTime_ok sample_opts_def sample_device_def)
       (simp_all add: options_ok_def ref_helpers_ok)
  have r: "both_ready (sample_opts 1) (sample_opts 2) (one_peer 2) (one_peer 1)"
    using one_peer_ok one_peer_get
    by (simp add: both_ready_def ready_def sample_opts_def sample_device_def) (simp add: one_peer_def node_New_def New_def)
  have s: "sends (sample_opts 1) (sample_opts 2) 100 sample_time 0x1005 (sample_turn 77 [104, 105])"
    "sends (sample_opts 2) (sample_opts 1) 100 sample_time 0x2005 (sample_turn 78 [106])"
    "sends (sample_opts 2) (sample_opts 1) 100 sample_time 0x2006 (sample_turn 79 [107])"
    by (rule sample_sends [OF _ _ refl]; code_simp)+
  have "all_new (one_peer 2) (one_peer 1) sample_turns"
    by (simp add: all_new_def seen_ids_def seen_hashes_def sample_turn_def one_peer_def node_New_def New_def newHistory_def
        ann_hashes_def zero_message_def zero_event_message_def)
  moreover have "list_all (turn_ok (sample_opts 1) (sample_opts 2) 100 sample_time) sample_turns"
    using s by simp
  moreover have "written (one_peer k) = []" for k by (simp add: one_peer_def node_New_def)
  ultimately show ?thesis
    using turns_reach_both [OF p r, of 100 sample_time sample_turns]
    by (simp add: sample_turn_def del: copy_turns.simps) blast
qed

end
