(* ===== verification/Provenance.thy ===== *)
theory Provenance
  imports FileSync
begin

text \<open>
  Where what a node holds comes from. Whatever is in the channel was put there by the clipboard or came
  on a stream, so a property that all of these have is one of everything the node keeps, sends and
  writes to its clipboard. The lemmas take the property as an argument; the streams a node writes are
  followed to their last byte, also when the connection breaks in the middle.
\<close>

section \<open>What is written to a stream\<close>

text \<open>A stream that breaks, or whose content cannot be read, has taken a beginning of what was to be sent.\<close>

lemma out_put_bytes:
  "o_bytes (snd (out_put w b)) = o_bytes w @ take (o_limit w - length (o_bytes w)) b"
  "fst (out_put w b) = None \<Longrightarrow> o_bytes (snd (out_put w b)) = o_bytes w @ b"
  by (auto simp: out_put_def Let_def split: if_splits)

lemma WriteContext_prefix:
  assumes H: "helpers_ok H" and new: "o_bytes w0 = []"
    and run: "WriteContext H (Inr w0) ev raw = Some (err, Some w)"
  shows "prefix (o_bytes w) (event_wire H ev @ raw_bytes raw)"
proof -
  obtain arr where ev: "WriteEvent H out_put w0 new_encode_buffer (AnEvent ev)
      = Some (map_option (PWrite \<circ> FIo) (fst (out_put w0 (event_wire H ev))), snd (out_put w0 (event_wire H ev)), arr)"
    using write_wire [OF H, of out_put w0 new_encode_buffer ev] by blast
  have cut: "prefix (o_bytes (snd (out_put w0 (event_wire H ev)))) (event_wire H ev @ bs)" for bs
    using new by (simp add: out_put_bytes take_is_prefix prefix_append)
  have more: "prefix (o_bytes (snd (out_put (snd (out_put w0 (event_wire H ev))) bs))) (event_wire H ev @ bs)"
    if "fst (out_put w0 (event_wire H ev)) = None" for bs
    using out_put_bytes(2) [OF that] new by (simp add: out_put_bytes(1) take_is_prefix)
  show ?thesis
  proof (cases "fst (out_put w0 (event_wire H ev))")
    case None
    with ev run more cut cut [of "[]"] show ?thesis
      by (cases raw) (auto simp: WriteContext_def raw_bytes_def Let_def case_prod_beta)
  next
    case (Some e)
    with ev run cut show ?thesis by (simp add: WriteContext_def)
  qed
qed

text \<open>A beginning of a frame that is not all of it is refused.\<close>

lemma DecodeReader_cut:
  assumes short: "length bs < 2 ^ 32" and cut: "strict_prefix b (frame bs)"
  shows "\<exists>e' r'. DecodeReader f \<lparr>r_bytes = b, r_err = e\<rparr> = Some (Inl (FIo e'), r')"
proof (cases "length b < 4")
  case True
  then show ?thesis by (simp add: DecodeReader_def dataLen_def ReadFull_def Length_def)
next
  case False
  obtain z where z: "frame bs = b @ z" "z \<noteq> []" using cut by (auto elim: strict_prefixE')
  then have "take 4 b = take 4 (frame bs)" using False by simp
  then have hd4: "take 4 b = be32 (of_nat (length bs))" by (simp add: frame_def)
  have len: "length b < 4 + length bs" using arg_cong [OF z(1), of length] z(2) by simp
  have "dataLen \<lparr>r_bytes = b, r_err = e\<rparr> = (Inr (length bs), \<lparr>r_bytes = drop 4 b, r_err = e\<rparr>)"
    using False hd4 short by (simp add: dataLen_def ReadFull_def Length_def unat_u32_small)
  with len False show ?thesis by (auto simp: DecodeReader_def ReadFull_def)
qed

lemma DecodeEvent_cut:
  assumes H: "helpers_ok H" and s: "sendable H ev" and cut: "strict_prefix b (event_wire H ev)"
  shows "\<exists>e' r'. DecodeEvent H A \<lparr>r_bytes = b, r_err = e\<rparr> = Some (Inl e', r')"
proof -
  have "length (Event_wire H (the_proto ev)) < 2 ^ 32"
    using s Event_size [OF H, of "the_proto ev"] by (simp add: sendable_def del: Event_SizeVT.simps)
  from DecodeReader_cut [OF this, of b "Event_UnmarshalVT H zero_p_event" e] cut
  show ?thesis by (auto simp: DecodeEvent_def event_wire_def)
qed

section \<open>Events small enough to be framed\<close>

lemma varint_short: "length (varint v) \<le> 10"
proof -
  have "unat v < 2 ^ (7 * Suc k) \<Longrightarrow> length (varint v) \<le> Suc k" for k
  proof (induction k arbitrary: v)
    case 0
    then have "v < 0x80" by (simp add: word_less_nat_alt)
    then show ?case by (simp add: varint.simps)
  next
    case (Suc k)
    have "2 ^ (7 * Suc (Suc k)) = 2 ^ (7 * Suc k) * (2 :: nat) ^ 7" by (simp add: power_add)
    with Suc.prems have "unat v < 2 ^ (7 * Suc k) * 2 ^ 7" by (simp only:)
    then have "unat v div 2 ^ 7 < 2 ^ (7 * Suc k)" by (rule less_mult_imp_div_less)
    then have "unat (drop_bit 7 v) < 2 ^ (7 * Suc k)"
      by (simp only: unsigned_drop_bit_eq drop_bit_eq_div take_bit_length_eq) (simp add: drop_bit_eq_div unat_div_distrib)
    from Suc.IH [OF this] show ?case by (subst varint.simps) simp
  qed
  from this [of 9] show ?thesis using unsigned_less [of v, where 'a = nat] by simp
qed

lemma field_short:
  "length (enc_uint t v) \<le> 11" "length (enc_bytes t s) \<le> 11 + length s" "length (enc_string t s) \<le> 11 + length s"
  using varint_short [of v] varint_short [of "of_nat (length s)"]
  by (simp_all add: enc_uint_def enc_bytes_def enc_string_def)

text \<open>A time whose timestamp is not absurdly long; the codec of timestamps is a parameter.\<close>

definition stampable :: "helpers \<Rightarrow> gotime \<Rightarrow> bool" where
  "stampable H t \<longleftrightarrow> time_ok t \<and> TsSizeVT H \<lparr>ts_Seconds = unix_sec t, ts_Nanos = unix_nsec t\<rparr> < 2 ^ 30"

lemma event_fits:
  assumes H: "helpers_ok H" and t: "stampable H (created ev)"
    and ev: "case ev of EventMessage m \<Rightarrow> length (m_Name (Payload m)) < 2 ^ 30 | EventHandshake _ \<Rightarrow> False | _ \<Rightarrow> True"
  shows "sendable H ev"
proof -
  let ?ts = "\<lparr>ts_Seconds = unix_sec (created ev), ts_Nanos = unix_nsec (created ev)\<rparr>"
  have ts: "length (ts_bytes H ?ts) < 2 ^ 30"
    using H t by (simp add: helpers_ok_def stampable_def)
  have c: "length (created_wire H (the_proto ev)) < 2 ^ 30 + 11"
    using ts field_short(2) [of "0xa" "ts_bytes H ?ts"]
    by (cases ev) (simp_all add: the_proto_def setCreated_def created_wire_def)
  have p: "length (payloads_wire H (the_proto ev)) < 2 ^ 30 + 100"
  proof (cases ev)
    case (EventMessage m)
    let ?p = "proto_message (Payload m)"
    note f = field_short(1) [of "0x8" "pm_ID ?p"] field_short(1) [of "0x10" "pm_ContentLength ?p"]
      field_short(1) [of "0x18" "scast (pm_MimeType ?p)"] field_short(1) [of "0x20" "pm_ContentHash ?p"]
      field_short(3) [of "0x2a" "pm_Name ?p"] field_short(1) [of "0x30" "pm_BatchID ?p"]
      field_short(1) [of "0x38" "ucast (pm_BatchTotal ?p)"]
    have "length (Message_wire H ?p) \<le> 77 + length (m_Name (Payload m))"
      using f by (simp add: Message_wire_def) (simp add: proto_message_def)
    with EventMessage ev field_short(2) [of "0x12" "Message_wire H ?p"] show ?thesis
      by (simp add: the_proto_def payloads_wire_def)
  next
    case (EventAnnounce m)
    let ?p = "proto_announce (Payload m)"
    note f = field_short(1) [of "0x8" "pa_ID ?p"] field_short(1) [of "0x10" "pa_ContentLength ?p"]
      field_short(1) [of "0x18" "scast (pa_MimeType ?p)"] field_short(1) [of "0x20" "pa_ContentHash ?p"]
      field_short(1) [of "0x28" "pa_BatchID ?p"] field_short(1) [of "0x30" "ucast (pa_BatchTotal ?p)"]
    have "length (Announce_wire H ?p) \<le> 66"
      using f by (simp add: Announce_wire_def) (simp add: proto_announce_def)
    with EventAnnounce field_short(2) [of "0x22" "Announce_wire H ?p"] show ?thesis
      by (simp add: the_proto_def payloads_wire_def)
  next
    case (EventRequest m)
    have "length (RequestMessage_wire H \<lparr>pr_ID = r_ID (Payload m), pr_unknown = []\<rparr>) \<le> 11"
      using field_short(1) [of "0x8" "r_ID (Payload m)"] by (simp add: RequestMessage_wire_def)
    with EventRequest field_short(2) [of "0x32" "RequestMessage_wire H \<lparr>pr_ID = r_ID (Payload m), pr_unknown = []\<rparr>"]
    show ?thesis by (simp add: the_proto_def payloads_wire_def)
  qed (use ev in simp)
  have "length (Event_wire H (the_proto ev)) < 2 ^ 32"
    using c p the_proto_clean [of ev] by (simp add: Event_wire_def Event_clean_def)
  then show ?thesis
    using t Event_size [OF H, of "the_proto ev"] by (simp add: sendable_def stampable_def del: Event_SizeVT.simps)
qed

section \<open>What the channel holds\<close>

text \<open>Every message in it, but for the zero one it starts with, and every announcement waiting.\<close>

definition holds :: "(event_message \<Rightarrow> bool) \<Rightarrow> (event_announce \<Rightarrow> bool) \<Rightarrow> channel \<Rightarrow> bool" where
  "holds P Q c \<longleftrightarrow>
     (lastMsg c = zero_event_message \<or> P (lastMsg c)) \<and> list_all P (msg c) \<and> list_all Q (ann c)
     \<and> (\<forall>k m. fifo_Get (servedFiles c) k = Some m \<longrightarrow> P m)"

lemma holds_New: "holds P Q (New n)"
  by (simp add: holds_def New_def newServedFilesHistory_def fifo_get_new)

lemma holds_mono:
  "holds P Q c \<Longrightarrow> (\<And>m. P m \<Longrightarrow> P' m) \<Longrightarrow> (\<And>a. Q a \<Longrightarrow> Q' a) \<Longrightarrow> holds P' Q' c"
  by (auto simp: holds_def list_all_iff)

lemma Send_holds:
  assumes ok: "channel_ok c" and c: "holds P Q c" and m: "P m" and s: "Send c m = Some c'"
  shows "holds P Q c'"
proof (cases "updateLastMsg c m = Some (False, c) \<or> \<not> IsPath (m_MimeType (Payload m))")
  case True
  with c m s show ?thesis by (auto simp: Send_def updateLastMsg_def holds_def split: if_splits)
next
  case False
  obtain r h where add: "fifo_Add (servedFiles c) (m_ID (Payload m)) m = Some (r, h)"
    and c': "c' = c\<lparr>lastMsg := m, servedFiles := h, msg := msg c @ [m]\<rparr>"
    using False s by (auto simp: Send_def updateLastMsg_def split: option.splits if_splits)
  have inv: "fifo_inv HistorySize (servedFiles c)" using ok by (simp add: channel_ok_def)
  have "P w" if "fifo_Get h j = Some w" for j w
    using hist.add_all_values [OF inv add, of "\<lambda>_. P" j w] that c m by (auto simp: holds_def)
  with c m c' show ?thesis by (simp add: holds_def)
qed

lemma Announce_holds: "holds P Q c \<Longrightarrow> Q a \<Longrightarrow> Announce c a = Some c' \<Longrightarrow> holds P Q c'"
  by (auto simp: Announce_def shouldUpdateAnn_def holds_def split: option.splits bool.splits prod.splits)

lemma Messages_holds: "holds P Q c \<Longrightarrow> Messages c = Some (m, c') \<Longrightarrow> P m \<and> holds P Q c'"
  by (auto simp: Messages_def holds_def split: list.splits)

lemma Announcements_holds: "holds P Q c \<Longrightarrow> Announcements c = Some (a, c') \<Longrightarrow> Q a \<and> holds P Q c'"
  by (auto simp: Announcements_def holds_def split: list.splits)

lemma Get_holds: "holds P Q c \<Longrightarrow> Get c k = Some m \<Longrightarrow> P m \<or> m = zero_event_message"
  by (auto simp: Get_def holds_def split: if_splits)

section \<open>What a stream can put there\<close>

text \<open>
  The payload a message on a stream ends with: the path of a file below a directory of the store, or as
  many bytes of the stream as the message says.
\<close>

definition in_store :: "peer_env \<Rightarrow> gostring \<Rightarrow> bool" where
  "in_store E p \<longleftrightarrow> (\<exists>m. below (isolateDirClean (fileWriter E) m) p)"

definition payload_from :: "peer_env \<Rightarrow> message \<Rightarrow> byte list \<Rightarrow> byte list \<Rightarrow> bool" where
  "payload_from E m bs d \<longleftrightarrow>
     (if IsPath (m_MimeType m) then in_store E d
      else d = take (unat (m_ContentLength m)) bs \<and> length d = unat (m_ContentLength m))"

definition admits ::
  "peer_env \<Rightarrow> (event_message \<Rightarrow> bool) \<Rightarrow> (event_announce \<Rightarrow> bool) \<Rightarrow> reader \<Rightarrow> bool" where
  "admits E P Q r \<longleftrightarrow>
     (\<forall>em r' d. DecodeEvent (e_helpers E) (e_AsTime E) r = Some (Inr (EventMessage em), r') \<longrightarrow>
        payload_from E (Payload em) (r_bytes r') d \<longrightarrow> P (em\<lparr>Payload := (Payload em)\<lparr>m_Data := d\<rparr>\<rparr>))
     \<and> (\<forall>an r'. DecodeEvent (e_helpers E) (e_AsTime E) r = Some (Inr (EventAnnounce an), r') \<longrightarrow> Q an)"

lemma store_Write_path:
  assumes "store_Write deny disk (fileWriter E) fs r m = ((p, err), fs')" and "err = None \<or> err = Some ErrFileExists"
  shows "in_store E p"
  using assms(1)
proof (cases rule: store_Write_cases)
  case early
  with assms(2) show ?thesis by auto
next
  case (saved full fs2)
  then have "p = full" using save_content_changes(3,4) [OF saved(1)] assms(2) by blast
  with saved(2) show ?thesis by (auto simp: in_store_def)
qed

lemma deliver_holds:
  assumes "world_ok W" and "holds P Q (w_channel W)" and "P em" and "deliver W em = Some (err, W')"
  shows "holds P Q (w_channel W')"
  using assms Send_holds [of "w_channel W" P Q em] by (auto simp: deliver_def world_ok_def split: option.splits)

lemma handleMessage_holds:
  assumes W: "world_ok W" "holds P Q (w_channel W)"
    and P: "\<And>d. payload_from E (Payload em) (r_bytes stream) d \<Longrightarrow> P (em\<lparr>Payload := (Payload em)\<lparr>m_Data := d\<rparr>\<rparr>)"
    and run: "handleMessage E W em stream = Some (err, W')"
  shows "holds P Q (w_channel W')"
proof (cases "maxReceiveSize E < m_ContentLength (Payload em)")
  case True
  with run W(2) show ?thesis by (auto simp: handleMessage_def Let_def)
next
  case fits: False
  show ?thesis
  proof (cases "IsPath (m_MimeType (Payload em))")
    case True
    obtain p serr fs' where w: "store_Write (os_deny E) (os_disk E) (fileWriter E) (w_fs W) stream (Payload em) = ((p, serr), fs')"
      by (metis surj_pair)
    show ?thesis
    proof (cases "serr = None \<or> serr = Some ErrFileExists")
      case ok: True
      have "deliver (W\<lparr>w_fs := fs'\<rparr>) (em\<lparr>Payload := (Payload em)\<lparr>m_Data := p\<rparr>\<rparr>) = Some (err, W')"
        using run fits True w ok by (auto simp: handleMessage_def Let_def)
      moreover have "P (em\<lparr>Payload := (Payload em)\<lparr>m_Data := p\<rparr>\<rparr>)"
        using P [of p] True store_Write_path [OF w ok] by (simp add: payload_from_def)
      ultimately show ?thesis
        using deliver_holds [of "W\<lparr>w_fs := fs'\<rparr>" P Q] W by simp
    next
      case False
      with run fits True w W(2) show ?thesis
        by (auto simp: handleMessage_def Let_def split: option.splits if_splits)
    qed
  next
    case False
    show ?thesis
    proof (cases "unat (m_ContentLength (Payload em)) \<le> length (r_bytes stream)")
      case True
      let ?d = "take (unat (m_ContentLength (Payload em))) (r_bytes stream)"
      have "deliver W (em\<lparr>Payload := (Payload em)\<lparr>m_Data := ?d\<rparr>\<rparr>) = Some (err, W')"
        using run fits False True by (simp add: handleMessage_def Let_def ReadFull_def split: if_splits)
      with P [of ?d] False True deliver_holds [OF W] show ?thesis by (simp add: payload_from_def)
    next
      case short: False
      with run fits False W(2) show ?thesis
        by (auto simp: handleMessage_def Let_def ReadFull_def split: if_splits)
    qed
  qed
qed

lemma handleStream_holds:
  assumes W: "world_ok W" "holds P Q (w_channel W)" and r: "admits E P Q r"
    and run: "handleStream E op W r = Some (err, w, W')"
  shows "holds P Q (w_channel W')"
proof (cases "DecodeEvent (e_helpers E) (e_AsTime E) r")
  case None
  with run show ?thesis by (simp add: handleStream_def)
next
  case (Some x)
  obtain y r' where x: "x = (y, r')" by fastforce
  show ?thesis
  proof (cases y)
    case (Inl e)
    with Some x run W(2) show ?thesis by (simp add: handleStream_def)
  next
    case (Inr ev)
    show ?thesis
    proof (cases ev)
      case (EventMessage em)
      with Some x Inr run have "handleMessage E W em r' = Some (err, W')"
        by (auto simp: handleStream_def split: option.splits)
      moreover have "P (em\<lparr>Payload := (Payload em)\<lparr>m_Data := d\<rparr>\<rparr>)" if "payload_from E (Payload em) (r_bytes r') d" for d
        using r that Some x Inr EventMessage by (simp add: admits_def)
      ultimately show ?thesis using handleMessage_holds [OF W] by blast
    next
      case (EventAnnounce an)
      with Some x Inr r have "Q an" by (simp add: admits_def)
      with Some x Inr EventAnnounce run Announce_holds [OF W(2)] show ?thesis
        by (auto simp: handleStream_def split: option.splits)
    next
      case (EventRequest q)
      with Some x Inr run W(2) show ?thesis by (auto simp: handleStream_def split: option.splits)
    next
      case (EventHandshake h)
      with Some x Inr run W(2) show ?thesis by (simp add: handleStream_def)
    qed
  qed
qed

text \<open>And the files it can leave behind: what is new in a file is a beginning of what came on the stream.\<close>

lemma store_Write_files:
  assumes w: "store_Write deny disk st fs r m = ((p, err), fs')" and c: "fs' q = Some (File c)"
  shows "fs q = Some (File c) \<or> prefix c (r_bytes r)"
  using w
proof (cases rule: store_Write_cases)
  case early
  from early(4) [of q] c show ?thesis by fastforce
next
  case (saved full fs2)
  show ?thesis
  proof (cases "fs' q = fs2 q")
    case True
    with saved(4) [of q] c show ?thesis by fastforce
  next
    case False
    then have q: "q = full" using save_content_changes(1) [OF saved(1)] by blast
    show ?thesis
    proof (cases err)
      case None
      from save_content_changes(3) [OF saved(1) this] c q show ?thesis by (auto simp: take_is_prefix)
    next
      case (Some e)
      with save_content_changes(5) [OF saved(1)] c q False show ?thesis by auto
    qed
  qed
qed

lemma deliver_fs: "deliver W em = Some (err, W') \<Longrightarrow> w_fs W' = w_fs W"
  by (auto simp: deliver_def split: option.splits)

lemma handleMessage_files:
  assumes run: "handleMessage E W em stream = Some (err, W')" and c: "w_fs W' q = Some (File c)"
  shows "w_fs W q = Some (File c) \<or> (IsPath (m_MimeType (Payload em)) \<and> prefix c (r_bytes stream))"
proof (cases "\<not> maxReceiveSize E < m_ContentLength (Payload em) \<and> IsPath (m_MimeType (Payload em))")
  case True
  obtain p serr fs' where w: "store_Write (os_deny E) (os_disk E) (fileWriter E) (w_fs W) stream (Payload em) = ((p, serr), fs')"
    by (metis surj_pair)
  have "w_fs W' = fs'"
    using run True w by (auto simp: handleMessage_def Let_def split: option.splits if_splits dest!: deliver_fs)
  with store_Write_files [OF w, of q c] c True show ?thesis by auto
next
  case False
  have "w_fs W' = w_fs W"
    using run False
    by (auto simp: handleMessage_def Let_def split: if_splits sum.splits prod.splits dest!: deliver_fs)
  with c show ?thesis by simp
qed

lemma handleStream_files:
  assumes run: "handleStream E op W r = Some (err, w, W')" and c: "w_fs W' q = Some (File c)"
  shows "w_fs W q = Some (File c) \<or> (\<exists>em r'. DecodeEvent (e_helpers E) (e_AsTime E) r = Some (Inr (EventMessage em), r')
    \<and> IsPath (m_MimeType (Payload em)) \<and> prefix c (r_bytes r'))"
proof (cases "\<exists>em r'. DecodeEvent (e_helpers E) (e_AsTime E) r = Some (Inr (EventMessage em), r')")
  case True
  then obtain em r' where d: "DecodeEvent (e_helpers E) (e_AsTime E) r = Some (Inr (EventMessage em), r')" by blast
  with run have "handleMessage E W em r' = Some (err, W')"
    by (auto simp: handleStream_def split: option.splits)
  from handleMessage_files [OF this c] d show ?thesis by blast
next
  case False
  then have "w_fs W' = w_fs W"
    using run by (auto simp: handleStream_def split: option.splits sum.splits any_event.splits)
  with c show ?thesis by simp
qed

section \<open>What a node holds\<close>

text \<open>The streams of an event, and the messages of the clipboard.\<close>

fun accepted_streams :: "accepted list \<Rightarrow> reader list" where
  "accepted_streams [] = []"
| "accepted_streams (AcceptStream r op # as) = r # accepted_streams as"
| "accepted_streams (_ # as) = accepted_streams as"

fun event_streams :: "node_event \<Rightarrow> reader list" where
  "event_streams (Served c opened as) = accepted_streams as"
| "event_streams (Incoming r op) = [r]"
| "event_streams _ = []"

fun event_copies :: "node_event \<Rightarrow> (i64 \<times> update) list" where
  "event_copies (Updated i u) = [(i, u)]"
| "event_copies _ = []"

lemma Receive_holds:
  assumes E: "helpers_ok (e_helpers E)" "unat (maxReceiveSize E) < 2 ^ 63"
  shows "world_ok W \<Longrightarrow> holds P Q (w_channel W) \<Longrightarrow> list_all (admits E P Q) (accepted_streams as)
    \<Longrightarrow> Receive uni E W as = Some (r, W') \<Longrightarrow> holds P Q (w_channel W')"
proof (induction as arbitrary: W)
  case (Cons a as)
  show ?case
  proof (cases a)
    case (AcceptStream s op)
    obtain err w W1 where h: "handleStream E op W s = Some (err, w, W1)" "world_ok W1"
      using handleStream_ok [OF E(1) Cons.prems(1) E(2)] by blast
    have "holds P Q (w_channel W1)"
      using handleStream_holds [OF Cons.prems(1,2) _ h(1)] Cons.prems(3) AcceptStream by simp
    with Cons AcceptStream h show ?thesis by simp
  qed (use Cons.prems in simp_all)
qed simp

lemma addPeer_frame:
  "n_world (snd (addPeer N h c)) = n_world N" "written (snd (addPeer N h c)) = written N"
  by (simp_all add: addPeer_def Let_def split: option.split)

lemma cleanup_frame:
  "n_world (cleanup N p) = n_world N" "written (cleanup N p) = written N"
  by (simp_all add: cleanup_def Let_def split: option.split)

lemma handleConnection_frame:
  "handleConnection opts now N c opened = Some (r, N') \<Longrightarrow> n_world N' = n_world N \<and> written N' = written N"
  using addPeer_frame [of N _ c]
  by (auto simp: handleConnection_def Let_def case_prod_beta split: option.splits sum.splits)

lemma ConnectTo_frame:
  "ConnectTo opts now N d = Some (r, N') \<Longrightarrow> n_world N' = n_world N \<and> written N' = written N"
  by (auto simp: ConnectTo_def split: if_splits sum.splits dial_error.splits option.splits)
    (blast dest: handleConnection_frame)+

lemma PeerDiscovered_frame:
  "PeerDiscovered opts now dial N ip payload = Some N' \<Longrightarrow> n_world N' = n_world N \<and> written N' = written N"
  by (auto simp: PeerDiscovered_def split: if_splits sum.splits option.splits)
    (blast dest: ConnectTo_frame)+

text \<open>What does not touch the channel or the clipboard.\<close>

fun connects :: "node_event \<Rightarrow> bool" where
  "connects (Accepted c opened) = True"
| "connects (Dialed r) = True"
| "connects (Discovered ip payload dial) = True"
| "connects (BatchTimer b) = True"
| "connects (Disconnected p) = True"
| "connects _ = False"

lemma connects_frame:
  assumes "connects ev" and "node_step opts now N ev = Some N'"
  shows "w_channel (n_world N') = w_channel (n_world N) \<and> written N' = written N \<and> w_fs (n_world N') = w_fs (n_world N)"
proof (cases ev)
  case (Accepted c opened)
  with assms(2) show ?thesis by (auto dest!: handleConnection_frame)
next
  case (Dialed r)
  with assms(2) show ?thesis by (auto dest!: ConnectTo_frame)
next
  case (Discovered ip payload dial)
  with assms(2) show ?thesis by (auto dest!: PeerDiscovered_frame)
qed (use assms in \<open>auto simp: cleanup_frame\<close>)

lemma handleAnnounce_frame:
  "handleAnnounce opts streams now N an = Some (w, N') \<Longrightarrow>
   w_channel (n_world N') = w_channel (n_world N) \<and> written N' = written N \<and> w_fs (n_world N') = w_fs (n_world N)"
  by (auto simp: handleAnnounce_def split: option.splits if_splits)

lemma monitor_update_holds:
  assumes N: "node_ok N" "holds P Q (w_channel (n_world N))" and P: "P (event_of opts now i u)"
    and run: "monitor_update opts i now N u = Some N'"
  shows "holds P Q (w_channel (n_world N')) \<and> written N' = written N \<and> w_fs (n_world N') = w_fs (n_world N)"
  using assms Send_holds [of "w_channel (n_world N)" P Q "event_of opts now i u"]
  by (auto simp: monitor_update_def Let_def node_ok_def world_ok_def event_of_def split: if_splits option.splits)

lemma monitor_message_holds:
  assumes "holds P Q (w_channel (n_world N))" and "monitor_message opts streams N = Some (sent, N')"
  shows "holds P Q (w_channel (n_world N')) \<and> w_fs (n_world N') = w_fs (n_world N)"
  using assms Messages_holds [of P Q "w_channel (n_world N)"]
  by (auto simp: monitor_message_def Let_def split: option.splits)

lemma monitor_announce_holds:
  assumes "holds P Q (w_channel (n_world N))" and "monitor_announce opts streams now N = Some (w, N')"
  shows "holds P Q (w_channel (n_world N')) \<and> written N' = written N \<and> w_fs (n_world N') = w_fs (n_world N)"
  using assms Announcements_holds [of P Q "w_channel (n_world N)"]
  by (auto simp: monitor_announce_def split: option.splits dest: handleAnnounce_frame)

lemma node_step_holds:
  assumes o: "options_ok opts" and N: "node_ok N" "holds P Q (w_channel (n_world N))"
    and streams: "list_all (admits (peer_env_of opts) P Q) (event_streams ev)"
    and copies: "list_all (\<lambda>(i, u). P (event_of opts now i u)) (event_copies ev)"
    and run: "node_step opts now N ev = Some N'"
  shows "holds P Q (w_channel (n_world N'))"
proof -
  have E: "helpers_ok (e_helpers (peer_env_of opts))" "unat (maxReceiveSize (peer_env_of opts)) < 2 ^ 63"
    using o by (simp_all add: options_ok_def)
  have W: "world_ok (n_world N)" using N(1) by (simp add: node_ok_def)
  show ?thesis
  proof (cases ev)
    case (Served c opened as)
    obtain r N1 where h: "handleConnection opts now N c opened = Some (r, N1)"
      using handleConnection_ok [OF o N(1)] by blast
    then have N1: "n_world N1 = n_world N" using handleConnection_frame by blast
    show ?thesis
    proof (cases r)
      case (Inl e)
      with run Served h N1 N(2) show ?thesis by (simp add: serveConnection_def)
    next
      case (Inr pr)
      obtain t W' where t: "Receive (\<lambda>s. s) (peer_env_of opts) (n_world N) as = Some (t, W')"
        using Receive_ok [OF E W] by blast
      have "holds P Q (w_channel W')" using Receive_holds [OF E W N(2) _ t] streams Served by simp
      with run Served h N1 Inr t show ?thesis
        by (cases t) (auto simp: serveConnection_def cleanup_frame)
    qed
  next
    case (Incoming r op)
    with run streams handleStream_holds [OF W N(2)] show ?thesis by auto
  next
    case (Updated i u)
    with run copies monitor_update_holds [OF N] show ?thesis by auto
  next
    case (TakeMessage st)
    with run monitor_message_holds [OF N(2)] show ?thesis by auto
  next
    case (TakeAnnounce st)
    with run monitor_announce_holds [OF N(2)] show ?thesis by auto
  qed (use run N(2) connects_frame [OF _ run] in simp_all)
qed

lemma node_run_holds:
  assumes o: "options_ok opts" and N: "node_ok N" "holds P Q (w_channel (n_world N))"
    and streams: "list_all (\<lambda>(now, ev). list_all (admits (peer_env_of opts) P Q) (event_streams ev)) evs"
    and copies: "list_all (\<lambda>(now, ev). list_all (\<lambda>(i, u). P (event_of opts now i u)) (event_copies ev)) evs"
    and run: "node_run opts N evs = Some N'"
  shows "node_ok N' \<and> holds P Q (w_channel (n_world N'))"
  using N streams copies run
proof (induction evs arbitrary: N)
  case (Cons e evs)
  obtain now ev where e: "e = (now, ev)" by fastforce
  obtain N1 where N1: "node_step opts now N ev = Some N1" "node_ok N1"
    using node_step_ok [OF o Cons.prems(1)] by blast
  have "holds P Q (w_channel (n_world N1))"
    using node_step_holds [OF o Cons.prems(1,2) _ _ N1(1)] Cons.prems(3,4) e by simp
  with Cons.IH [OF N1(2)] Cons.prems(3-5) e N1(1) show ?case by simp
qed simp

section \<open>What a node answers\<close>

lemma handleStream_reply:
  assumes H: "helpers_ok (e_helpers E)" and new: "o_bytes w0 = []"
    and run: "handleStream E (Inr w0) W r = Some (err, Some w, W')"
  obtains q r' em raw where "DecodeEvent (e_helpers E) (e_AsTime E) r = Some (Inr (EventRequest q), r')"
    and "Get (w_channel W) (r_ID (Payload q)) = Some em" and "m_ID (Payload em) = r_ID (Payload q)"
    and "raw_of (w_fs W) (Payload em) = Some raw" and "W' = W"
    and "prefix (o_bytes w) (event_wire (e_helpers E) (EventMessage em) @ raw_bytes raw)"
proof -
  from run obtain q r' em where d: "DecodeEvent (e_helpers E) (e_AsTime E) r = Some (Inr (EventRequest q), r')"
    and g: "Get (w_channel W) (r_ID (Payload q)) = Some em" and W': "W' = W"
    and h: "handleRequest (e_helpers E) (w_fs W) (Inr w0) em q = Some (err, Some w)"
    by (auto simp: handleStream_def split: option.splits sum.splits any_event.splits)
  from h obtain raw err' where raw: "m_ID (Payload em) = r_ID (Payload q)" "raw_of (w_fs W) (Payload em) = Some raw"
    and wr: "WriteContext (e_helpers E) (Inr w0) (EventMessage em) raw = Some (err', Some w)"
    by (auto simp: handleRequest_def split: if_splits option.splits)
  from that [OF d g raw W' WriteContext_prefix [OF H new wr]] show thesis .
qed

text \<open>The files the clipboard of the node reported.\<close>

definition copied_paths :: "(gotime \<times> node_event) list \<Rightarrow> gostring list" where
  "copied_paths evs =
     map (u_Data \<circ> snd) (filter (\<lambda>(i, u). IsPath (u_MimeType u)) (concat (map (event_copies \<circ> snd) evs)))"

definition known_file :: "node_options \<Rightarrow> (gotime \<times> node_event) list \<Rightarrow> event_message \<Rightarrow> bool" where
  "known_file opts evs em \<longleftrightarrow> \<not> IsPath (m_MimeType (Payload em))
     \<or> m_Data (Payload em) \<in> set (copied_paths evs) \<or> in_store (peer_env_of opts) (m_Data (Payload em))"

lemma copied_pathsI:
  "(now, ev) \<in> set evs \<Longrightarrow> (i, u) \<in> set (event_copies ev) \<Longrightarrow> IsPath (u_MimeType u) \<Longrightarrow> u_Data u \<in> set (copied_paths evs)"
  unfolding copied_paths_def by (force intro!: image_eqI [of _ _ "(i, u)"])

lemma known_file_run:
  assumes o: "options_ok opts" and run: "node_run opts (node_New cap files) evs = Some N"
  shows "node_ok N \<and> holds (known_file opts evs) (\<lambda>_. True) (w_channel (n_world N))"
proof (rule node_run_holds [OF o node_ok_New _ _ _ run])
  show "holds (known_file opts evs) (\<lambda>_. True) (w_channel (n_world (node_New cap files)))"
    using holds_New by (simp add: node_New_def)
  have "admits (peer_env_of opts) (known_file opts evs) (\<lambda>_. True) r" for r
    by (auto simp: admits_def known_file_def payload_from_def split: if_splits)
  then show "list_all (\<lambda>(now, ev). list_all (admits (peer_env_of opts) (known_file opts evs) (\<lambda>_. True)) (event_streams ev)) evs"
    by (simp add: list_all_iff case_prod_beta)
  show "list_all (\<lambda>(now, ev). list_all (\<lambda>(i, u). known_file opts evs (event_of opts now i u)) (event_copies ev)) evs"
    using copied_pathsI by (auto simp: list_all_iff known_file_def)
qed

lemma Get_plain: "channel_ok c \<Longrightarrow> Get c k = Some m \<Longrightarrow> \<not> IsPath (m_MimeType (Payload m)) \<Longrightarrow> m = LastMsg c"
  by (fastforce simp: Get_def LastMsg_def channel_ok_def served_ok_def split: if_splits)

section \<open>Properties\<close>

text \<open>C7. No file leaves a node unless its user copied it or the node itself stored it: whatever happened
  to the node before, whatever bytes its peers sent, and wherever the connection breaks, what it
  answers on a stream is a beginning of one event followed by the contents of a file that its clipboard
  reported or that lies in a directory of its store, or by the last text or picture it has.\<close>

theorem only_copied_files_leave:
  assumes "helpers_ok (helpers_of opts)" and "unat (MaxFileSize (Clip opts)) < 2 ^ 63"
    and "node_run opts (node_New cap files) evs = Some N" and "o_bytes w0 = []"
    and "handleStream (peer_env_of opts) (Inr w0) (n_world N) r = Some (err, Some w, W)"
  shows "\<exists>em bs. prefix (o_bytes w) (event_wire (helpers_of opts) (EventMessage em) @ bs)
    \<and> (if IsPath (m_MimeType (Payload em))
       then (m_Data (Payload em) \<in> set (copied_paths evs) \<or> in_store (peer_env_of opts) (m_Data (Payload em)))
         \<and> (bs = [] \<or> w_fs (n_world N) (m_Data (Payload em)) = Some (File bs))
       else em = LastMsg (w_channel (n_world N)) \<and> bs = m_Data (Payload em))"
proof -
  have N: "node_ok N" "holds (known_file opts evs) (\<lambda>_. True) (w_channel (n_world N))"
    using known_file_run [of opts cap files evs N] assms(1-3) by (simp_all add: options_ok_def)
  have H: "helpers_ok (e_helpers (peer_env_of opts))" using assms(1) by simp
  obtain q :: event_request and em raw where g: "Get (w_channel (n_world N)) (r_ID (Payload q)) = Some em"
    and raw: "raw_of (w_fs (n_world N)) (Payload em) = Some raw"
    and p: "prefix (o_bytes w) (event_wire (helpers_of opts) (EventMessage em) @ raw_bytes raw)"
    by (rule handleStream_reply [OF H assms(4,5)], rule that, assumption, assumption, simp)
  have known: "known_file opts evs em"
    using Get_holds [OF N(2) g] by (auto simp: known_file_def zero_event_message_def zero_message_def IsPath_def)
  have "em = LastMsg (w_channel (n_world N))" if "\<not> IsPath (m_MimeType (Payload em))"
    using Get_plain [OF _ g that] N(1) by (simp add: node_ok_def world_ok_def)
  with p raw known show ?thesis
    by (intro exI [of _ em] exI [of _ "raw_bytes raw"])
      (auto simp: raw_of_def raw_bytes_def known_file_def split: if_splits option.splits file_node.splits)
qed

theorem only_copied_files_leave_witness:
  "\<exists>N w em bs. node_run (sample_opts 1) (node_New 1 [str ''/s/a'' \<mapsto> File [1, 2]])
      [(sample_time, Updated 0x1005 (path_update (str ''/s/a'') 2 4))] = Some N
    \<and> handleStream (peer_env_of (sample_opts 1)) (Inr (open_out 200)) (n_world N)
        \<lparr>r_bytes = event_wire ref_helpers (EventRequest (NewRequest 2 sample_time 0x1005)), r_err = EOF\<rparr> = Some (None, Some w, n_world N)
    \<and> prefix (o_bytes w) (event_wire ref_helpers (EventMessage em) @ bs)
    \<and> (if IsPath (m_MimeType (Payload em))
       then (m_Data (Payload em) \<in> {str ''/s/a''} \<or> in_store (peer_env_of (sample_opts 1)) (m_Data (Payload em)))
         \<and> (bs = [] \<or> w_fs (n_world N) (m_Data (Payload em)) = Some (File bs))
       else em = LastMsg (w_channel (n_world N)) \<and> bs = m_Data (Payload em))"
proof -
  let ?fs = "[str ''/s/a'' \<mapsto> File [1, 2]]" and ?u = "path_update (str ''/s/a'') 2 4"
  let ?N = "node_New 1 ?fs" and ?em = "event_of (sample_opts 1) sample_time 0x1005 ?u"
  let ?req = "NewRequest (MyID (sample_opts 2)) sample_time 0x1005"
  have o: "helpers_of (sample_opts i) = ref_helpers" "e_AsTime (peer_options (sample_opts i)) = ref_AsTime" "MyID (sample_opts i) = i" for i
    by (simp_all add: sample_opts_def)
  have up: "carried 0x1005 ?u"
    by (simp add: carried_def Message_Zero_def messageFromUpdate_def IsPath_def received_mime_def)
  obtain h where "Send (w_channel (n_world ?N)) ?em
      = Some ((w_channel (n_world ?N))\<lparr>lastMsg := ?em, servedFiles := h, msg := [?em]\<rparr>)"
    using Send_new [of "w_channel (n_world ?N)" ?em] channel_ok_New [of 1]
    by (auto simp: node_New_def New_def zero_event_message_def zero_message_def Message_Zero_def)
  moreover have "\<not> Message_Duplicate (messageFromUpdate 0x1005 ?u) (current ?N)"
    by (simp add: node_New_def Message_Duplicate_def zero_message_def)
  ultimately obtain N where N: "node_run (sample_opts 1) ?N [(sample_time, Updated 0x1005 ?u)] = Some N"
    and last: "lastMsg (w_channel (n_world N)) = ?em" and fs: "w_fs (n_world N) = ?fs"
    using up by (auto simp: monitor_update_def Let_def event_of_def carried_def node_New_def)
  have travel: "can_travel (sample_opts 1) (sample_opts 2) sample_time 200 2 0x1005 ?u"
    by (rule sample_travel, code_simp, code_simp)
  have id: "r_ID (Payload ?req) = 0x1005" by (simp add: NewRequest_def NewEvent_def)
  have "Get (w_channel (n_world N)) (r_ID (Payload ?req)) = Some ?em"
    unfolding id by (simp add: Get_def last)
  moreover have "sendable ref_helpers (EventRequest ?req)"
    "length (event_wire ref_helpers (EventMessage ?em)) + length [1 :: byte, 2] \<le> 200"
    using travel unfolding can_travel_def o by simp_all
  ultimately obtain w where w: "handleStream (peer_env_of (sample_opts 1)) (Inr (open_out 200)) (n_world N)
        \<lparr>r_bytes = event_wire ref_helpers (EventRequest ?req), r_err = EOF\<rparr> = Some (None, Some w, n_world N)"
    using handleStream_file_request [of "peer_env_of (sample_opts 1)" ?req "n_world N" ?em "[1, 2]" 200 EOF]
      ref_helpers_ok ref_AsTime_ok fs id by (auto simp: o)
  have cop: "set (copied_paths [(sample_time, Updated 0x1005 ?u)]) = {str ''/s/a''}"
    by (simp add: copied_paths_def IsPath_def)
  have "helpers_ok (helpers_of (sample_opts 1))" "unat (MaxFileSize (Clip (sample_opts 1))) < 2 ^ 63"
    using sample_opts_ok [of 1] unfolding options_ok_def by blast+
  moreover have "o_bytes (open_out 200) = []" by (simp add: open_out_def)
  ultimately show ?thesis
    using only_copied_files_leave [OF _ _ N _ w] N w unfolding cop o by blast
qed

end
