(* ===== verification/Network.thy ===== *)
theory Network
  imports Provenance
begin

text \<open>
  Any number of nodes on a network that may do anything but invent bytes: it delivers any beginning of
  any stream that was ever written, to any node, as often as it likes and in any order, and it breaks
  streams where it likes. Connections, discoveries, timers and clipboards are free as well. The steps
  are those of \<open>Node\<close> and \<open>Peer\<close>; the system adds the streams written so far and the contents copied so far.
\<close>

section \<open>The system\<close>

record system =
  s_node :: "i64 \<Rightarrow> node"
  s_wire :: "byte list list"
  s_copied :: "(mime_type \<times> byte list) list"

definition sys_start :: "nat \<Rightarrow> (i64 \<Rightarrow> fs) \<Rightarrow> system" where
  "sys_start cap files = \<lparr>s_node = (\<lambda>i. node_New cap (files i)), s_wire = [], s_copied = []\<rparr>"

text \<open>What a clipboard reports: only files come in batches, and names and contents have a size.\<close>

definition reportable :: "i64 \<Rightarrow> update \<Rightarrow> bool" where
  "reportable i u \<longleftrightarrow> i \<noteq> 0 \<and> length (m_Name (messageFromUpdate i u)) < 2 ^ 30
     \<and> (if received_mime (u_MimeType u) = TypePath then True else u_BatchID u = 0 \<and> length (u_Data u) < 2 ^ 63)"

text \<open>The content an update stands for: that of the file, or the text or picture itself.\<close>

definition content_of :: "node \<Rightarrow> update \<Rightarrow> byte list" where
  "content_of N u =
     (if IsPath (u_MimeType u) then (case w_fs (n_world N) (u_Data u) of Some (File c) \<Rightarrow> c | _ \<Rightarrow> []) else u_Data u)"

definition copied :: "node \<Rightarrow> update \<Rightarrow> mime_type \<times> byte list" where
  "copied N u = (received_mime (u_MimeType u), content_of N u)"

definition fresh :: "io_error + out \<Rightarrow> bool" where
  "fresh op = (case op of Inl _ \<Rightarrow> True | Inr w \<Rightarrow> o_bytes w = [])"

definition written_bytes :: "out option \<Rightarrow> byte list list" where
  "written_bytes w = (case w of None \<Rightarrow> [] | Some w' \<Rightarrow> [o_bytes w'])"

inductive sys_step :: "(i64 \<Rightarrow> node_options) \<Rightarrow> system \<Rightarrow> system \<Rightarrow> bool" for opts where
  Connects: "connects ev \<Longrightarrow> node_step (opts i) now (s_node S i) ev = Some N \<Longrightarrow>
     sys_step opts S (S\<lparr>s_node := (s_node S)(i := N)\<rparr>)"
| Copies: "reportable j u \<Longrightarrow> stampable (helpers_of (opts i)) now \<Longrightarrow> monitor_update (opts i) j now (s_node S i) u = Some N \<Longrightarrow>
     sys_step opts S (S\<lparr>s_node := (s_node S)(i := N), s_copied := copied (s_node S i) u # s_copied S\<rparr>)"
| Takes: "(\<And>c. fresh (streams c)) \<Longrightarrow> monitor_message (opts i) streams (s_node S i) = Some (sent, N) \<Longrightarrow>
     sys_step opts S (S\<lparr>s_node := (s_node S)(i := N), s_wire := map (o_bytes \<circ> snd) sent @ s_wire S\<rparr>)"
| Requests: "(\<And>c. fresh (streams c)) \<Longrightarrow> stampable (helpers_of (opts i)) now \<Longrightarrow>
     monitor_announce (opts i) streams now (s_node S i) = Some (w, N) \<Longrightarrow>
     sys_step opts S (S\<lparr>s_node := (s_node S)(i := N), s_wire := written_bytes w @ s_wire S\<rparr>)"
| Receives: "b \<in> set (s_wire S) \<Longrightarrow> fresh op \<Longrightarrow>
     handleStream (peer_env_of (opts i)) op (n_world (s_node S i)) \<lparr>r_bytes = take k b, r_err = e\<rparr> = Some (err, w, W) \<Longrightarrow>
     sys_step opts S (S\<lparr>s_node := (s_node S)(i := (s_node S i)\<lparr>n_world := W\<rparr>), s_wire := written_bytes w @ s_wire S\<rparr>)"

text \<open>Nodes that run the same protocol, and whose stores have no files in the beginning.\<close>

definition network_ok :: "helpers \<Rightarrow> (i64 \<Rightarrow> node_options) \<Rightarrow> bool" where
  "network_ok H opts \<longleftrightarrow>
     (\<forall>i. options_ok (opts i) \<and> helpers_of (opts i) = H \<and> as_time_ok (e_AsTime (peer_options (opts i))))"

definition clean_start :: "(i64 \<Rightarrow> node_options) \<Rightarrow> (i64 \<Rightarrow> fs) \<Rightarrow> bool" where
  "clean_start opts files \<longleftrightarrow> (\<forall>i p c. in_store (peer_env_of (opts i)) p \<longrightarrow> files i p \<noteq> Some (File c))"

section \<open>Genuine messages and streams\<close>

text \<open>
  Content that was copied somewhere: a text or a picture as a whole, of a file a beginning (it may have
  changed since, and streams are cut).
\<close>

definition derived :: "(mime_type \<times> byte list) list \<Rightarrow> byte list \<Rightarrow> bool" where
  "derived C c \<longleftrightarrow> (\<exists>c0. (TypePath, c0) \<in> set C \<and> prefix c c0)"

definition header_ok :: "helpers \<Rightarrow> event_message \<Rightarrow> bool" where
  "header_ok H em \<longleftrightarrow>
     m_ID (Payload em) \<noteq> 0 \<and> stampable H (Created em) \<and> length (m_Name (Payload em)) < 2 ^ 30"

definition content_ok :: "(mime_type \<times> byte list) list \<Rightarrow> event_message \<Rightarrow> byte list \<Rightarrow> bool" where
  "content_ok C em bs \<longleftrightarrow>
     (if received_mime (m_MimeType (Payload em)) = TypePath then derived C bs
      else m_BatchID (Payload em) = 0 \<and> unat (m_ContentLength (Payload em)) = length bs
        \<and> (received_mime (m_MimeType (Payload em)), bs) \<in> set C)"

text \<open>A message of a node with files \<open>fs\<close>: whatever is sent for it was copied.\<close>

definition genuine :: "helpers \<Rightarrow> (mime_type \<times> byte list) list \<Rightarrow> fs \<Rightarrow> event_message \<Rightarrow> bool" where
  "genuine H C fs em \<longleftrightarrow> header_ok H em
     \<and> (if received_mime (m_MimeType (Payload em)) = TypePath
        then derived C [] \<and> (\<forall>c. raw_of fs (Payload em) = Some (RawBytes c) \<longrightarrow> derived C c)
        else content_ok C em (m_Data (Payload em)))"

definition genuine_ann :: "helpers \<Rightarrow> event_announce \<Rightarrow> bool" where
  "genuine_ann H an \<longleftrightarrow> a_ID (Payload an) \<noteq> 0 \<and> stampable H (Created an)"

fun genuine_event :: "helpers \<Rightarrow> (mime_type \<times> byte list) list \<Rightarrow> any_event \<Rightarrow> byte list \<Rightarrow> bool" where
  "genuine_event H C (EventMessage em) raw = (header_ok H em \<and> content_ok C em raw)"
| "genuine_event H C (EventAnnounce an) raw = (genuine_ann H an \<and> raw = [])"
| "genuine_event H C (EventRequest q) raw = (r_ID (Payload q) \<noteq> 0 \<and> stampable H (Created q) \<and> raw = [])"
| "genuine_event H C (EventHandshake h) raw = False"

definition genuine_stream :: "helpers \<Rightarrow> (mime_type \<times> byte list) list \<Rightarrow> byte list \<Rightarrow> bool" where
  "genuine_stream H C b \<longleftrightarrow> (\<exists>ev raw. genuine_event H C ev raw \<and> prefix b (event_wire H ev @ raw))"

lemma received_mime_idem [simp]: "received_mime (received_mime t) = received_mime t"
  by (cases t) (simp_all add: received_mime_def)

lemma received_path [simp]: "received_mime TypePath = TypePath"
  by (simp add: received_mime_def)

lemma not_path: "received_mime t \<noteq> TypePath \<Longrightarrow> t \<noteq> TypePath"
  by (auto simp: received_mime_def)

lemma derived_mono: "derived C c \<Longrightarrow> set C \<subseteq> set C' \<Longrightarrow> derived C' c"
  by (auto simp: derived_def)

lemma derived_prefix: "derived C c \<Longrightarrow> prefix b c \<Longrightarrow> derived C b"
  unfolding derived_def by (meson prefix_order.trans)

lemma content_ok_mono: "content_ok C em bs \<Longrightarrow> set C \<subseteq> set C' \<Longrightarrow> content_ok C' em bs"
  by (auto simp: content_ok_def intro: derived_mono)

lemma genuine_mono: "genuine H C fs em \<Longrightarrow> set C \<subseteq> set C' \<Longrightarrow> genuine H C' fs em"
  by (auto simp: genuine_def intro: derived_mono content_ok_mono)

text \<open>It stays genuine when the files change to copied content only.\<close>

lemma genuine_fs:
  assumes "genuine H C fs em" and "\<And>p c. fs' p = Some (File c) \<Longrightarrow> fs p = Some (File c) \<or> derived C c"
  shows "genuine H C fs' em"
proof -
  have "derived C c" if "received_mime (m_MimeType (Payload em)) = TypePath" "raw_of fs' (Payload em) = Some (RawBytes c)" for c
  proof (cases "IsPath (m_MimeType (Payload em))")
    case True
    with that(2) have "fs' (m_Data (Payload em)) = Some (File c)"
      by (auto simp: raw_of_def split: option.splits file_node.splits)
    from assms(2) [OF this] True have "raw_of fs (Payload em) = Some (RawBytes c) \<or> derived C c"
      by (elim disjE) (simp_all add: raw_of_def)
    with assms(1) that(1) show ?thesis by (auto simp: genuine_def)
  next
    case False
    with that(2) have "raw_of fs (Payload em) = Some (RawBytes c)" by (simp add: raw_of_def)
    with assms(1) that(1) show ?thesis by (auto simp: genuine_def)
  qed
  with assms(1) show ?thesis by (simp add: genuine_def)
qed

lemma genuine_sends:
  assumes "genuine H C fs em" and "raw_of fs (Payload em) = Some raw"
  shows "genuine_event H C (EventMessage em) (raw_bytes raw)"
proof (cases "received_mime (m_MimeType (Payload em)) = TypePath")
  case True
  with assms show ?thesis by (cases raw) (auto simp: genuine_def content_ok_def raw_bytes_def)
next
  case False
  with assms(2) have "raw = RawBytes (m_Data (Payload em))"
    using not_path by (auto simp: raw_of_def IsPath_def)
  with assms(1) False show ?thesis by (simp add: genuine_def raw_bytes_def)
qed

lemma genuine_stream_mono: "genuine_stream H C b \<Longrightarrow> set C \<subseteq> set C' \<Longrightarrow> genuine_stream H C' b"
proof -
  assume "genuine_stream H C b" and C: "set C \<subseteq> set C'"
  then obtain ev raw where ev: "genuine_event H C ev raw" and p: "prefix b (event_wire H ev @ raw)"
    unfolding genuine_stream_def by blast
  have "genuine_event H C' ev raw"
    using ev content_ok_mono [OF _ C] by (cases ev) auto
  with p show ?thesis unfolding genuine_stream_def by blast
qed

lemma genuine_stream_take: "genuine_stream H C b \<Longrightarrow> genuine_stream H C (take k b)"
  unfolding genuine_stream_def by (meson prefix_order.trans take_is_prefix)

lemma genuine_sendable: "helpers_ok H \<Longrightarrow> genuine_event H C ev raw \<Longrightarrow> sendable H ev"
  by (cases ev) (auto intro!: event_fits simp: header_ok_def genuine_ann_def)

text \<open>What is left of a genuine stream either makes no event or the one that was sent.\<close>

lemma genuine_decode:
  assumes H: "helpers_ok H" "as_time_ok A" and b: "genuine_stream H C b"
  obtains (refused) e' r' where "DecodeEvent H A \<lparr>r_bytes = b, r_err = e\<rparr> = Some (Inl e', r')"
  | (decoded) ev raw bs where "genuine_event H C ev raw" and "prefix bs raw"
      and "DecodeEvent H A \<lparr>r_bytes = b, r_err = e\<rparr> = Some (Inr (received ev), \<lparr>r_bytes = bs, r_err = e\<rparr>)"
proof -
  obtain ev raw where ev: "genuine_event H C ev raw" and p: "prefix b (event_wire H ev @ raw)"
    using b by (auto simp: genuine_stream_def)
  note s = genuine_sendable [OF H(1) ev]
  from p consider (cut) "strict_prefix b (event_wire H ev)" | (whole) bs where "b = event_wire H ev @ bs" "prefix bs raw"
    by (metis prefix_append prefix_order.le_imp_less_or_eq append_Nil2 prefix_bot.extremum)
  then show thesis
  proof cases
    case cut
    with DecodeEvent_cut [OF H(1) s cut, where A = A and e = e] show ?thesis by (auto intro: refused)
  next
    case whole
    with DecodeEvent_wire [OF H s, of bs e] ev show ?thesis by (auto intro: decoded)
  qed
qed

text \<open>So it puts nothing else into a channel or a file, and asks for nothing else.\<close>

definition tidy :: "fs \<Rightarrow> peer_env \<Rightarrow> (mime_type \<times> byte list) list \<Rightarrow> fs \<Rightarrow> bool" where
  "tidy files E C fs \<longleftrightarrow> (\<forall>p c. fs p = Some (File c) \<longrightarrow> derived C c \<or> (files p = Some (File c) \<and> \<not> in_store E p))"

lemma tidy_mono: "tidy files E C fs \<Longrightarrow> set C \<subseteq> set C' \<Longrightarrow> tidy files E C' fs"
  unfolding tidy_def using derived_mono by blast

lemma genuine_payload:
  assumes em: "header_ok H em" "content_ok C em raw" and bs: "prefix bs raw" and fs: "tidy files E C fs"
    and d: "payload_from E (Payload em') bs d"
    and em': "em' = em\<lparr>From := f, Payload := (Payload em)\<lparr>m_Data := [], m_MimeType := received_mime (m_MimeType (Payload em))\<rparr>\<rparr>"
  shows "genuine H C fs (em'\<lparr>Payload := (Payload em')\<lparr>m_Data := d\<rparr>\<rparr>)"
proof (cases "received_mime (m_MimeType (Payload em)) = TypePath")
  case True
  then have raw: "derived C raw" "in_store E d" using em(2) d em' by (simp_all add: content_ok_def payload_from_def IsPath_def)
  have "derived C c" if "fs d = Some (File c)" for c using fs that raw(2) by (auto simp: tidy_def)
  moreover have "derived C []" using derived_prefix [OF raw(1)] by simp
  ultimately show ?thesis
    using True em(1) em'
    by (auto simp: genuine_def header_ok_def raw_of_def IsPath_def split: option.splits file_node.splits)
next
  case False
  then have c: "m_BatchID (Payload em) = 0" "unat (m_ContentLength (Payload em)) = length raw"
    "(received_mime (m_MimeType (Payload em)), raw) \<in> set C" using em(2) by (simp_all add: content_ok_def)
  have "d = raw" using bs d False c(2) em' by (auto simp: payload_from_def prefix_def IsPath_def)
  with c em(1) em' False show ?thesis by (simp add: genuine_def content_ok_def header_ok_def)
qed

lemma genuine_admitted:
  assumes H: "helpers_ok H" "e_helpers E = H" and A: "as_time_ok (e_AsTime E)" and b: "genuine_stream H C b"
    and fs: "tidy files E C fs"
  shows "admits E (genuine H C fs) (genuine_ann H) \<lparr>r_bytes = b, r_err = e\<rparr>"
  using H(1) A b
proof (cases rule: genuine_decode [where e = e])
  case (decoded ev raw bs)
  then show ?thesis
  proof (cases ev)
    case (EventMessage em)
    have g: "header_ok H em" "content_ok C em raw" using decoded(1) EventMessage by auto
    from decoded(3) EventMessage genuine_payload [OF g decoded(2) fs _ refl] H(2) show ?thesis
      by (auto simp: admits_def)
  qed (use H(2) in \<open>auto simp: admits_def genuine_ann_def\<close>)
qed (use H(2) in \<open>auto simp: admits_def\<close>)

lemma genuine_files:
  assumes H: "helpers_ok H" "e_helpers E = H" and A: "as_time_ok (e_AsTime E)" and b: "genuine_stream H C b"
    and run: "handleStream E op W \<lparr>r_bytes = b, r_err = e\<rparr> = Some (err, w, W')" and c: "w_fs W' p = Some (File c)"
  shows "w_fs W p = Some (File c) \<or> derived C c"
proof (rule ccontr)
  assume n: "\<not> ?thesis"
  obtain em r' where d: "DecodeEvent H (e_AsTime E) \<lparr>r_bytes = b, r_err = e\<rparr> = Some (Inr (EventMessage em), r')"
    and em: "IsPath (m_MimeType (Payload em))" "prefix c (r_bytes r')"
    using handleStream_files [OF run c] n H(2) by blast
  from H(1) A b show False
  proof (cases rule: genuine_decode [where e = e])
    case (decoded ev raw bs)
    with d em n show False using derived_prefix [OF _ prefix_order.trans]
      by (cases ev) (auto simp: content_ok_def IsPath_def dest: derived_prefix)
  qed (use d in simp)
qed

lemma genuine_request:
  assumes "helpers_ok H" and "as_time_ok A" and "genuine_stream H C b"
    and "DecodeEvent H A \<lparr>r_bytes = b, r_err = e\<rparr> = Some (Inr (EventRequest q), r')"
  shows "r_ID (Payload q) \<noteq> 0"
  using assms(1-3)
proof (cases rule: genuine_decode [where e = e])
  case (decoded ev raw bs)
  with assms(4) show ?thesis by (cases ev) auto
qed (use assms(4) in simp)

section \<open>Steps of one node\<close>

text \<open>
  What a node holds, has stored and has written to its clipboard, when its network is genuine; \<open>files\<close> are
  the files it had in the beginning.
\<close>

definition honest :: "node_options \<Rightarrow> fs \<Rightarrow> (mime_type \<times> byte list) list \<Rightarrow> node \<Rightarrow> bool" where
  "honest opts files C N \<longleftrightarrow> node_ok N \<and> tidy files (peer_env_of opts) C (w_fs (n_world N))
     \<and> holds (genuine (helpers_of opts) C (w_fs (n_world N))) (genuine_ann (helpers_of opts)) (w_channel (n_world N))
     \<and> list_all (\<lambda>(t, d). received_mime t = TypePath \<or> (received_mime t, d) \<in> set C) (written N)"

lemma honest_mono: "honest opts files C N \<Longrightarrow> set C \<subseteq> set C' \<Longrightarrow> honest opts files C' N"
  by (auto simp: honest_def list_all_iff intro: holds_mono genuine_mono tidy_mono)

text \<open>A step that keeps the files.\<close>

lemma honest_step:
  assumes "honest opts files C N" and "node_ok N'" and "w_fs (n_world N') = w_fs (n_world N)" and "written N' = written N"
    and "holds (genuine (helpers_of opts) C (w_fs (n_world N))) (genuine_ann (helpers_of opts)) (w_channel (n_world N'))"
  shows "honest opts files C N'"
  using assms by (simp add: honest_def)

lemma announce_genuine:
  "genuine H C fs em \<Longrightarrow> genuine_event H C (EventAnnounce (announce_of em)) []"
  by (simp add: genuine_def header_ok_def genuine_ann_def Message_Announce_def)

lemma WriteContext_genuine:
  assumes H: "helpers_ok H" and f: "fresh op" and ev: "genuine_event H C ev (raw_bytes raw)"
    and run: "WriteContext H op ev raw = Some (err, w)"
  shows "list_all (genuine_stream H C) (written_bytes w)"
proof (cases op)
  case (Inr w0)
  show ?thesis
  proof (cases w)
    case (Some w')
    have "prefix (o_bytes w') (event_wire H ev @ raw_bytes raw)"
      using WriteContext_prefix [OF H, of w0 ev raw err w'] f run Inr Some by (simp add: fresh_def)
    with ev Some show ?thesis by (auto simp: written_bytes_def genuine_stream_def)
  qed (simp add: written_bytes_def)
qed (use run in \<open>simp add: WriteContext_def written_bytes_def split: prod.splits\<close>)

lemma broadcast_to_genuine:
  assumes H: "helpers_ok H" and f: "\<And>c. fresh (streams c)" and an: "genuine_event H C (EventAnnounce an) []"
  shows "list_all (genuine_stream H C) (map (o_bytes \<circ> snd) sent) \<Longrightarrow>
    range_map m (broadcast_to H streams an) (Some (ps, sent)) = Some (ps', sent') \<Longrightarrow>
    list_all (genuine_stream H C) (map (o_bytes \<circ> snd) sent')"
proof (induction m arbitrary: ps sent)
  case (Cons e m)
  obtain k p where e: "e = (k, p)" by fastforce
  obtain err w where w: "WriteContext H (streams (conn p)) (EventAnnounce an) NoRaw = Some (err, w)"
    using WriteContext_returns [OF H, of "streams (conn p)" "EventAnnounce an" NoRaw] by auto
  have "list_all (genuine_stream H C) (written_bytes w)"
    using WriteContext_genuine [OF H f _ w] an by (simp add: raw_bytes_def)
  moreover define ps1 where "ps1 = (if k = From an then ps else case err of None \<Rightarrow> ps | Some _ \<Rightarrow> sm_Delete ps (d_ID (metaData p)))"
  moreover define sent1 where "sent1 = (if k = From an then sent else case w of None \<Rightarrow> sent | Some w' \<Rightarrow> sent @ [(k, w')])"
  ultimately have "list_all (genuine_stream H C) (map (o_bytes \<circ> snd) sent1)"
    using Cons.prems(1) by (cases w) (simp_all add: written_bytes_def comp_def)
  moreover have "broadcast_to H streams an k p (Some (ps, sent)) = (True, Some (ps1, sent1))"
    using w by (simp add: broadcast_to_def ps1_def sent1_def)
  ultimately show ?case using Cons.IH [of sent1 ps1] Cons.prems(2) e by (simp add: comp_def)
qed simp

lemma monitor_write_honest:
  assumes N: "honest opts files C N" and m: "genuine (helpers_of opts) C (w_fs (n_world N)) m"
  shows "honest opts files C (monitor_write opts N m)"
proof -
  have m: "received_mime (m_MimeType (Payload m)) = TypePath
      \<or> m_BatchID (Payload m) = 0 \<and> (received_mime (m_MimeType (Payload m)), m_Data (Payload m)) \<in> set C"
    using m by (simp add: genuine_def content_ok_def split: if_splits)
  then have "list_all (\<lambda>(t, d). received_mime t = TypePath \<or> (received_mime t, d) \<in> set C) (written (monitor_write opts N m))"
    using N by (auto simp: honest_def monitor_write_def Let_def case_prod_beta)
  then show ?thesis using N monitor_write_ok by (simp add: honest_def)
qed

lemma Takes_honest:
  assumes o: "options_ok opts" and N: "honest opts files C N" and f: "\<And>c. fresh (streams c)"
    and run: "monitor_message opts streams N = Some (sent, N')"
  shows "honest opts files C N' \<and> list_all (genuine_stream (helpers_of opts) C) (map (o_bytes \<circ> snd) sent)"
proof (cases "Messages (w_channel (n_world N))")
  case None
  with run N show ?thesis by (auto simp: monitor_message_def)
next
  case (Some x)
  obtain m c where x: "x = (m, c)" by fastforce
  let ?H = "helpers_of opts" and ?N0 = "N\<lparr>n_world := (n_world N)\<lparr>w_channel := c\<rparr>\<rparr>" and ?fs = "w_fs (n_world N)"
  have H: "helpers_ok ?H" using o by (simp add: options_ok_def)
  have m: "genuine ?H C ?fs m" "holds (genuine ?H C ?fs) (genuine_ann ?H) c"
    using Messages_holds [of "genuine ?H C ?fs" "genuine_ann ?H"] N Some x by (auto simp: honest_def)
  have "node_ok ?N0"
    using node_ok_channel [of N c] Messages_ok [of "w_channel (n_world N)" m c] N Some x
    by (auto simp: honest_def node_ok_def world_ok_def)
  then have N0: "honest opts files C ?N0" using N m(2) by (simp add: honest_def)
  have N1: "honest opts files C (monitor_write opts ?N0 m)" by (rule monitor_write_honest [OF N0]) (simp add: m(1))
  obtain ps where b: "Broadcast ?H streams (peers (monitor_write opts ?N0 m)) (announce_of m) = Some (ps, sent)"
    and N': "N' = (monitor_write opts ?N0 m)\<lparr>peers := ps\<rparr>"
    using run Some x by (auto simp: monitor_message_def Let_def announce_of_def split: option.splits)
  have "node_ok N'" using monitor_message_ok [OF o, of N streams] N run by (auto simp: honest_def)
  then have "honest opts files C N'" using N1 N' by (simp add: honest_def)
  moreover have "list_all (genuine_stream ?H C) (map (o_bytes \<circ> snd) sent)"
    using broadcast_to_genuine [OF H f announce_genuine [OF m(1)], of "[]"] b
    by (simp add: Broadcast_def sm_Tap_def)
  ultimately show ?thesis ..
qed

lemma handleAnnounce_sends:
  assumes "handleAnnounce opts streams now N an = Some (Some w, N')"
  shows "\<exists>cn err. RequestMessage (helpers_of opts) (streams cn) (MyID opts) now (a_ID (Payload an)) = Some (err, Some w)"
proof (cases "sm_Get (peers N) (From an)")
  case (Some p)
  show ?thesis
  proof (cases "RequestMessage (helpers_of opts) (streams (conn p)) (MyID opts) now (a_ID (Payload an))")
    case (Some r)
    with assms \<open>sm_Get (peers N) (From an) = Some p\<close> obtain err where "r = (err, Some w)"
      by (cases r) (auto simp: handleAnnounce_def split: if_splits)
    with Some show ?thesis by blast
  qed (use assms Some in \<open>simp add: handleAnnounce_def split: if_splits\<close>)
qed (use assms in \<open>simp add: handleAnnounce_def\<close>)

lemma Requests_honest:
  assumes o: "options_ok opts" and N: "honest opts files C N" and f: "\<And>c. fresh (streams c)"
    and t: "stampable (helpers_of opts) now"
    and run: "monitor_announce opts streams now N = Some (w, N')"
  shows "honest opts files C N' \<and> list_all (genuine_stream (helpers_of opts) C) (written_bytes w)"
proof
  let ?H = "helpers_of opts"
  have H: "helpers_ok ?H" using o by (simp add: options_ok_def)
  have c: "holds (genuine ?H C (w_fs (n_world N))) (genuine_ann ?H) (w_channel (n_world N))" using N by (simp add: honest_def)
  have "node_ok N'" using monitor_announce_ok [OF o, of N streams now] N run by (auto simp: honest_def)
  then show "honest opts files C N'"
    using honest_step [OF N] monitor_announce_holds [OF c run] by simp
  show "list_all (genuine_stream ?H C) (written_bytes w)"
  proof (cases w)
    case (Some w')
    obtain an c where an: "Announcements (w_channel (n_world N)) = Some (an, c)"
      using run Some by (cases "Announcements (w_channel (n_world N))") (auto simp: monitor_announce_def)
    then have h: "handleAnnounce opts streams now (N\<lparr>n_world := (n_world N)\<lparr>w_channel := c\<rparr>\<rparr>) an = Some (Some w', N')"
      using run Some by (simp add: monitor_announce_def)
    obtain cn err where req: "RequestMessage ?H (streams cn) (MyID opts) now (a_ID (Payload an)) = Some (err, Some w')"
      using handleAnnounce_sends [OF h] by (elim exE) (rule that)
    have "a_ID (Payload an) \<noteq> 0"
      using Announcements_holds [OF c an] by (simp add: genuine_ann_def)
    with t have "genuine_event ?H C (EventRequest (NewRequest (MyID opts) now (a_ID (Payload an)))) (raw_bytes NoRaw)"
      by (simp add: NewRequest_def NewEvent_def raw_bytes_def)
    from WriteContext_genuine [OF H f this req [unfolded RequestMessage_def]] Some show ?thesis by simp
  qed (simp add: written_bytes_def)
qed

lemma copied_genuine:
  assumes u: "reportable j u" and t: "stampable H now"
  shows "genuine H (copied N u # C) (w_fs (n_world N)) (event_of opts now j u)"
proof -
  have h: "header_ok H (event_of opts now j u)"
    using u t by (simp add: header_ok_def reportable_def event_of_def Message_Event_def)
  show ?thesis
  proof (cases "received_mime (u_MimeType u) = TypePath")
    case True
    have "derived (copied N u # C) (content_of N u)" using True by (auto simp: derived_def copied_def)
    moreover from derived_prefix [OF this] have "derived (copied N u # C) []" by simp
    ultimately show ?thesis
      using True h by (auto simp: genuine_def raw_of_def content_of_def split: if_splits option.splits file_node.splits)
  next
    case False
    then have "\<not> IsPath (u_MimeType u)" using not_path by (simp add: IsPath_def)
    with False h u show ?thesis
      by (simp add: genuine_def content_ok_def copied_def content_of_def reportable_def messageFromUpdate_def
          unsigned_of_nat take_bit_nat_eq_self)
  qed
qed

lemma Copies_honest:
  assumes N: "honest opts files C N" and u: "reportable j u" and t: "stampable (helpers_of opts) now"
    and run: "monitor_update opts j now N u = Some N'"
  shows "honest opts files (copied N u # C) N'"
proof -
  have N1: "honest opts files (copied N u # C) N" by (rule honest_mono [OF N]) auto
  have "node_ok N" using N by (simp add: honest_def)
  then have "node_ok N'" using monitor_update_ok [of N opts j now u] run by auto
  moreover have "holds (genuine (helpers_of opts) (copied N u # C) (w_fs (n_world N))) (genuine_ann (helpers_of opts)) (w_channel (n_world N))"
    using N1 by (simp add: honest_def)
  note monitor_update_holds [OF \<open>node_ok N\<close> this copied_genuine [OF u t] run]
  ultimately show ?thesis using honest_step [OF N1] by simp
qed

lemma Receives_honest:
  assumes o: "options_ok opts" "as_time_ok (e_AsTime (peer_options opts))"
    and N: "honest opts files C N" and f: "fresh op" and b: "genuine_stream (helpers_of opts) C b"
    and run: "handleStream (peer_env_of opts) op (n_world N) \<lparr>r_bytes = b, r_err = e\<rparr> = Some (err, w, W)"
  shows "honest opts files C (N\<lparr>n_world := W\<rparr>) \<and> list_all (genuine_stream (helpers_of opts) C) (written_bytes w)"
proof
  let ?H = "helpers_of opts" and ?E = "peer_env_of opts" and ?r = "\<lparr>r_bytes = b, r_err = e\<rparr>"
  have H: "helpers_ok ?H" and max: "unat (maxReceiveSize ?E) < 2 ^ 63" using o(1) by (simp_all add: options_ok_def)
  have W: "world_ok (n_world N)" "holds (genuine ?H C (w_fs (n_world N))) (genuine_ann ?H) (w_channel (n_world N))"
    using N by (simp_all add: honest_def node_ok_def)
  have new: "w_fs (n_world N) p = Some (File c) \<or> derived C c" if "w_fs W p = Some (File c)" for p c
    by (rule genuine_files [OF H _ _ b run that]) (use o(2) in simp_all)
  have fs: "tidy files ?E C (w_fs W)"
    using N new unfolding honest_def tidy_def by blast
  have W1: "holds (genuine ?H C (w_fs W)) (genuine_ann ?H) (w_channel (n_world N))"
    by (rule holds_mono [OF W(2)]) (use genuine_fs new in blast)
  have adm: "admits ?E (genuine ?H C (w_fs W)) (genuine_ann ?H) ?r"
    by (rule genuine_admitted [OF H _ _ b fs]) (use o(2) in simp_all)
  have "world_ok W" using handleStream_ok [of ?E "n_world N" op ?r] H max W(1) run by auto
  then have "node_ok (N\<lparr>n_world := W\<rparr>)" using N by (simp add: honest_def node_ok_def)
  with handleStream_holds [OF W(1) W1 adm run] fs N show "honest opts files C (N\<lparr>n_world := W\<rparr>)" by (simp add: honest_def)
  show "list_all (genuine_stream ?H C) (written_bytes w)"
  proof (cases w)
    case (Some w')
    obtain w0 where w0: "op = Inr w0" "o_bytes w0 = []"
      using run f Some by (cases op) (auto simp: fresh_def handleStream_def handleRequest_def WriteContext_def
        split: option.splits sum.splits any_event.splits if_splits)
    have E: "helpers_ok (e_helpers ?E)" using H by simp
    obtain q :: event_request and r' em raw where d: "DecodeEvent (e_helpers ?E) (e_AsTime ?E) ?r = Some (Inr (EventRequest q), r')"
      and g: "Get (w_channel (n_world N)) (r_ID (Payload q)) = Some em" and i: "m_ID (Payload em) = r_ID (Payload q)"
      and raw: "raw_of (w_fs (n_world N)) (Payload em) = Some raw"
      and p: "prefix (o_bytes w') (event_wire ?H (EventMessage em) @ raw_bytes raw)"
      by (rule handleStream_reply [OF E w0(2) run [unfolded w0(1) Some]], rule that, assumption+, simp)
    have "r_ID (Payload q) \<noteq> 0"
      using genuine_request [OF H o(2) b] d by simp
    with i Get_holds [OF W(2) g] have em: "genuine ?H C (w_fs (n_world N)) em"
      by (auto simp: zero_event_message_def zero_message_def)
    note genuine_sends [OF em raw]
    with p have "genuine_stream ?H C (o_bytes w')" unfolding genuine_stream_def by blast
    with Some show ?thesis by (simp add: written_bytes_def)
  qed (simp add: written_bytes_def)
qed

section \<open>Runs of the system\<close>

definition sys_ok :: "helpers \<Rightarrow> (i64 \<Rightarrow> node_options) \<Rightarrow> (i64 \<Rightarrow> fs) \<Rightarrow> system \<Rightarrow> bool" where
  "sys_ok H opts files S \<longleftrightarrow> (\<forall>i. honest (opts i) (files i) (s_copied S) (s_node S i))
     \<and> list_all (genuine_stream H (s_copied S)) (s_wire S)"

lemma sys_ok_start:
  assumes "clean_start opts files"
  shows "sys_ok H opts files (sys_start cap files)"
proof -
  have "honest (opts i) (files i) [] (node_New cap (files i))" for i
    using node_ok_New [of cap "files i"] holds_New assms
    by (auto simp: honest_def clean_start_def tidy_def node_New_def)
  then show ?thesis by (simp add: sys_ok_def sys_start_def)
qed

lemma sys_ok_node:
  assumes S: "sys_ok H opts files S" and N: "honest (opts i) (files i) (s_copied S) N"
    and w: "list_all (genuine_stream H (s_copied S)) bs"
  shows "sys_ok H opts files (S\<lparr>s_node := (s_node S)(i := N), s_wire := bs @ s_wire S\<rparr>)"
  using assms by (simp add: sys_ok_def)

lemma sys_step_ok:
  assumes net: "network_ok H opts" and S: "sys_ok H opts files S" and step: "sys_step opts S S'"
  shows "sys_ok H opts files S'"
proof -
  have o: "options_ok (opts i)" "helpers_of (opts i) = H" "as_time_ok (e_AsTime (peer_options (opts i)))" for i
    using net by (simp_all add: network_ok_def)
  have old: "honest (opts i) (files i) (s_copied S) (s_node S i)" for i using S by (simp add: sys_ok_def)
  from step show ?thesis
  proof cases
    case (Connects ev i now N)
    have "node_ok N" using node_step_ok [OF o(1), of "s_node S i" i now ev] old [of i] Connects(3) by (auto simp: honest_def)
    then have "honest (opts i) (files i) (s_copied S) N"
      using honest_step [OF old] connects_frame [OF Connects(2,3)] old [of i] by (simp add: honest_def)
    with S Connects(1) show ?thesis by (simp add: sys_ok_def)
  next
    case (Copies j u i now N)
    let ?C = "copied (s_node S i) u # s_copied S"
    have "honest (opts i) (files i) ?C N" by (rule Copies_honest [OF old Copies(2,3,4)])
    moreover have "honest (opts k) (files k) ?C (s_node S k)" for k
      by (rule honest_mono [OF old]) auto
    moreover have "list_all (genuine_stream H ?C) (s_wire S)"
      using S genuine_stream_mono [of H "s_copied S" _ ?C] by (auto simp: sys_ok_def list_all_iff)
    ultimately show ?thesis using Copies(1) by (simp add: sys_ok_def)
  next
    case (Takes streams i sent N)
    from Takes_honest [OF o(1) old Takes(2,3)] sys_ok_node [OF S] Takes(1) o(2) show ?thesis by auto
  next
    case (Requests streams i now w N)
    from Requests_honest [OF o(1) old Requests(2,3,4)] sys_ok_node [OF S] Requests(1) o(2) show ?thesis by auto
  next
    case (Receives b op i k e err w W)
    have "genuine_stream (helpers_of (opts i)) (s_copied S) (take k b)"
      using S Receives(2) o(2) by (intro genuine_stream_take) (auto simp: sys_ok_def list_all_iff)
    from Receives_honest [OF o(1,3) old Receives(3) this Receives(4)] sys_ok_node [OF S] Receives(1) o(2) show ?thesis by auto
  qed
qed

lemma sys_run_ok:
  assumes "network_ok H opts" and "(sys_step opts)\<^sup>*\<^sup>* S S'" and "sys_ok H opts files S"
  shows "sys_ok H opts files S'"
  using assms(2,3) by (induction rule: rtranclp_induct) (auto intro: sys_step_ok [OF assms(1)])

section \<open>A copy in the system\<close>

text \<open>The exchange of \<open>copy_once\<close> is a run of the system.\<close>

lemma fresh_open [simp]: "fresh (Inr (open_out n))"
  by (simp add: fresh_def open_out_def)

lemma copy_once_run:
  assumes ik: "i \<noteq> k" and u: "reportable j u" and t: "stampable (helpers_of (opts i)) now" "stampable (helpers_of (opts k)) now"
    and c: "copy_once (opts i) (opts k) n now j u (s_node S i) (s_node S k) = Some (NA, NB)"
  shows "\<exists>S'. (sys_step opts)\<^sup>*\<^sup>* S S' \<and> s_node S' = (s_node S)(i := NA, k := NB)
    \<and> s_copied S' = copied (s_node S i) u # s_copied S"
proof -
  let ?op = "Inr (open_out n)" and ?C = "copied (s_node S i) u # s_copied S"
  from c obtain NA1 sent NA2 w1 e1 r1 W1 w2 NB2 e2 w3 WA e3 r3 W3 sent' where
    s1: "monitor_update (opts i) j now (s_node S i) u = Some NA1" and
    s2: "monitor_message (opts i) (\<lambda>_. ?op) NA1 = Some (sent, NA2)" "map_of sent (d_ID (my_Metadata (opts k))) = Some w1" and
    s3: "handleStream (peer_env_of (opts k)) ?op (n_world (s_node S k)) \<lparr>r_bytes = o_bytes w1, r_err = EOF\<rparr> = Some (e1, r1, W1)" and
    s4: "monitor_announce (opts k) (\<lambda>_. ?op) now ((s_node S k)\<lparr>n_world := W1\<rparr>) = Some (Some w2, NB2)" and
    s5: "handleStream (peer_env_of (opts i)) ?op (n_world NA2) \<lparr>r_bytes = o_bytes w2, r_err = EOF\<rparr> = Some (e2, Some w3, WA)" and
    s6: "handleStream (peer_env_of (opts k)) ?op (n_world NB2) \<lparr>r_bytes = o_bytes w3, r_err = EOF\<rparr> = Some (e3, r3, W3)" and
    s7: "monitor_message (opts k) (\<lambda>_. ?op) (NB2\<lparr>n_world := W3\<rparr>) = Some (sent', NB)" and
    NA: "NA = NA2\<lparr>n_world := WA\<rparr>"
    by (auto simp: copy_once_def bind_eq_Some_conv)
  define S1 where "S1 = S\<lparr>s_node := (s_node S)(i := NA1), s_copied := ?C\<rparr>"
  define S2 where "S2 = S1\<lparr>s_node := (s_node S1)(i := NA2), s_wire := map (o_bytes \<circ> snd) sent @ s_wire S1\<rparr>"
  define S3 where "S3 = S2\<lparr>s_node := (s_node S2)(k := (s_node S2 k)\<lparr>n_world := W1\<rparr>), s_wire := written_bytes r1 @ s_wire S2\<rparr>"
  define S4 where "S4 = S3\<lparr>s_node := (s_node S3)(k := NB2), s_wire := written_bytes (Some w2) @ s_wire S3\<rparr>"
  define S5 where "S5 = S4\<lparr>s_node := (s_node S4)(i := (s_node S4 i)\<lparr>n_world := WA\<rparr>), s_wire := written_bytes (Some w3) @ s_wire S4\<rparr>"
  define S6 where "S6 = S5\<lparr>s_node := (s_node S5)(k := (s_node S5 k)\<lparr>n_world := W3\<rparr>), s_wire := written_bytes r3 @ s_wire S5\<rparr>"
  define S7 where "S7 = S6\<lparr>s_node := (s_node S6)(k := NB), s_wire := map (o_bytes \<circ> snd) sent' @ s_wire S6\<rparr>"
  have at: "s_node S1 i = NA1" "s_node S2 k = s_node S k" "s_node S3 k = (s_node S k)\<lparr>n_world := W1\<rparr>"
    "s_node S4 i = NA2" "s_node S5 k = NB2" "s_node S6 k = NB2\<lparr>n_world := W3\<rparr>"
    using ik by (simp_all add: S1_def S2_def S3_def S4_def S5_def S6_def)
  have on: "o_bytes w1 \<in> set (s_wire S2)" "o_bytes w2 \<in> set (s_wire S4)" "o_bytes w3 \<in> set (s_wire S5)"
    using map_of_SomeD [OF s2(2)] by (force simp: S2_def S4_def S5_def written_bytes_def)+
  have whole: "take (length b) b = b" for b :: "byte list" by simp
  have "sys_step opts S S1" unfolding S1_def by (rule sys_step.Copies [where opts = opts and i = i, OF u t(1) s1])
  moreover have "sys_step opts S1 S2" unfolding S2_def by (rule sys_step.Takes [where opts = opts and i = i, OF _ s2(1) [folded at(1)]]) simp
  moreover have "sys_step opts S2 S3" unfolding S3_def
    by (rule sys_step.Receives [where opts = opts and i = k, OF on(1) fresh_open, where k = "length (o_bytes w1)"]) (unfold at whole, rule s3)
  moreover have "sys_step opts S3 S4" unfolding S4_def by (rule sys_step.Requests [where opts = opts and i = k, OF _ t(2) s4 [folded at(3)]]) simp
  moreover have "sys_step opts S4 S5" unfolding S5_def
    by (rule sys_step.Receives [where opts = opts and i = i, OF on(2) fresh_open, where k = "length (o_bytes w2)"]) (unfold at whole, rule s5)
  moreover have "sys_step opts S5 S6" unfolding S6_def
    by (rule sys_step.Receives [where opts = opts and i = k, OF on(3) fresh_open, where k = "length (o_bytes w3)"]) (unfold at whole, rule s6)
  moreover have "sys_step opts S6 S7" unfolding S7_def by (rule sys_step.Takes [where opts = opts and i = k, OF _ s7 [folded at(6)]]) simp
  ultimately have "(sys_step opts)\<^sup>*\<^sup>* S S7" by (meson converse_rtranclp_into_rtranclp rtranclp.rtrancl_refl)
  moreover have "s_node S7 = (s_node S)(i := NA, k := NB)"
    using ik at NA by (auto simp: S7_def S6_def S5_def S4_def S3_def S2_def S1_def)
  moreover have "s_copied S7 = ?C"
    by (simp add: S7_def S6_def S5_def S4_def S3_def S2_def S1_def)
  ultimately show ?thesis by blast
qed

section \<open>Properties\<close>


lemma sample_network: "network_ok ref_helpers sample_opts"
  using sample_opts_ok ref_AsTime_ok by (simp add: network_ok_def sample_opts_def)

text \<open>A node accepts the greeting of another one.\<close>

lemma sample_connects:
  assumes "i \<in> {1, 2}" and "k \<in> {1, 2}"
  shows "node_step (sample_opts i) sample_time (node_New 1 Map.empty)
    (Accepted 20 (Inr (\<lparr>r_bytes = event_wire ref_helpers (EventHandshake (greeting (sample_opts k) sample_time)), r_err = EOF\<rparr>,
       open_out 100))) = Some (one_peer k)"
proof -
  let ?g = "\<lambda>i. greeting (sample_opts i) sample_time"
  have size: "Event_SizeVT ref_helpers (Some (the_proto (EventHandshake (?g i)))) < 100"
    "length (event_wire ref_helpers (EventHandshake (?g i))) \<le> 100" if "i \<in> {1, 2}" for i
    using that by (elim insertE emptyE; simp only:; code_simp)+
  have v: "\<not> IsMajorDifference (str ''1.0.0'') (str ''1.0.0'')" by code_simp
  have g: "h_Version (Payload (?g i)) = str ''1.0.0''" "h_MetaData (Payload (?g i)) = sample_device i" "Created (?g i) = sample_time" for i
    by (simp_all add: greeting_def sample_opts_def)
  have "sendable ref_helpers (EventHandshake (?g k))"
    using size(1) [OF assms(2)] by (simp add: sendable_def g del: Event_SizeVT.simps) (simp add: time_ok_def sample_time_def)
  from exchange_wire [OF ref_helpers_ok ref_AsTime_ok this size(2) [OF assms(1)], of "[]" EOF]
  obtain w where "exchange ref_helpers ref_AsTime (?g i) (Inr (\<lparr>r_bytes = event_wire ref_helpers (EventHandshake (?g k)), r_err = EOF\<rparr>, open_out 100))
      = Some (Inr ((?g k)\<lparr>From := 0\<rparr>), Some w)"
    using v g by auto
  moreover have "helpers_of (sample_opts i) = ref_helpers" "e_AsTime (peer_options (sample_opts i)) = ref_AsTime"
    by (simp_all add: sample_opts_def)
  ultimately show ?thesis
    by (simp add: handleConnection_def addPeer_def one_peer_def sample_peer_def node_New_def g sample_device_def Let_def)
qed


end
