(* ===== verification/Deadlines.thy ===== *)
theory Deadlines
  imports Main
begin

text \<open>
  The deadlines of a peer's streams (\<open>deadlineStream\<close> of \<open>internal/peer\<close>): before a read or write the
  deadline of the stream is moved on, but at most once in a quarter of the timeout. Times are integers,
  in any one unit. The time of the last move is \<open>None\<close> for the zero time a new stream has: the distance
  to it is the largest duration there is, more than a quarter of any timeout.
\<close>

record deadline_stream =
  ds_read :: int
  ds_write :: int
  lastRead :: "int option"
  lastWrite :: "int option"
  readDeadline :: "int option"
  writeDeadline :: "int option"

definition new_stream :: "int \<Rightarrow> int \<Rightarrow> deadline_stream" where
  "new_stream rd wr = \<lparr>ds_read = rd, ds_write = wr, lastRead = None, lastWrite = None,
     readDeadline = None, writeDeadline = None\<rparr>"

definition due :: "int \<Rightarrow> int \<Rightarrow> int option \<Rightarrow> bool" where
  "due timeout now prev = (case prev of None \<Rightarrow> True | Some l \<Rightarrow> timeout div 4 < now - l)"

text \<open>What a read and a write do before they ask the stream.\<close>

definition before_read :: "int \<Rightarrow> deadline_stream \<Rightarrow> deadline_stream" where
  "before_read now s =
     (if 0 < ds_read s \<and> due (ds_read s) now (lastRead s)
      then s\<lparr>readDeadline := Some (now + ds_read s), lastRead := Some now\<rparr> else s)"

definition before_write :: "int \<Rightarrow> deadline_stream \<Rightarrow> deadline_stream" where
  "before_write now s =
     (if 0 < ds_write s \<and> due (ds_write s) now (lastWrite s)
      then s\<lparr>writeDeadline := Some (now + ds_write s), lastWrite := Some now\<rparr> else s)"

text \<open>A call that would return at the time \<open>t\<close> is cut when the deadline comes before that.\<close>

definition in_time :: "int option \<Rightarrow> int \<Rightarrow> bool" where
  "in_time deadline t = (case deadline of None \<Rightarrow> True | Some d \<Rightarrow> t \<le> d)"

definition ds_Read :: "int \<Rightarrow> int \<Rightarrow> deadline_stream \<Rightarrow> bool \<times> deadline_stream" where
  "ds_Read now t s = (let s' = before_read now s in (in_time (readDeadline s') t, s'))"

definition ds_Write :: "int \<Rightarrow> int \<Rightarrow> deadline_stream \<Rightarrow> bool \<times> deadline_stream" where
  "ds_Write now t s = (let s' = before_write now s in (in_time (writeDeadline s') t, s'))"

section \<open>Transfers\<close>

text \<open>
  What happens on a stream: a pause, then a read or write that waits for some time. The first result is
  the time at the end, or \<open>None\<close> when a call was cut.
\<close>

datatype io_call = Reads int int | Writes int int

fun transfer :: "deadline_stream \<Rightarrow> int \<Rightarrow> io_call list \<Rightarrow> int option \<times> deadline_stream" where
  "transfer s now [] = (Some now, s)"
| "transfer s now (Reads pause wait # cs) =
     (let (ok, s') = ds_Read (now + pause) (now + pause + wait) s in
      if ok then transfer s' (now + pause + wait) cs else (None, s'))"
| "transfer s now (Writes pause wait # cs) =
     (let (ok, s') = ds_Write (now + pause) (now + pause + wait) s in
      if ok then transfer s' (now + pause + wait) cs else (None, s'))"

text \<open>A deadline is a timeout after the last move of it, which is past.\<close>

definition moved :: "int \<Rightarrow> int \<Rightarrow> int option \<Rightarrow> int option \<Rightarrow> bool" where
  "moved timeout now prev deadline =
     (case prev of None \<Rightarrow> deadline = None | Some l \<Rightarrow> l \<le> now \<and> deadline = Some (l + timeout))"

definition stream_ok :: "int \<Rightarrow> deadline_stream \<Rightarrow> bool" where
  "stream_ok now s \<longleftrightarrow> moved (ds_read s) now (lastRead s) (readDeadline s)
     \<and> moved (ds_write s) now (lastWrite s) (writeDeadline s)"

lemma stream_ok_new: "stream_ok now (new_stream rd wr)"
  by (simp add: stream_ok_def moved_def new_stream_def)

lemma stream_ok_later: "stream_ok now s \<Longrightarrow> now \<le> now' \<Longrightarrow> stream_ok now' s"
  by (auto simp: stream_ok_def moved_def split: option.splits)

text \<open>The deadline a call runs under: at least three quarters of the timeout away, at most all of it.\<close>

lemma before_read_deadline:
  assumes "stream_ok now s" and "0 < ds_read s"
  shows "stream_ok now (before_read now s) \<and> (\<exists>d. readDeadline (before_read now s) = Some d
    \<and> now + ds_read s - ds_read s div 4 \<le> d \<and> d \<le> now + ds_read s)"
  using assms by (auto simp: before_read_def due_def stream_ok_def moved_def split: option.splits)

lemma before_write_deadline:
  assumes "stream_ok now s" and "0 < ds_write s"
  shows "stream_ok now (before_write now s) \<and> (\<exists>d. writeDeadline (before_write now s) = Some d
    \<and> now + ds_write s - ds_write s div 4 \<le> d \<and> d \<le> now + ds_write s)"
  using assms by (auto simp: before_write_def due_def stream_ok_def moved_def split: option.splits)

lemma before_fields [simp]:
  "ds_read (before_read now s) = ds_read s" "ds_write (before_read now s) = ds_write s"
  "ds_read (before_write now s) = ds_read s" "ds_write (before_write now s) = ds_write s"
  by (simp_all add: before_read_def before_write_def)

definition call_pause :: "io_call \<Rightarrow> int" where
  "call_pause c = (case c of Reads p _ \<Rightarrow> p | Writes p _ \<Rightarrow> p)"

definition call_wait :: "io_call \<Rightarrow> int" where
  "call_wait c = (case c of Reads _ w \<Rightarrow> w | Writes _ w \<Rightarrow> w)"

text \<open>The timeout that a call runs under.\<close>

definition call_timeout :: "deadline_stream \<Rightarrow> io_call \<Rightarrow> int" where
  "call_timeout s c = (case c of Reads _ _ \<Rightarrow> ds_read s | Writes _ _ \<Rightarrow> ds_write s)"

lemma transfer_step:
  assumes "stream_ok now s" and "0 < ds_read s" and "0 < ds_write s" and "0 \<le> call_pause c" and "0 \<le> call_wait c"
  obtains ok s' where "transfer s now (c # cs) =
      (if ok then transfer s' (now + call_pause c + call_wait c) cs else (None, s'))"
    and "stream_ok (now + call_pause c + call_wait c) s'" and "ds_read s' = ds_read s" and "ds_write s' = ds_write s"
    and "call_wait c \<le> call_timeout s c - call_timeout s c div 4 \<Longrightarrow> ok"
    and "call_timeout s c < call_wait c \<Longrightarrow> \<not> ok"
proof (cases c)
  case (Reads p w)
  let ?s = "before_read (now + p) s"
  have "stream_ok (now + p) s" using assms(1,4) Reads by (auto intro: stream_ok_later simp: call_pause_def)
  from before_read_deadline [OF this assms(2)] obtain d where d: "stream_ok (now + p) ?s" "readDeadline ?s = Some d"
    "now + p + ds_read s - ds_read s div 4 \<le> d" "d \<le> now + p + ds_read s" by blast
  have "stream_ok (now + p + w) ?s" using d(1) assms(5) Reads by (auto intro: stream_ok_later simp: call_wait_def)
  with d(2-4) Reads show thesis
    by (intro that [of "now + p + w \<le> d" ?s])
      (auto simp: ds_Read_def in_time_def call_pause_def call_wait_def call_timeout_def Let_def)
next
  case (Writes p w)
  let ?s = "before_write (now + p) s"
  have "stream_ok (now + p) s" using assms(1,4) Writes by (auto intro: stream_ok_later simp: call_pause_def)
  from before_write_deadline [OF this assms(3)] obtain d where d: "stream_ok (now + p) ?s" "writeDeadline ?s = Some d"
    "now + p + ds_write s - ds_write s div 4 \<le> d" "d \<le> now + p + ds_write s" by blast
  have "stream_ok (now + p + w) ?s" using d(1) assms(5) Writes by (auto intro: stream_ok_later simp: call_wait_def)
  with d(2-4) Writes show thesis
    by (intro that [of "now + p + w \<le> d" ?s])
      (auto simp: ds_Write_def in_time_def call_pause_def call_wait_def call_timeout_def Let_def)
qed

lemma transfer_steady:
  "stream_ok now s \<Longrightarrow> 0 < ds_read s \<Longrightarrow> 0 < ds_write s \<Longrightarrow>
   list_all (\<lambda>c. 0 \<le> call_pause c \<and> 0 \<le> call_wait c \<and> call_wait c \<le> call_timeout s c - call_timeout s c div 4) cs \<Longrightarrow>
   fst (transfer s now cs) = Some (now + sum_list (map (\<lambda>c. call_pause c + call_wait c) cs))"
proof (induction cs arbitrary: now s)
  case (Cons c cs)
  then have c: "0 \<le> call_pause c" "0 \<le> call_wait c" "call_wait c \<le> call_timeout s c - call_timeout s c div 4" by simp_all
  obtain ok s' where st: "transfer s now (c # cs) =
      (if ok then transfer s' (now + call_pause c + call_wait c) cs else (None, s'))"
    "stream_ok (now + call_pause c + call_wait c) s'" "ds_read s' = ds_read s" "ds_write s' = ds_write s" "ok"
    using transfer_step [OF Cons.prems(1-3) c(1,2)] c(3) by metis
  have "call_timeout s' = call_timeout s" using st(3,4) by (simp add: call_timeout_def fun_eq_iff split: io_call.split)
  with Cons.IH [OF st(2)] Cons.prems st show ?case by simp
qed simp

lemma transfer_stalled:
  "stream_ok now s \<Longrightarrow> 0 < ds_read s \<Longrightarrow> 0 < ds_write s \<Longrightarrow>
   list_all (\<lambda>c. 0 \<le> call_pause c \<and> 0 \<le> call_wait c) cs \<Longrightarrow> list_ex (\<lambda>c. call_timeout s c < call_wait c) cs \<Longrightarrow>
   fst (transfer s now cs) = None"
proof (induction cs arbitrary: now s)
  case (Cons c cs)
  then have c: "0 \<le> call_pause c" "0 \<le> call_wait c" by simp_all
  obtain ok s' where st: "transfer s now (c # cs) =
      (if ok then transfer s' (now + call_pause c + call_wait c) cs else (None, s'))"
    "stream_ok (now + call_pause c + call_wait c) s'" "ds_read s' = ds_read s" "ds_write s' = ds_write s"
    "call_timeout s c < call_wait c \<Longrightarrow> \<not> ok"
    using transfer_step [OF Cons.prems(1-3) c] by metis
  have "call_timeout s' = call_timeout s" using st(3,4) by (simp add: call_timeout_def fun_eq_iff split: io_call.split)
  with Cons.IH [OF st(2)] Cons.prems st show ?case by (cases ok) auto
qed simp

section \<open>Properties\<close>

text \<open>C21. Deadlines end stalled transfers and no others: on a stream with positive timeouts a transfer of
  any length, with reads and writes in any order and any pauses between them, goes through when every
  call waits at most three quarters of its timeout, and it is cut when one of them waits longer than
  its timeout, although the deadline is not moved at every call.\<close>

theorem deadlines_cut_stalled_only:
  assumes "0 < rd" and "0 < wr" and "list_all (\<lambda>c. 0 \<le> call_pause c \<and> 0 \<le> call_wait c) cs"
  shows "(list_all (\<lambda>c. call_wait c \<le> call_timeout (new_stream rd wr) c - call_timeout (new_stream rd wr) c div 4) cs
      \<longrightarrow> fst (transfer (new_stream rd wr) now cs) = Some (now + sum_list (map (\<lambda>c. call_pause c + call_wait c) cs)))
    \<and> (list_ex (\<lambda>c. call_timeout (new_stream rd wr) c < call_wait c) cs
      \<longrightarrow> fst (transfer (new_stream rd wr) now cs) = None)"
proof -
  have s: "0 < ds_read (new_stream rd wr)" "0 < ds_write (new_stream rd wr)" using assms(1,2) by (simp_all add: new_stream_def)
  show ?thesis
    using transfer_steady [OF stream_ok_new s] transfer_stalled [OF stream_ok_new s assms(3)] assms(3)
    by (simp add: list_all_iff)
qed

theorem deadlines_cut_stalled_only_witness:
  "fst (transfer (new_stream 8 4) 0 [Reads 0 6, Writes 1 3, Reads 1 6]) = Some 17
   \<and> fst (transfer (new_stream 8 4) 0 [Reads 0 6, Writes 1 5]) = None"
  using deadlines_cut_stalled_only [of 8 4 "[Reads 0 6, Writes 1 3, Reads 1 6]" 0]
    deadlines_cut_stalled_only [of 8 4 "[Reads 0 6, Writes 1 5]" 0]
  by (simp add: call_pause_def call_wait_def call_timeout_def new_stream_def)

end
