(* ===== verification/WlProtocol.thy ===== *)
theory WlProtocol
  imports GoLib
begin

text \<open>
  The Wayland data-control protocol objects (\<open>pkg/clipboard/wlr/protocol.go\<close>): which callback of its
  listener an object calls for an incoming message, and which request each of its methods queues.
  The wire library is third-party: \<open>wl_lib\<close> holds its operations on a message buffer \<open>'m\<close> and on its
  object table \<open>'s\<close>, in which the code registers objects and finds them by number. An object is its
  number and its interface.
\<close>

datatype wl_interface = Manager | Device | Source | Offer

fun Interface :: "wl_interface \<Rightarrow> gostring" where
  "Interface Manager = str ''ext_data_control_manager_v1''"
| "Interface Device = str ''ext_data_control_device_v1''"
| "Interface Source = str ''ext_data_control_source_v1''"
| "Interface Offer = str ''ext_data_control_offer_v1''"

fun Version :: "wl_interface \<Rightarrow> u32" where
  "Version Manager = 1"
| "Version Device = 1"
| "Version Source = 1"
| "Version Offer = 1"

record wl_object =
  ob_id :: u32
  ob_interface :: wl_interface

text \<open>An argument of a request: an object (or none), a string, or a file.\<close>

datatype wl_arg = ArgObject "u32 option" | ArgString gostring | ArgFile nat | ArgNewID gostring u32 u32

record wl_request =
  rq_sender :: u32
  rq_op :: u16
  rq_method :: gostring
  rq_args :: "wl_arg list"

text \<open>\<open>state_Add\<close> registers an object, and gives it a number if its own is 0.\<close>

record ('m, 's) wl_lib =
  msg_Op :: "'m \<Rightarrow> u16"
  ReadUint :: "'m \<Rightarrow> u32 \<times> 'm"
  ReadString :: "'m \<Rightarrow> gostring \<times> 'm"
  ReadFile :: "'m \<Rightarrow> nat \<times> 'm"
  msg_Err :: "'m \<Rightarrow> gostring option"
  state_Get :: "'s \<Rightarrow> u32 \<Rightarrow> wl_object option"
  state_Add :: "'s \<Rightarrow> wl_object \<Rightarrow> u32 \<times> 's"
  state_Enqueue :: "'s \<Rightarrow> wl_request \<Rightarrow> 's"
  registry_Bind :: "'s \<Rightarrow> u32 \<Rightarrow> gostring \<Rightarrow> u32 \<Rightarrow> u32 \<Rightarrow> 's"

section \<open>Incoming messages\<close>

text \<open>The callbacks of the listeners.\<close>

datatype wl_event =
    EvDataOffer u32
  | EvSelection u32
  | EvFinished
  | EvPrimarySelection u32
  | EvSend gostring nat
  | EvCancelled
  | EvOffer gostring

datatype wl_error = UnknownOpError gostring u16 | WlMessageError gostring

text \<open>The end of every case: the error of the message, else the callback if there is a listener.\<close>

definition callback ::
  "('m, 's) wl_lib \<Rightarrow> bool \<Rightarrow> 'm \<Rightarrow> wl_event \<Rightarrow> 's \<Rightarrow> (wl_error + wl_event option) \<times> 's" where
  "callback L listener m ev s =
     (case msg_Err L m of
        Some e \<Rightarrow> (Inl (WlMessageError e), s)
      | None \<Rightarrow> (Inr (if listener then Some ev else None), s))"

definition unknown_op :: "('m, 's) wl_lib \<Rightarrow> wl_interface \<Rightarrow> 'm \<Rightarrow> 's \<Rightarrow> (wl_error + wl_event option) \<times> 's" where
  "unknown_op L i m s = (Inl (UnknownOpError (Interface i) (msg_Op L m)), s)"

definition Manager_Dispatch ::
  "('m, 's) wl_lib \<Rightarrow> bool \<Rightarrow> 'm \<Rightarrow> 's \<Rightarrow> (wl_error + wl_event option) \<times> 's" where
  "Manager_Dispatch L listener m s = unknown_op L Manager m s"

definition known_offer ::
  "('m, 's) wl_lib \<Rightarrow> bool \<Rightarrow> 'm \<Rightarrow> (u32 \<Rightarrow> wl_event) \<Rightarrow> 's \<Rightarrow> (wl_error + wl_event option) \<times> 's" where
  "known_offer L listener m ev s =
     (let (i, m') = ReadUint L m in
      case state_Get L s i of
        None \<Rightarrow> (Inr None, s)
      | Some ob \<Rightarrow>
          if ob_interface ob \<noteq> Offer then (Inr None, s)
          else (let (i', s') = state_Add L s ob in callback L listener m' (ev i') s'))"

definition Device_Dispatch ::
  "('m, 's) wl_lib \<Rightarrow> bool \<Rightarrow> 'm \<Rightarrow> 's \<Rightarrow> (wl_error + wl_event option) \<times> 's" where
  "Device_Dispatch L listener m s =
     (if msg_Op L m = 0 then
        (let (i, m') = ReadUint L m; (i', s') = state_Add L s \<lparr>ob_id = i, ob_interface = Offer\<rparr>
         in callback L listener m' (EvDataOffer i') s')
      else if msg_Op L m = 1 then known_offer L listener m EvSelection s
      else if msg_Op L m = 2 then callback L listener m EvFinished s
      else if msg_Op L m = 3 then known_offer L listener m EvPrimarySelection s
      else unknown_op L Device m s)"

definition Source_Dispatch ::
  "('m, 's) wl_lib \<Rightarrow> bool \<Rightarrow> 'm \<Rightarrow> 's \<Rightarrow> (wl_error + wl_event option) \<times> 's" where
  "Source_Dispatch L listener m s =
     (if msg_Op L m = 0 then
        (let (t, m1) = ReadString L m; (fd, m2) = ReadFile L m1 in callback L listener m2 (EvSend t fd) s)
      else if msg_Op L m = 1 then callback L listener m EvCancelled s
      else unknown_op L Source m s)"

definition Offer_Dispatch ::
  "('m, 's) wl_lib \<Rightarrow> bool \<Rightarrow> 'm \<Rightarrow> 's \<Rightarrow> (wl_error + wl_event option) \<times> 's" where
  "Offer_Dispatch L listener m s =
     (if msg_Op L m = 0 then (let (t, m') = ReadString L m in callback L listener m' (EvOffer t) s)
      else unknown_op L Offer m s)"

fun Dispatch ::
  "('m, 's) wl_lib \<Rightarrow> wl_interface \<Rightarrow> bool \<Rightarrow> 'm \<Rightarrow> 's \<Rightarrow> (wl_error + wl_event option) \<times> 's" where
  "Dispatch L Manager = Manager_Dispatch L"
| "Dispatch L Device = Device_Dispatch L"
| "Dispatch L Source = Source_Dispatch L"
| "Dispatch L Offer = Offer_Dispatch L"

definition unknown_method :: gostring where
  "unknown_method = str ''unknown method''"

definition Device_MethodName :: "u16 \<Rightarrow> gostring" where
  "Device_MethodName op =
     (if op = 0 then str ''data_offer'' else if op = 1 then str ''selection''
      else if op = 2 then str ''finished'' else if op = 3 then str ''primary_selection'' else unknown_method)"

definition Source_MethodName :: "u16 \<Rightarrow> gostring" where
  "Source_MethodName op = (if op = 0 then str ''send'' else if op = 1 then str ''cancelled'' else unknown_method)"

definition Offer_MethodName :: "u16 \<Rightarrow> gostring" where
  "Offer_MethodName op = (if op = 0 then str ''offer'' else unknown_method)"

definition Manager_MethodName :: "u16 \<Rightarrow> gostring" where
  "Manager_MethodName op = unknown_method"

fun MethodName :: "wl_interface \<Rightarrow> u16 \<Rightarrow> gostring" where
  "MethodName Manager op = Manager_MethodName op"
| "MethodName Device op = Device_MethodName op"
| "MethodName Source op = Source_MethodName op"
| "MethodName Offer op = Offer_MethodName op"

section \<open>Requests\<close>

definition enqueue :: "('m, 's) wl_lib \<Rightarrow> 's \<Rightarrow> u32 \<Rightarrow> u16 \<Rightarrow> gostring \<Rightarrow> wl_arg list \<Rightarrow> 's" where
  "enqueue L s obj op method args =
     state_Enqueue L s \<lparr>rq_sender = obj, rq_op = op, rq_method = method, rq_args = args\<rparr>"

definition BindExtDataControlManagerV1 :: "('m, 's) wl_lib \<Rightarrow> 's \<Rightarrow> u32 \<Rightarrow> u32 \<Rightarrow> u32 \<times> 's" where
  "BindExtDataControlManagerV1 L s name version =
     (let (i, s') = state_Add L s \<lparr>ob_id = 0, ob_interface = Manager\<rparr>
      in (i, registry_Bind L s' name (Interface Manager) version i))"

definition CreateDataSource :: "('m, 's) wl_lib \<Rightarrow> 's \<Rightarrow> u32 \<Rightarrow> u32 \<times> 's" where
  "CreateDataSource L s obj =
     (let (i, s') = state_Add L s \<lparr>ob_id = 0, ob_interface = Source\<rparr>
      in (i, enqueue L s' obj 0 (str ''create_data_source'') [ArgObject (Some i)]))"

definition GetDataDevice :: "('m, 's) wl_lib \<Rightarrow> 's \<Rightarrow> u32 \<Rightarrow> u32 \<Rightarrow> u32 \<times> 's" where
  "GetDataDevice L s obj seat =
     (let (i, s') = state_Add L s \<lparr>ob_id = 0, ob_interface = Device\<rparr>
      in (i, enqueue L s' obj 1 (str ''get_data_device'') [ArgObject (Some i), ArgObject (Some seat)]))"

definition Manager_Destroy :: "('m, 's) wl_lib \<Rightarrow> 's \<Rightarrow> u32 \<Rightarrow> 's" where
  "Manager_Destroy L s obj = enqueue L s obj 2 (str ''destroy'') []"

definition SetSelection :: "('m, 's) wl_lib \<Rightarrow> 's \<Rightarrow> u32 \<Rightarrow> u32 option \<Rightarrow> 's" where
  "SetSelection L s obj source = enqueue L s obj 0 (str ''set_selection'') [ArgObject source]"

definition Device_Destroy :: "('m, 's) wl_lib \<Rightarrow> 's \<Rightarrow> u32 \<Rightarrow> 's" where
  "Device_Destroy L s obj = enqueue L s obj 1 (str ''destroy'') []"

definition SetPrimarySelection :: "('m, 's) wl_lib \<Rightarrow> 's \<Rightarrow> u32 \<Rightarrow> u32 option \<Rightarrow> 's" where
  "SetPrimarySelection L s obj source = enqueue L s obj 2 (str ''set_primary_selection'') [ArgObject source]"

definition Source_Offer :: "('m, 's) wl_lib \<Rightarrow> 's \<Rightarrow> u32 \<Rightarrow> gostring \<Rightarrow> 's" where
  "Source_Offer L s obj mimeType = enqueue L s obj 0 (str ''offer'') [ArgString mimeType]"

definition Source_Destroy :: "('m, 's) wl_lib \<Rightarrow> 's \<Rightarrow> u32 \<Rightarrow> 's" where
  "Source_Destroy L s obj = enqueue L s obj 1 (str ''destroy'') []"

definition Offer_Receive :: "('m, 's) wl_lib \<Rightarrow> 's \<Rightarrow> u32 \<Rightarrow> gostring \<Rightarrow> nat \<Rightarrow> 's" where
  "Offer_Receive L s obj mimeType fd = enqueue L s obj 0 (str ''receive'') [ArgString mimeType, ArgFile fd]"

definition Offer_Destroy :: "('m, 's) wl_lib \<Rightarrow> 's \<Rightarrow> u32 \<Rightarrow> 's" where
  "Offer_Destroy L s obj = enqueue L s obj 1 (str ''destroy'') []"

section \<open>Names of objects and errors\<close>

definition object_String :: "wl_object \<Rightarrow> gostring" where
  "object_String ob = Interface (ob_interface ob) @ str ''('' @ nat_digits (unat (ob_id ob)) @ str '')''"

definition device_error_String :: "i64 \<Rightarrow> gostring" where
  "device_error_String e =
     (if e = 1 then str ''ExtDataControlDeviceV1ErrorUsedSource'' else str ''<invalid ExtDataControlDeviceV1Error>'')"

definition source_error_String :: "i64 \<Rightarrow> gostring" where
  "source_error_String e =
     (if e = 1 then str ''ExtDataControlSourceV1ErrorInvalidOffer'' else str ''<invalid ExtDataControlSourceV1Error>'')"

section \<open>Dispatch agrees with the names of the protocol\<close>

fun event_name :: "wl_event \<Rightarrow> gostring" where
  "event_name (EvDataOffer _) = str ''data_offer''"
| "event_name (EvSelection _) = str ''selection''"
| "event_name EvFinished = str ''finished''"
| "event_name (EvPrimarySelection _) = str ''primary_selection''"
| "event_name (EvSend _ _) = str ''send''"
| "event_name EvCancelled = str ''cancelled''"
| "event_name (EvOffer _) = str ''offer''"

lemmas dispatch_defs = Manager_Dispatch_def Device_Dispatch_def Source_Dispatch_def Offer_Dispatch_def
  callback_def unknown_op_def known_offer_def

lemmas method_defs = Manager_MethodName_def Device_MethodName_def Source_MethodName_def Offer_MethodName_def
  unknown_method_def

lemma dispatch_event:
  "fst (Dispatch L i listener m s) = Inr (Some ev) \<Longrightarrow> listener \<and> event_name ev = MethodName i (msg_Op L m)"
  by (cases i) (auto simp: dispatch_defs method_defs Let_def split: if_splits option.splits prod.splits)

lemma dispatch_unknown:
  "(\<exists>name op. fst (Dispatch L i listener m s) = Inl (UnknownOpError name op))
   \<longleftrightarrow> MethodName i (msg_Op L m) = unknown_method"
  by (cases i) (auto simp: dispatch_defs method_defs Let_def split: if_splits option.splits prod.splits)

section \<open>Properties\<close>

text \<open>A message of the compositor is refused as unknown exactly when its object's interface has no
  name for its operation: every named event is decoded, for each of the four interfaces, whether or
  not the object has a listener.\<close>

theorem unknown_op_refused:
  "(\<exists>name op. fst (Dispatch L i listener m s) = Inl (UnknownOpError name op))
   \<longleftrightarrow> MethodName i (msg_Op L m) = unknown_method"
  by (rule dispatch_unknown)

end
