(* ===== verification/Wlr.thy ===== *)
theory Wlr
  imports WlProtocol Eventful
begin

text \<open>
  The Wayland clipboard (\<open>pkg/clipboard/wlr\<close>: reader, writer, preset, clipboard). Times are Unix
  nanoseconds (well below the 64-bit bound); a file descriptor is a number; what the compositor, the
  pipe and the file system do is an argument of each operation. \<open>uni\<close> lowers non-ASCII text,
  \<open>xxhash\<close>, \<open>xxsum\<close> and \<open>lstat\<close> are as in \<open>Eventful\<close>. The updates sent so far are \<open>dataChan\<close>.
\<close>

definition debounce :: int where
  "debounce = 200000000"

section \<open>Setting up\<close>

record wl_preset =
  seat :: "u32 option"
  deviceManager :: "u32 option"
  wl_device :: "u32 option"

definition newPreset :: wl_preset where
  "newPreset = \<lparr>seat = None, deviceManager = None, wl_device = None\<rparr>"

text \<open>\<open>BindSeat\<close> and the name of its interface are the Wayland library's.\<close>

definition Global ::
  "('m, 's) wl_lib \<Rightarrow> gostring \<Rightarrow> ('s \<Rightarrow> u32 \<Rightarrow> u32 \<Rightarrow> u32 \<times> 's) \<Rightarrow> wl_preset \<times> 's \<Rightarrow> u32 \<times> gostring \<times> u32 \<Rightarrow> wl_preset \<times> 's" where
  "Global L SeatInterface BindSeat ps g =
     (case (ps, g) of ((p, s), (name, iname, version)) \<Rightarrow>
        if iname = SeatInterface then
          (let (i, s') = BindSeat s name version in (p\<lparr>seat := Some i\<rparr>, s'))
        else if iname = Interface Manager then
          (let (i, s') = BindExtDataControlManagerV1 L s name version in (p\<lparr>deviceManager := Some i\<rparr>, s'))
        else (p, s))"

datatype setup_error = ErrRoundTrip gostring | ErrNoSeat | ErrUnsupportedProtocol

text \<open>\<open>globals\<close> are the globals announced during the round trip.\<close>

definition Setup ::
  "('m, 's) wl_lib \<Rightarrow> gostring \<Rightarrow> ('s \<Rightarrow> u32 \<Rightarrow> u32 \<Rightarrow> u32 \<times> 's) \<Rightarrow> wl_preset \<Rightarrow> 's \<Rightarrow> (u32 \<times> gostring \<times> u32) list
   \<Rightarrow> gostring option \<Rightarrow> setup_error option \<times> wl_preset \<times> 's" where
  "Setup L SeatInterface BindSeat p s globals roundTrip =
     (let (p1, s1) = foldl (Global L SeatInterface BindSeat) (p, s) globals in
      case roundTrip of
        Some e \<Rightarrow> (Some (ErrRoundTrip e), p1, s1)
      | None \<Rightarrow>
          (case (seat p1, deviceManager p1) of
             (None, _) \<Rightarrow> (Some ErrNoSeat, p1, s1)
           | (Some _, None) \<Rightarrow> (Some ErrUnsupportedProtocol, p1, s1)
           | (Some st, Some mgr) \<Rightarrow>
               (let (d, s2) = GetDataDevice L s1 mgr st in (None, p1\<lparr>wl_device := Some d\<rparr>, s2))))"

section \<open>Reader\<close>

record wl_reader =
  currentOffer :: "u32 option"
  mimeTypes :: "gostring list"
  listening :: "u32 list"
  dedup :: deduplicator
  barrier :: int
  r_closed :: bool
  dataChan :: "update list"

definition newReader :: wl_reader where
  "newReader = \<lparr>currentOffer = None, mimeTypes = [], listening = [], dedup = \<lparr>lastHash = 0\<rparr>, barrier = 0,
     r_closed = False, dataChan = []\<rparr>"

definition Suppress :: "int \<Rightarrow> wl_reader \<Rightarrow> wl_reader" where
  "Suppress now r = r\<lparr>barrier := now + debounce\<rparr>"

definition DataOffer :: "('m, 's) wl_lib \<Rightarrow> 's \<Rightarrow> wl_reader \<Rightarrow> u32 option \<Rightarrow> wl_reader \<times> 's" where
  "DataOffer L s r offer =
     (case offer of
        None \<Rightarrow> (r, s)
      | Some i \<Rightarrow>
          (r\<lparr>currentOffer := Some i, mimeTypes := [], listening := i # listening r\<rparr>,
           case currentOffer r of Some old \<Rightarrow> Offer_Destroy L s old | None \<Rightarrow> s))"

definition reader_Offer :: "wl_reader \<Rightarrow> gostring \<Rightarrow> wl_reader" where
  "reader_Offer r mimeType = r\<lparr>mimeTypes := mimeTypes r @ [mimeType]\<rparr>"

definition allowed :: "int \<Rightarrow> wl_reader \<Rightarrow> bool \<times> wl_reader" where
  "allowed now r =
     (let deadline = barrier r; newDeadline = now + debounce in
      if now < deadline then (False, r\<lparr>barrier := newDeadline\<rparr>) else (True, r\<lparr>barrier := newDeadline\<rparr>))"

fun selectBestMimeType :: "(gostring \<Rightarrow> gostring) \<Rightarrow> gostring list \<Rightarrow> gostring" where
  "selectBestMimeType uni [] = []"
| "selectBestMimeType uni (availMime # ms) =
     (if IsSupported uni availMime then availMime
      else if index_byte availMime 59 \<noteq> - 1 \<and> IsSupported uni (take (nat (index_byte availMime 59)) availMime)
      then availMime
      else selectBestMimeType uni ms)"

text \<open>\<open>pipe\<close> is what making a pipe gives. The result says from which content type reading starts.\<close>

definition Selection ::
  "('m, 's) wl_lib \<Rightarrow> (gostring \<Rightarrow> gostring) \<Rightarrow> int \<Rightarrow> nat option \<Rightarrow> 's \<Rightarrow> wl_reader \<Rightarrow> u32 option
   \<Rightarrow> gostring option \<times> wl_reader \<times> 's" where
  "Selection L uni now pipe s r offer =
     (let (ok, r1) = allowed now r in
      if \<not> ok then (None, r1, s)
      else
        (case offer of
           None \<Rightarrow> (None, r1, s)
         | Some i \<Rightarrow>
             (let selectedMime = selectBestMimeType uni (mimeTypes r1) in
              if selectedMime = [] then (None, r1, s)
              else
                (case pipe of
                   None \<Rightarrow> (None, r1, s)
                 | Some wfd \<Rightarrow> (Some selectedMime, r1, Offer_Receive L s i selectedMime wfd)))))"

text \<open>
  What reading the pipe gives: the bytes read, and the error that ended the reading (\<open>None\<close> at the
  end of the data). The timer of \<open>readPipeData\<close> closes the pipe, which is the error \<open>PipeClosed\<close>.
\<close>

datatype pipe_error = PipeClosed | PipeError gostring

definition isExpectedError :: "gostring \<Rightarrow> bool" where
  "isExpectedError s \<longleftrightarrow>
     contains s (str ''bad file descriptor'') \<or> contains s (str ''poll error'')
     \<or> contains s (str ''use of closed network connection'')"

definition send_updates :: "wl_reader \<Rightarrow> update list \<Rightarrow> wl_reader" where
  "send_updates r us = (if r_closed r then r else r\<lparr>dataChan := dataChan r @ us\<rparr>)"

definition readPipeData ::
  "(gostring \<Rightarrow> gostring) \<Rightarrow> (byte list \<Rightarrow> u64) \<Rightarrow> (byte list \<Rightarrow> byte list) \<Rightarrow> lstat \<Rightarrow> clip_options
   \<Rightarrow> wl_reader \<Rightarrow> gostring \<Rightarrow> byte list \<times> pipe_error option \<Rightarrow> wl_reader" where
  "readPipeData uni xxhash xxsum lstat opts r mimeType res =
     (case res of (dat, err) \<Rightarrow>
        if err \<noteq> None \<and> err \<noteq> Some PipeClosed then r
        else if dat = [] then r
        else if AsType uni mimeType = TypePath then
          (if \<not> AllowCopyFiles opts then r
           else
             (let (updates, batchHash) = UpdatesFromRawPath xxhash xxsum lstat dat (MaxClipboardFiles opts) in
              if updates = [] then r
              else
                (let ((_, isNew), d) = dedup_Check xxhash (dedup r) batchHash in
                 if isNew then send_updates (r\<lparr>dedup := d\<rparr>) updates else r\<lparr>dedup := d\<rparr>)))
        else
          (let ((h, isNew), d) = dedup_Check xxhash (dedup r) dat in
           if isNew then
             send_updates (r\<lparr>dedup := d\<rparr>)
               [\<lparr>u_Data = dat, u_Size = 0, u_MimeType = AsType uni mimeType, u_Hash = h, u_BatchID = 0, u_BatchTotal = 0\<rparr>]
           else r\<lparr>dedup := d\<rparr>))"

definition reader_Close :: "('m, 's) wl_lib \<Rightarrow> 's \<Rightarrow> wl_reader \<Rightarrow> wl_reader \<times> 's" where
  "reader_Close L s r =
     (r\<lparr>r_closed := True\<rparr>, case currentOffer r of Some i \<Rightarrow> Offer_Destroy L s i | None \<Rightarrow> s)"

section \<open>Writer\<close>

text \<open>A source is remembered with the bytes it serves and whether it was cancelled.\<close>

record wl_writer =
  activeSource :: "u32 option"
  sources :: "(u32 \<times> byte list) list"
  cancelled :: "u32 list"
  wr_closed :: bool

definition newWriter :: wl_writer where
  "newWriter = \<lparr>activeSource = None, sources = [], cancelled = [], wr_closed = False\<rparr>"

definition offerText :: "gostring list" where
  "offerText = [str ''text/plain;charset=utf-8'', str ''text/plain'', str ''TEXT'', str ''STRING'', str ''UTF8_STRING'']"

definition offerPath :: "gostring list" where
  "offerPath = [str ''text/uri-list'', str ''x-special/gnome-copied-files''] @ offerText"

definition offerImage :: "gostring list" where
  "offerImage = [str ''image/png'', str ''image/jpeg'', str ''image/gif'', str ''image/bmp'', str ''image/webp'']"

definition offerBinary :: "gostring list" where
  "offerBinary = [str ''application/octet-stream'']"

fun convertMimeType :: "mime_type \<Rightarrow> gostring list" where
  "convertMimeType TypeText = offerText"
| "convertMimeType TypePath = offerPath"
| "convertMimeType TypeImage = offerImage"
| "convertMimeType _ = offerBinary"

datatype write_error = ErrWriterClosed | ErrNoManager | ErrClipboardClosed

text \<open>\<open>None\<close>: the device is still nil when its method is called, which panics.\<close>

definition writer_Write ::
  "('m, 's) wl_lib \<Rightarrow> wl_preset \<Rightarrow> int \<Rightarrow> 's \<Rightarrow> wl_writer \<Rightarrow> wl_reader \<Rightarrow> mime_type \<Rightarrow> byte list
   \<Rightarrow> ((write_error + nat) \<times> wl_writer \<times> wl_reader \<times> 's) option" where
  "writer_Write L p now s w r t dat =
     (if dat = [] then Some (Inr 0, w, r, s)
      else if wr_closed w then Some (Inl ErrWriterClosed, w, r, s)
      else
        (case deviceManager p of
           None \<Rightarrow> Some (Inl ErrNoManager, w, r, s)
         | Some mgr \<Rightarrow>
             (let (source, s1) = CreateDataSource L s mgr;
                  dataCopy = (if t = TypePath then FormatURIList dat else dat);
                  s2 = foldl (\<lambda>s. Source_Offer L s source) s1 (convertMimeType t);
                  r' = Suppress now r
              in case wl_device p of
                   None \<Rightarrow> None
                 | Some d \<Rightarrow>
                     Some (Inr (length dat),
                       w\<lparr>activeSource := Some source, sources := (source, dataCopy) # sources w\<rparr>,
                       r', SetSelection L s2 d (Some source)))))"

text \<open>
  The sending of a source's bytes to a file: each write reports how many bytes it took and its error.
  The first result is how many bytes were written, the second the error that ended the loop, the
  third whether it is still waiting for a write to return.
\<close>

fun Send_loop :: "byte list \<Rightarrow> nat \<Rightarrow> (nat \<times> gostring option) list \<Rightarrow> nat \<times> gostring option \<times> bool" where
  "Send_loop dat tot ws =
     (if length dat \<le> tot then (tot, None, False)
      else
        (case ws of
           [] \<Rightarrow> (tot, None, True)
         | (n, err) # ws' \<Rightarrow>
             (case err of
                Some e \<Rightarrow> (tot + n, Some e, False)
              | None \<Rightarrow> Send_loop dat (tot + n) ws')))"

text \<open>The errors after which the other side has simply gone; an error is given with the errors it wraps.\<close>

datatype socket_error = EPIPE | ECONNRESET | EDESTADDRREQ | EBADF | FileClosed | OtherSocketError gostring

definition isExpectedSocketError :: "socket_error list \<Rightarrow> bool" where
  "isExpectedSocketError err =
     (if EPIPE \<in> set err then True
      else if ECONNRESET \<in> set err then True
      else if EDESTADDRREQ \<in> set err then True
      else if EBADF \<in> set err then True
      else if FileClosed \<in> set err then True
      else False)"

definition Cancelled :: "('m, 's) wl_lib \<Rightarrow> 's \<Rightarrow> wl_writer \<Rightarrow> u32 \<Rightarrow> wl_writer \<times> 's" where
  "Cancelled L s w source =
     (if source \<in> set (cancelled w) then (w, s)
      else (w\<lparr>cancelled := source # cancelled w\<rparr>, Source_Destroy L s source))"

definition writer_Close :: "('m, 's) wl_lib \<Rightarrow> wl_preset \<Rightarrow> 's \<Rightarrow> wl_writer \<Rightarrow> (wl_writer \<times> 's) option" where
  "writer_Close L p s w =
     (case wl_device p of
        None \<Rightarrow> None
      | Some d \<Rightarrow> Some (w\<lparr>wr_closed := True, activeSource := None\<rparr>, SetSelection L s d None))"

section \<open>Clipboard\<close>

record 's wlr =
  wl_state :: 's
  preset :: wl_preset
  rd :: wl_reader
  wr :: wl_writer
  c_closed :: bool
  reading :: "gostring list"

text \<open>The callbacks of the device, of an offer and of a source (reader and writer), as the loop runs them.\<close>

definition handle_wl ::
  "('m, 's) wl_lib \<Rightarrow> (gostring \<Rightarrow> gostring) \<Rightarrow> int \<Rightarrow> nat option \<Rightarrow> 's wlr \<Rightarrow> u32 \<Rightarrow> wl_event \<Rightarrow> 's wlr" where
  "handle_wl L uni now pipe W obj ev =
     (case ev of
        EvDataOffer i \<Rightarrow> (let (r, s) = DataOffer L (wl_state W) (rd W) (Some i) in W\<lparr>rd := r, wl_state := s\<rparr>)
      | EvSelection i \<Rightarrow>
          (let (start, r, s) = Selection L uni now pipe (wl_state W) (rd W) (Some i)
           in W\<lparr>rd := r, wl_state := s, reading := reading W @ (case start of Some t \<Rightarrow> [t] | None \<Rightarrow> [])\<rparr>)
      | EvOffer t \<Rightarrow> if obj \<in> set (listening (rd W)) then W\<lparr>rd := reader_Offer (rd W) t\<rparr> else W
      | EvCancelled \<Rightarrow> (let (w, s) = Cancelled L (wl_state W) (wr W) obj in W\<lparr>wr := w, wl_state := s\<rparr>)
      | _ \<Rightarrow> W)"

text \<open>
  What the loop of \<open>run\<close> meets: the end of the context (with what closing the client gives), the end
  of the events, an event whose dispatch fails, or a callback at a time, with the pipe it would get.
\<close>

datatype run_input =
    RunDone "gostring option"
  | EventsEnd
  | RunFails wl_error
  | RunEvent int "nat option" u32 wl_event

datatype run_error = RunSetup setup_error | RunEventError wl_error | RunClose gostring

text \<open>The result of the loop: \<open>None\<close> while it runs.\<close>

fun run_loop ::
  "('m, 's) wl_lib \<Rightarrow> (gostring \<Rightarrow> gostring) \<Rightarrow> 's wlr \<Rightarrow> run_input list \<Rightarrow> run_error option option \<times> 's wlr" where
  "run_loop L uni W [] = (None, W)"
| "run_loop L uni W (RunDone e # is) = (Some (map_option RunClose e), W)"
| "run_loop L uni W (EventsEnd # is) = (Some None, W)"
| "run_loop L uni W (RunFails e # is) = (Some (Some (RunEventError e)), W)"
| "run_loop L uni W (RunEvent now pipe obj ev # is) = run_loop L uni (handle_wl L uni now pipe W obj ev) is"

definition run ::
  "('m, 's) wl_lib \<Rightarrow> (gostring \<Rightarrow> gostring) \<Rightarrow> gostring \<Rightarrow> ('s \<Rightarrow> u32 \<Rightarrow> u32 \<Rightarrow> u32 \<times> 's) \<Rightarrow> 's wlr
   \<Rightarrow> (u32 \<times> gostring \<times> u32) list \<Rightarrow> gostring option \<Rightarrow> run_input list \<Rightarrow> run_error option option \<times> 's wlr" where
  "run L uni SeatInterface BindSeat W globals roundTrip is =
     (let (err, p, s) = Setup L SeatInterface BindSeat (preset W) (wl_state W) globals roundTrip;
          W' = W\<lparr>preset := p, wl_state := s\<rparr>
      in case err of Some e \<Rightarrow> (Some (Some (RunSetup e)), W') | None \<Rightarrow> run_loop L uni W' is)"

text \<open>\<open>Watch\<close> makes the reader and the writer, runs, and marks the reader closed when \<open>run\<close> returns.\<close>

definition Watch ::
  "('m, 's) wl_lib \<Rightarrow> (gostring \<Rightarrow> gostring) \<Rightarrow> gostring \<Rightarrow> ('s \<Rightarrow> u32 \<Rightarrow> u32 \<Rightarrow> u32 \<times> 's) \<Rightarrow> 's wlr
   \<Rightarrow> (u32 \<times> gostring \<times> u32) list \<Rightarrow> gostring option \<Rightarrow> run_input list \<Rightarrow> run_error option option \<times> 's wlr" where
  "Watch L uni SeatInterface BindSeat W globals roundTrip is =
     (let (res, W') = run L uni SeatInterface BindSeat (W\<lparr>rd := newReader, wr := newWriter\<rparr>) globals roundTrip is
      in (res, if res = None then W' else W'\<lparr>rd := (rd W')\<lparr>r_closed := True\<rparr>\<rparr>))"

definition wlr_Write ::
  "('m, 's) wl_lib \<Rightarrow> int \<Rightarrow> 's wlr \<Rightarrow> mime_type \<Rightarrow> byte list \<Rightarrow> ((write_error + nat) \<times> 's wlr) option" where
  "wlr_Write L now W t dat =
     (if c_closed W then Some (Inl ErrClipboardClosed, W)
      else map_option (\<lambda>(res, w, r, s). (res, W\<lparr>wr := w, rd := r, wl_state := s\<rparr>))
             (writer_Write L (preset W) now (wl_state W) (wr W) (rd W) t dat))"

definition wlr_Close :: "('m, 's) wl_lib \<Rightarrow> 's wlr \<Rightarrow> 's wlr option" where
  "wlr_Close L W =
     (case writer_Close L (preset W) (wl_state W) (wr W) of
        None \<Rightarrow> None
      | Some (w, s1) \<Rightarrow>
          (let (r, s2) = reader_Close L s1 (rd W)
           in Some (W\<lparr>c_closed := True, wr := w, rd := r, wl_state := s2\<rparr>)))"

section \<open>Debouncing\<close>

text \<open>The selections that arrive at the given times, and which of them are let through.\<close>

fun allowed_run :: "wl_reader \<Rightarrow> int list \<Rightarrow> bool list" where
  "allowed_run r [] = []"
| "allowed_run r (t # ts) = (let (ok, r') = allowed t r in ok # allowed_run r' ts)"

lemma allowed_fst [simp]: "fst (allowed now r) \<longleftrightarrow> barrier r \<le> now"
  by (simp add: allowed_def Let_def)

lemma allowed_snd [simp]: "snd (allowed now r) = r\<lparr>barrier := now + debounce\<rparr>"
  by (simp add: allowed_def Let_def)

lemma allowed_run_Cons [simp]:
  "allowed_run r (t # ts) = (barrier r \<le> t) # allowed_run (r\<lparr>barrier := t + debounce\<rparr>) ts"
  by (simp add: case_prod_beta)

declare allowed_run.simps(2) [simp del]

lemma allowed_run_nth:
  "i < length ts \<Longrightarrow>
   allowed_run r ts ! i \<longleftrightarrow> (if i = 0 then barrier r \<le> ts ! 0 else ts ! (i - 1) + debounce \<le> ts ! i)"
proof (induction ts arbitrary: r i)
  case (Cons t ts)
  then show ?case by (cases i) (auto simp: nth_Cons split: nat.splits)
qed simp

lemma selection_suppressed:
  "now < barrier r \<Longrightarrow> Selection L uni now pipe s r offer = (None, Suppress now r, s)"
  by (simp add: Selection_def allowed_def Suppress_def Let_def)

section \<open>What a pipe delivers\<close>

lemma read_text:
  assumes "dat \<noteq> []" "err = None \<or> err = Some PipeClosed" "AsType uni mt \<noteq> TypePath"
    "xxhash dat \<noteq> lastHash (dedup r)" "\<not> r_closed r"
  shows "readPipeData uni xxhash xxsum lstat opts r mt (dat, err) =
    r\<lparr>dedup := \<lparr>lastHash = xxhash dat\<rparr>, dataChan := dataChan r @
      [\<lparr>u_Data = dat, u_Size = 0, u_MimeType = AsType uni mt, u_Hash = xxhash dat, u_BatchID = 0, u_BatchTotal = 0\<rparr>]\<rparr>"
  using assms by (cases "dedup r") (auto simp: readPipeData_def dedup_Check_def dedup_Hash_def send_updates_def Let_def)

text \<open>A label with parameters that is taken for its base: the type of the whole label is unknown.\<close>

lemma selected_unknown:
  "selectBestMimeType uni ms = t \<Longrightarrow> \<not> IsSupported uni t \<Longrightarrow> AsType uni t = TypeUnknown"
  by (simp add: IsSupported_def AsType_def)

text \<open>The first type offered for a text or a picture is supported, and stands for it.\<close>

lemma offered_first:
  "selectBestMimeType uni (convertMimeType TypeText) = hd (convertMimeType TypeText)"
  "selectBestMimeType uni (convertMimeType TypeImage) = hd (convertMimeType TypeImage)"
  "AsType uni (hd (convertMimeType TypeText)) = TypeText" "AsType uni (hd (convertMimeType TypeImage)) = TypeImage"
  "convertMimeType TypeText \<noteq> []" "convertMimeType TypeImage \<noteq> []"
  "hd (convertMimeType TypeText) \<noteq> []" "hd (convertMimeType TypeImage) \<noteq> []"
  by code_simp+

section \<open>Serving a source\<close>

declare Send_loop.simps [simp del]

lemma Send_loop_done [simp]: "length dat \<le> tot \<Longrightarrow> Send_loop dat tot ws = (tot, None, False)"
  by (simp add: Send_loop.simps)

lemma Send_loop_Nil [simp]: "tot < length dat \<Longrightarrow> Send_loop dat tot [] = (tot, None, True)"
  by (simp add: Send_loop.simps)

lemma Send_loop_Cons [simp]:
  "tot < length dat \<Longrightarrow> Send_loop dat tot ((n, err) # ws) =
     (case err of Some e \<Rightarrow> (tot + n, Some e, False) | None \<Rightarrow> Send_loop dat (tot + n) ws)"
  by (subst Send_loop.simps) simp

lemma Send_loop_ends:
  "length dat - tot \<le> length ws \<Longrightarrow> \<forall>w \<in> set ws. 0 < fst w \<Longrightarrow> \<not> snd (snd (Send_loop dat tot ws))"
proof (induction ws arbitrary: tot)
  case (Cons w ws)
  show ?case
  proof (cases "length dat \<le> tot")
    case False
    obtain n err where w: "w = (n, err)" by (cases w)
    have "length dat - (tot + n) \<le> length ws" "\<forall>w \<in> set ws. 0 < fst w"
      using Cons.prems False by (auto simp: w)
    then have "\<not> snd (snd (Send_loop dat (tot + n) ws))" by (rule Cons.IH)
    then show ?thesis using False by (simp add: w split: option.split)
  qed simp
qed simp

lemma Send_loop_all:
  "fst (snd (Send_loop dat tot ws)) = None \<Longrightarrow> \<not> snd (snd (Send_loop dat tot ws))
   \<Longrightarrow> length dat \<le> fst (Send_loop dat tot ws)"
proof (induction ws arbitrary: tot)
  case Nil
  then show ?case by (cases "length dat \<le> tot") auto
next
  case (Cons w ws)
  obtain n err where w: "w = (n, err)" by (cases w)
  from Cons show ?case by (cases "length dat \<le> tot") (auto simp: w split: option.splits)
qed

section \<open>Properties\<close>

text \<open>The sliding window of the debounce: of a series of selection events the first is let through
  when the barrier has passed, and every later one exactly when it comes at least 200 ms after the
  event before it, whether or not that one was let through. A burst of events with shorter gaps is
  dropped to its end, so the content selected last in the burst is never read.\<close>

theorem debounce_sliding:
  "allowed_run r ts = map (\<lambda>i. if i = 0 then barrier r \<le> ts ! 0 else ts ! (i - 1) + debounce \<le> ts ! i) [0 ..< length ts]"
proof (rule nth_equalityI)
  show len: "length (allowed_run r ts) = length (map (\<lambda>i. if i = 0 then barrier r \<le> ts ! 0 else ts ! (i - 1) + debounce \<le> ts ! i) [0 ..< length ts])"
    by (induction ts arbitrary: r) auto
  fix i assume "i < length (allowed_run r ts)"
  then have "i < length ts" using len by simp
  then show "allowed_run r ts ! i = map (\<lambda>i. if i = 0 then barrier r \<le> ts ! 0 else ts ! (i - 1) + debounce \<le> ts ! i) [0 ..< length ts] ! i"
    by (simp add: allowed_run_nth)
qed

text \<open>C28. The node does not read back what it wrote: after a successful write of some bytes, a selection
  event that comes within 200 ms starts no reading, queues no request and only moves the barrier.\<close>

theorem own_write_not_read:
  assumes "wlr_Write L now W t dat = Some (Inr n, W')" "dat \<noteq> []" "now' < now + debounce"
  shows "Selection L uni now' pipe (wl_state W') (rd W') offer = (None, Suppress now' (rd W'), wl_state W')"
proof -
  have "barrier (rd W') = now + debounce"
    using assms by (auto simp: wlr_Write_def writer_Write_def Suppress_def Let_def
      split: if_splits option.splits prod.splits)
  then show ?thesis using assms(3) by (simp add: selection_suppressed)
qed

definition example_wl :: "(unit, nat) wl_lib" where
  "example_wl = \<lparr>msg_Op = (\<lambda>_. 0), ReadUint = (\<lambda>m. (0, m)), ReadString = (\<lambda>m. ([], m)), ReadFile = (\<lambda>m. (0, m)),
     msg_Err = (\<lambda>_. None), state_Get = (\<lambda>_ _. None), state_Add = (\<lambda>s ob. (of_nat s, Suc s)),
     state_Enqueue = (\<lambda>s _. s), registry_Bind = (\<lambda>s _ _ _ _. s)\<rparr>"

definition example_wlr :: "nat wlr" where
  "example_wlr = \<lparr>wl_state = 4, preset = \<lparr>seat = Some 1, deviceManager = Some 2, wl_device = Some 3\<rparr>,
     rd = newReader, wr = newWriter, c_closed = False, reading = []\<rparr>"

definition example_after :: "nat wlr" where
  "example_after = snd (the (wlr_Write example_wl 0 example_wlr TypeText [65]))"

lemma example_written:
  "wlr_Write example_wl 0 example_wlr TypeText [65] = Some (Inr 1, example_after)"
  by (simp add: example_after_def wlr_Write_def writer_Write_def example_wl_def example_wlr_def newWriter_def
    CreateDataSource_def Source_Offer_def SetSelection_def enqueue_def Let_def offerText_def)

theorem own_write_not_read_witness:
  "Selection example_wl id 1 None (wl_state example_after) (rd example_after) (Some 9)
   = (None, Suppress 1 (rd example_after), wl_state example_after)"
  by (rule own_write_not_read [OF example_written]) (simp_all add: debounce_def)



text \<open>A pipe that is still being written when the 200 ms timer closes it delivers what was read so
  far as the whole content: a new text that was read up to any length \<open>k\<close> is announced cut to \<open>k\<close>
  bytes, under the hash of the cut text, with no sign that the rest is missing.\<close>

theorem slow_pipe_truncates:
  assumes "0 < k" "dat \<noteq> []" "AsType uni mt \<noteq> TypePath" "xxhash (take k dat) \<noteq> lastHash (dedup r)" "\<not> r_closed r"
  shows "dataChan (readPipeData uni xxhash xxsum lstat opts r mt (take k dat, Some PipeClosed)) =
    dataChan r @ [\<lparr>u_Data = take k dat, u_Size = 0, u_MimeType = AsType uni mt, u_Hash = xxhash (take k dat),
      u_BatchID = 0, u_BatchTotal = 0\<rparr>]"
  using assms by (subst read_text) auto

theorem slow_pipe_truncates_witness:
  "dataChan (readPipeData id (\<lambda>b. of_nat (length b)) (\<lambda>b. b) (\<lambda>_. None)
       \<lparr>AllowCopyFiles = False, MaxFileSize = 0, MaxClipboardFiles = 0\<rparr> newReader (str ''text'')
       (take 1 [65, 66], Some PipeClosed))
   = [\<lparr>u_Data = take 1 [65, 66], u_Size = 0, u_MimeType = TypeText, u_Hash = 1, u_BatchID = 0, u_BatchTotal = 0\<rparr>]"
proof -
  have t: "AsType id (str ''text'') = TypeText" by code_simp
  show ?thesis
    by (subst slow_pipe_truncates) (simp_all only: t, simp_all add: newReader_def)
qed



end
