(* ===== verification/Discovery.thy ===== *)
theory Discovery
  imports Node
begin

text \<open>
  Discovery of nodes on the local network (\<open>internal/discovering\<close>, \<open>pkg/network/ip.go\<close>). The
  discovery protocol is third-party: it is given the settings below and calls \<open>Notify\<close> for every
  answer. An interface of the machine is its name and its addresses as \<open>IP.String\<close> prints them
  (\<open>None\<close> for an address that does not parse), or \<open>None\<close> when its addresses cannot be read.
\<close>

section \<open>Local addresses\<close>

definition localIPs :: "gostring list" where
  "localIPs = [str ''localhost'', str ''127.0.0.1'', str ''::1'', str ''0.0.0.0'']"

type_synonym net_iface = "gostring \<times> gostring option list option"

fun addr_keys :: "gostring \<Rightarrow> gostring option list \<Rightarrow> gostring list" where
  "addr_keys name [] = []"
| "addr_keys name (None # as) = addr_keys name as"
| "addr_keys name (Some ip # as) = (ip @ str ''%'' @ name) # ip # addr_keys name as"

fun iface_keys :: "net_iface list \<Rightarrow> gostring list" where
  "iface_keys [] = []"
| "iface_keys ((name, None) # ifs) = iface_keys ifs"
| "iface_keys ((name, Some addrs) # ifs) = addr_keys name addrs @ iface_keys ifs"

text \<open>The keys of the map; \<open>None\<close> when the interfaces cannot be listed.\<close>

definition LocalIPs :: "net_iface list option \<Rightarrow> gostring list" where
  "LocalIPs ifaces = localIPs @ (case ifaces of None \<Rightarrow> [] | Some ifs \<Rightarrow> iface_keys ifs)"

definition IsLocalIP :: "net_iface list option \<Rightarrow> gostring \<Rightarrow> bool" where
  "IsLocalIP ifaces ip \<longleftrightarrow> ip \<in> set (LocalIPs ifaces)"

section \<open>Discover\<close>

record discover =
  maxPeers :: int
  delay :: int
  port :: int

definition defaultConfig :: discover where
  "defaultConfig = \<lparr>maxPeers = 10, delay = 5 * 60 * 1000000000, port = 0\<rparr>"

definition WithMaxPeers :: "int \<Rightarrow> discover \<Rightarrow> discover" where
  "WithMaxPeers n d = d\<lparr>maxPeers := n\<rparr>"

definition WithDelay :: "int \<Rightarrow> discover \<Rightarrow> discover" where
  "WithDelay t d = d\<lparr>delay := t\<rparr>"

definition discover_WithPort :: "int \<Rightarrow> discover \<Rightarrow> discover" where
  "discover_WithPort p d = d\<lparr>port := p\<rparr>"

definition discover_New :: "(discover \<Rightarrow> discover) list \<Rightarrow> discover" where
  "discover_New opts =
     foldl (\<lambda>d opt. opt d) \<lparr>maxPeers = maxPeers defaultConfig, delay = delay defaultConfig, port = port defaultConfig\<rparr> opts"

record discover_settings =
  ds_Payload :: "byte list"
  ds_Limit :: int
  ds_TimeLimit :: int
  ds_Delay :: int
  ds_AllowSelf :: bool

text \<open>The settings the protocol is started with; \<open>None\<close>: encoding the payload panics.\<close>

definition settings :: "discover \<Rightarrow> node_options \<Rightarrow> gotime \<Rightarrow> discover_settings option" where
  "settings d opts now =
     map_option (\<lambda>payload. \<lparr>ds_Payload = payload, ds_Limit = maxPeers d, ds_TimeLimit = - 1, ds_Delay = delay d, ds_AllowSelf = False\<rparr>)
       (DiscoveryPayload opts now)"

text \<open>\<open>ip\<close> is the address of the answer as \<open>net.ParseIP\<close> and \<open>String\<close> give it.\<close>

definition Notify ::
  "net_iface list option \<Rightarrow> node_options \<Rightarrow> gotime \<Rightarrow> (gostring \<Rightarrow> dial_result) \<Rightarrow> node \<Rightarrow> gostring \<times> byte list \<Rightarrow> node option" where
  "Notify ifaces opts now dial N answer =
     (case answer of (ip, payload) \<Rightarrow>
        if IsLocalIP ifaces ip then Some N else PeerDiscovered opts now dial N ip payload)"

fun Notify_all ::
  "net_iface list option \<Rightarrow> node_options \<Rightarrow> gotime \<Rightarrow> (gostring \<Rightarrow> dial_result) \<Rightarrow> node \<Rightarrow> (gostring \<times> byte list) list \<Rightarrow> node option" where
  "Notify_all ifaces opts now dial N [] = Some N"
| "Notify_all ifaces opts now dial N (a # as) =
     Option.bind (Notify ifaces opts now dial N a) (\<lambda>N'. Notify_all ifaces opts now dial N' as)"

section \<open>Lemmas\<close>

lemma iface_keys_iff:
  "ip \<in> set (iface_keys ifs) \<longleftrightarrow>
   (\<exists>name addrs a. (name, Some addrs) \<in> set ifs \<and> Some a \<in> set addrs \<and> (ip = a \<or> ip = a @ str ''%'' @ name))"
proof -
  have addr: "ip \<in> set (addr_keys name addrs) \<longleftrightarrow> (\<exists>a. Some a \<in> set addrs \<and> (ip = a \<or> ip = a @ str ''%'' @ name))" for name addrs
    by (induction name addrs rule: addr_keys.induct) auto
  show ?thesis by (induction ifs rule: iface_keys.induct) (auto simp: addr)
qed

lemma Notify_ok:
  assumes "options_ok opts" "node_ok N"
  shows "\<exists>N'. Notify ifaces opts now dial N answer = Some N' \<and> node_ok N'"
  using PeerDiscovered_ok [OF assms] assms(2) by (auto simp: Notify_def split: prod.split)

lemma Notify_all_ok:
  "options_ok opts \<Longrightarrow> node_ok N \<Longrightarrow> \<exists>N'. Notify_all ifaces opts now dial N answers = Some N' \<and> node_ok N'"
proof (induction answers arbitrary: N)
  case (Cons a as)
  obtain N' where "Notify ifaces opts now dial N a = Some N'" "node_ok N'"
    using Notify_ok [OF Cons.prems] by blast
  then show ?case using Cons.IH [OF Cons.prems(1)] by simp
qed simp

section \<open>Properties\<close>

text \<open>A node never connects to itself through one of its own addresses: the answers that come from an
  address of the machine (the fixed local ones, and those of its interfaces, with or without the
  interface's name) have no effect; the node is left as the other answers alone would leave it.\<close>

theorem local_answers_ignored:
  "Notify_all ifaces opts now dial N answers =
     Notify_all ifaces opts now dial N (filter (\<lambda>a. \<not> IsLocalIP ifaces (fst a)) answers)"
proof (induction answers arbitrary: N)
  case (Cons a as)
  then show ?case by (cases a) (simp add: Notify_def)
qed simp

end
