(* ===== verification/Transports.thy ===== *)
theory Transports
  imports Security
begin

text \<open>
  The two transports (\<open>internal/transport/quic\<close>, \<open>internal/transport/tcp\<close>): what their adapters add to
  the QUIC and yamux libraries, which are third-party. A library call is represented by its answer,
  an argument of the adapter's operation. An error is given with the errors it wraps, outermost
  first, as \<open>errors.Is\<close> and \<open>errors.As\<close> walk them; connections and listeners are numbers.
\<close>

datatype 'e transport_error = ErrStreamCanceled | ErrConnectionClosed | Unmapped "'e list"

section \<open>QUIC\<close>

datatype quic_error = StreamError u64 | QuicOther gostring

record quic_transport =
  q_tlsConf :: tls_config
  KeepAlivePeriod :: int

definition quic_New :: "tls_config \<Rightarrow> int \<Rightarrow> quic_transport" where
  "quic_New tlsConf keepAlive = \<lparr>q_tlsConf = tlsConf, KeepAlivePeriod = keepAlive\<rparr>"

definition stopSend :: u64 where
  "stopSend = 0"

text \<open>\<open>errors.As\<close>: the first stream error of the chain.\<close>

fun as_stream_error :: "quic_error list \<Rightarrow> u64 option" where
  "as_stream_error [] = None"
| "as_stream_error (StreamError code # es) = Some code"
| "as_stream_error (QuicOther _ # es) = as_stream_error es"

definition mapQuicError :: "quic_error list \<Rightarrow> quic_error transport_error" where
  "mapQuicError err =
     (case as_stream_error err of
        Some code \<Rightarrow> if code = stopSend then ErrStreamCanceled else Unmapped err
      | None \<Rightarrow> Unmapped err)"

text \<open>\<open>Listen\<close>, \<open>Dial\<close>, \<open>Accept\<close>, \<open>OpenStream\<close> and \<open>AcceptStream\<close>: the answer with its error mapped.\<close>

definition quic_call :: "quic_error list + nat \<Rightarrow> quic_error transport_error + nat" where
  "quic_call answer = map_sum mapQuicError id answer"

definition quic_Dial :: "quic_error list + nat \<Rightarrow> quic_error transport_error + nat" where
  "quic_Dial dialed = quic_call dialed"

definition quic_Accept :: "quic_error list + nat \<Rightarrow> quic_error transport_error + nat" where
  "quic_Accept accepted = quic_call accepted"

definition quic_OpenStream :: "quic_error list + nat \<Rightarrow> quic_error transport_error + nat" where
  "quic_OpenStream opened = quic_call opened"

definition quic_AcceptStream :: "quic_error list + nat \<Rightarrow> quic_error transport_error + nat" where
  "quic_AcceptStream accepted = quic_call accepted"

text \<open>The code and the text a connection is closed with.\<close>

definition quic_conn_Close :: "u64 \<times> gostring" where
  "quic_conn_Close = (0, str ''closed'')"

text \<open>A listener is closed by its owner, or by the goroutine that waits for the end of the context.\<close>

record listener =
  l_number :: nat
  l_closed :: bool

definition context_done :: "listener \<Rightarrow> listener" where
  "context_done l = l\<lparr>l_closed := True\<rparr>"

definition quic_Listen :: "quic_error list + nat \<Rightarrow> quic_error transport_error + listener" where
  "quic_Listen answer = map_sum mapQuicError (\<lambda>l. \<lparr>l_number = l, l_closed = False\<rparr>) answer"

text \<open>Closing ends the context first, so that the library's listener is closed twice.\<close>

definition quic_Close :: "quic_error list option \<Rightarrow> listener \<Rightarrow> quic_error transport_error option \<times> listener" where
  "quic_Close answer l = (map_option mapQuicError answer, (context_done l)\<lparr>l_closed := True\<rparr>)"

definition quic_io :: "nat \<times> quic_error list option \<Rightarrow> nat \<times> quic_error transport_error option" where
  "quic_io answer = (case answer of (n, err) \<Rightarrow> (n, map_option mapQuicError err))"

definition quic_Read :: "nat \<times> quic_error list option \<Rightarrow> nat \<times> quic_error transport_error option" where
  "quic_Read answer = quic_io answer"

definition quic_Write :: "nat \<times> quic_error list option \<Rightarrow> nat \<times> quic_error transport_error option" where
  "quic_Write answer = quic_io answer"

datatype quic_stream_call = CancelRead u64 | CancelWrite u64

definition quic_Reset :: "quic_stream_call list" where
  "quic_Reset = [CancelRead stopSend, CancelWrite stopSend]"

section \<open>TCP\<close>

datatype yamux_error =
    ErrSessionShutdown | ErrStreamsExhausted | ErrConnectionReset | ErrStreamClosed | YamuxOther gostring

record tcp_transport =
  t_tlsConf :: tls_config
  keepAlive :: int

definition tcp_New :: "tls_config \<Rightarrow> int \<Rightarrow> tcp_transport" where
  "tcp_New tlsConf keep = \<lparr>t_tlsConf = tlsConf, keepAlive = keep\<rparr>"

definition tcp_mapError :: "yamux_error list \<Rightarrow> yamux_error transport_error" where
  "tcp_mapError err =
     (if ErrSessionShutdown \<in> set err \<or> ErrStreamsExhausted \<in> set err \<or> ErrConnectionReset \<in> set err
      then ErrConnectionClosed
      else if ErrStreamClosed \<in> set err then ErrStreamCanceled
      else Unmapped err)"

record yamux_config =
  EnableKeepAlive :: bool
  KeepAliveInterval :: int
  LogDiscarded :: bool

text \<open>\<open>dflt\<close> is \<open>yamux.DefaultConfig()\<close>.\<close>

definition yamuxConfig :: "yamux_config \<Rightarrow> int \<Rightarrow> yamux_config" where
  "yamuxConfig dflt keep = dflt\<lparr>EnableKeepAlive := True, KeepAliveInterval := keep, LogDiscarded := True\<rparr>"

text \<open>What the adapters do to raw connections: the keep-alive periods set, and the connections closed.\<close>

record raw_conns =
  alive :: "(nat \<times> int) list"
  raw_closed :: "nat list"

text \<open>
  The part \<open>Dial\<close> and \<open>Accept\<close> share: a raw connection (or the error), whether it is TLS over TCP, and
  the error of making a yamux session of it. The result is the session's connection.
\<close>

definition tcp_session ::
  "tcp_transport \<Rightarrow> raw_conns \<Rightarrow> gostring + nat \<times> bool \<Rightarrow> gostring option \<Rightarrow> (gostring + nat) \<times> raw_conns" where
  "tcp_session t S raw session =
     (case raw of
        Inl e \<Rightarrow> (Inl e, S)
      | Inr (c, overTCP) \<Rightarrow>
          (let S1 = (if overTCP then S\<lparr>alive := (c, keepAlive t) # alive S\<rparr> else S) in
           case session of
             Some e \<Rightarrow> (Inl e, S1\<lparr>raw_closed := c # raw_closed S1\<rparr>)
           | None \<Rightarrow> (Inr c, S1)))"

definition tcp_Listen :: "gostring + nat \<Rightarrow> gostring + listener" where
  "tcp_Listen answer = map_sum id (\<lambda>l. \<lparr>l_number = l, l_closed = False\<rparr>) answer"

definition tcp_Close :: "gostring option \<Rightarrow> listener \<Rightarrow> gostring option \<times> listener" where
  "tcp_Close answer l = (answer, (context_done l)\<lparr>l_closed := True\<rparr>)"

text \<open>\<open>Dial\<close> makes the client's end of the session, \<open>Accept\<close> the server's.\<close>

definition tcp_Dial ::
  "tcp_transport \<Rightarrow> raw_conns \<Rightarrow> gostring + nat \<times> bool \<Rightarrow> gostring option \<Rightarrow> (gostring + nat) \<times> raw_conns" where
  "tcp_Dial t S dialed client = tcp_session t S dialed client"

definition tcp_Accept ::
  "tcp_transport \<Rightarrow> raw_conns \<Rightarrow> gostring + nat \<times> bool \<Rightarrow> gostring option \<Rightarrow> (gostring + nat) \<times> raw_conns" where
  "tcp_Accept t S accepted server = tcp_session t S accepted server"

text \<open>\<open>ctxErr\<close> is \<open>ctx.Err()\<close>, which ends \<open>OpenStream\<close> before the session is asked.\<close>

definition tcp_OpenStream ::
  "gostring option \<Rightarrow> yamux_error list + nat \<Rightarrow> yamux_error transport_error + nat" where
  "tcp_OpenStream ctxErr answer =
     (case ctxErr of Some e \<Rightarrow> Inl (Unmapped [YamuxOther e]) | None \<Rightarrow> map_sum tcp_mapError id answer)"

definition tcp_AcceptStream :: "yamux_error list + nat \<Rightarrow> yamux_error transport_error + nat" where
  "tcp_AcceptStream answer = map_sum tcp_mapError id answer"

text \<open>The stream calls a reset makes: yamux is only told to close.\<close>

datatype yamux_stream_call = CloseStream

definition tcp_Reset :: "yamux_stream_call list" where
  "tcp_Reset = [CloseStream]"

text \<open>\<open>Read\<close> and \<open>Write\<close> are the embedded yamux stream's: their errors are not mapped.\<close>

definition tcp_io :: "nat \<times> yamux_error list option \<Rightarrow> nat \<times> yamux_error transport_error option" where
  "tcp_io answer = (case answer of (n, err) \<Rightarrow> (n, map_option Unmapped err))"

section \<open>Lemmas\<close>

lemma mapQuicError_canceled:
  "mapQuicError err = ErrStreamCanceled \<longleftrightarrow> as_stream_error err = Some 0"
  by (simp add: mapQuicError_def stopSend_def split: option.split)

lemma tcp_io_unmapped: "snd (tcp_io answer) \<noteq> Some ErrStreamCanceled"
  by (auto simp: tcp_io_def split: prod.split)

lemma tcp_session_closes:
  "fst (tcp_session t S raw session) = Inl e \<Longrightarrow> raw = Inr (c, overTCP) \<Longrightarrow>
   c \<in> set (raw_closed (snd (tcp_session t S raw session)))"
  by (auto simp: tcp_session_def Let_def split: option.splits if_splits)

text \<open>A raw connection whose session fails is closed, at either end, and is not handed out.\<close>

lemma tcp_failed_session:
  assumes "raw = Inr (c, overTCP)" and "session = Some e"
  shows "fst (tcp_Dial t S raw session) = Inl e \<and> c \<in> set (raw_closed (snd (tcp_Dial t S raw session)))"
    and "fst (tcp_Accept t S raw session) = Inl e \<and> c \<in> set (raw_closed (snd (tcp_Accept t S raw session)))"
  using assms by (auto simp: tcp_Dial_def tcp_Accept_def tcp_session_def Let_def)

section \<open>Properties\<close>

text \<open>A stream that the other side resets: over QUIC its reads end with the error that marks a
  cancelled stream exactly when the first stream error of the chain has code 0; over TCP no error of
  a read or write is ever mapped to it, so there a reset is not told from another failure.\<close>

theorem reset_seen_over_quic_only:
  "(snd (quic_io (n, Some err)) = Some ErrStreamCanceled \<longleftrightarrow> as_stream_error err = Some 0)
   \<and> snd (tcp_io (n, err')) \<noteq> Some ErrStreamCanceled"
  by (simp add: quic_io_def mapQuicError_canceled tcp_io_unmapped)

end
