(* ===== verification/Options.thy ===== *)
theory Options
  imports Discovery Transports FileStore
begin

text \<open>
  The node's options (\<open>internal/node/options.go\<close>, \<open>internal/netstack/port.go\<close>,
  \<open>pkg/clipboard/eventful/eventful.go\<close>), their command line and the wiring of the program
  (\<open>cmd/cli/main.go\<close>). Durations are nanoseconds. The flag library is third-party: a command line is
  the list of the flags it sets, in order. \<open>parseBytes\<close> is the third-party reading of a file size.
\<close>

definition TransportQUIC :: gostring where
  "TransportQUIC = str ''quic''"

definition TransportTCP :: gostring where
  "TransportTCP = str ''tcp''"

definition transport_valid :: "gostring \<Rightarrow> bool" where
  "transport_valid t \<longleftrightarrow> t = TransportTCP \<or> t = TransportQUIC"

text \<open>The value is stored even when it is refused.\<close>

definition Transport_Set :: "gostring \<Rightarrow> bool \<times> gostring" where
  "Transport_Set s = (transport_valid s, s)"

datatype notifier = BeepDecorator gostring | NullNotifier

definition notification_New :: "bool \<Rightarrow> notifier" where
  "notification_New enable = (if enable then BeepDecorator (str ''belphegor'') else NullNotifier)"

record options =
  o_ListenPort :: int
  o_Transport :: gostring
  o_KeepAlive :: int
  o_Read :: int
  o_Write :: int
  o_Notifier :: "notifier option"
  o_Discover :: bool
  o_Delay :: int
  o_DiscoverMaxPeers :: int
  o_Metadata :: device
  o_Secret :: gostring
  o_MaxPeers :: int
  o_Clip :: clip_options
  o_FileSavePath :: gostring
  o_Verbose :: bool
  o_Notify :: bool
  o_ShowVersion :: bool
  o_ShowHelp :: bool
  o_Hidden :: bool
  o_InstallService :: bool

section \<open>Defaults\<close>

text \<open>\<open>seed\<close> is the random number read as big-endian bytes.\<close>

definition RandomPort :: "u64 \<Rightarrow> int" where
  "RandomPort seed = uint (seed mod 1000) + 7000"

definition second :: int where
  "second = 1000000000"

definition DefaultOptions :: "u64 \<Rightarrow> device \<Rightarrow> gostring \<Rightarrow> options" where
  "DefaultOptions seed self tempDir =
     \<lparr>o_ListenPort = RandomPort seed, o_Transport = TransportQUIC, o_KeepAlive = 60 * second,
      o_Read = 60 * second, o_Write = 60 * second, o_Notifier = Some (BeepDecorator []),
      o_Discover = True, o_Delay = 30 * second, o_DiscoverMaxPeers = 10, o_Metadata = self,
      o_Secret = [], o_MaxPeers = 10,
      o_Clip = \<lparr>AllowCopyFiles = True, MaxFileSize = push_bit 29 1, MaxClipboardFiles = 15\<rparr>,
      o_FileSavePath = path_join tempDir (str ''bfg_cache''),
      o_Verbose = False, o_Notify = False, o_ShowVersion = False, o_ShowHelp = False, o_Hidden = False,
      o_InstallService = False\<rparr>"

definition zero_device :: device where
  "zero_device = \<lparr>d_ID = 0, d_Name = [], d_Arch = []\<rparr>"

text \<open>The checks of \<open>Validated\<close>, one per option.\<close>

definition check_port :: "options \<Rightarrow> options \<Rightarrow> options" where
  "check_port defaults opts = (if o_ListenPort opts \<le> 0 \<or> 65535 < o_ListenPort opts then opts\<lparr>o_ListenPort := o_ListenPort defaults\<rparr> else opts)"

definition check_transport :: "options \<Rightarrow> options \<Rightarrow> options" where
  "check_transport defaults opts = (if \<not> transport_valid (o_Transport opts) then opts\<lparr>o_Transport := o_Transport defaults\<rparr> else opts)"

definition check_keep_alive :: "options \<Rightarrow> options \<Rightarrow> options" where
  "check_keep_alive defaults opts = (if o_KeepAlive opts \<le> 0 then opts\<lparr>o_KeepAlive := o_KeepAlive defaults\<rparr> else opts)"

definition check_write :: "options \<Rightarrow> options \<Rightarrow> options" where
  "check_write defaults opts = (if o_Write opts \<le> 0 then opts\<lparr>o_Write := o_Write defaults\<rparr> else opts)"

definition check_read :: "options \<Rightarrow> options \<Rightarrow> options" where
  "check_read defaults opts = (if o_Read opts \<le> 0 then opts\<lparr>o_Read := o_Read defaults\<rparr> else opts)"

definition check_notifier :: "options \<Rightarrow> options \<Rightarrow> options" where
  "check_notifier defaults opts = (if o_Notifier opts = None then opts\<lparr>o_Notifier := o_Notifier defaults\<rparr> else opts)"

definition check_discover_peers :: "options \<Rightarrow> options \<Rightarrow> options" where
  "check_discover_peers defaults opts = (if o_DiscoverMaxPeers opts \<le> 0 then opts\<lparr>o_DiscoverMaxPeers := o_DiscoverMaxPeers defaults\<rparr> else opts)"

definition check_delay :: "options \<Rightarrow> options \<Rightarrow> options" where
  "check_delay defaults opts = (if o_Delay opts \<le> 0 then opts\<lparr>o_Delay := o_Delay defaults\<rparr> else opts)"

definition check_metadata :: "options \<Rightarrow> options \<Rightarrow> options" where
  "check_metadata defaults opts = (if o_Metadata opts = zero_device then opts\<lparr>o_Metadata := o_Metadata defaults\<rparr> else opts)"

definition check_max_peers :: "options \<Rightarrow> options \<Rightarrow> options" where
  "check_max_peers defaults opts = (if o_MaxPeers opts \<le> 0 then opts\<lparr>o_MaxPeers := o_MaxPeers defaults\<rparr> else opts)"

definition check_clip :: "options \<Rightarrow> options \<Rightarrow> options" where
  "check_clip defaults opts =
     (if MaxClipboardFiles (o_Clip opts) \<le> 0
      then opts\<lparr>o_Clip := (o_Clip opts)\<lparr>MaxClipboardFiles := MaxClipboardFiles (o_Clip defaults)\<rparr>\<rparr> else opts)"

text \<open>The last check is made twice, as in the code.\<close>

definition Validated :: "options \<Rightarrow> options \<Rightarrow> options" where
  "Validated defaults opts =
     foldl (\<lambda>opts check. check defaults opts) opts
       [check_port, check_transport, check_keep_alive, check_write, check_read, check_notifier,
        check_discover_peers, check_delay, check_metadata, check_max_peers, check_clip, check_clip]"

section \<open>Command line\<close>

datatype flag =
    FlagPort int
  | FlagNodeDiscover bool
  | FlagDiscoverDelay int
  | FlagKeepAlive int
  | FlagWriteTimeout int
  | FlagReadTimeout int
  | FlagMaxPeers int
  | FlagSecret gostring
  | FlagAllowCopyFiles bool
  | FlagMaxClipboardFiles int
  | FlagTransport gostring
  | FlagConnect gostring
  | FlagVerbose bool
  | FlagNotify bool
  | FlagVersion bool
  | FlagHelp bool
  | FlagHidden bool
  | FlagInstallService bool
  | FlagMaxFileSize gostring
  | FlagFileSavePath gostring

text \<open>\<open>MaxFileSize.Set\<close>: \<open>None\<close> is the error.\<close>

definition MaxFileSize_Set :: "(gostring \<Rightarrow> u64 option) \<Rightarrow> gostring \<Rightarrow> u64 option" where
  "MaxFileSize_Set parseBytes s = parseBytes s"

fun set_flag :: "(gostring \<Rightarrow> u64 option) \<Rightarrow> options \<times> gostring \<Rightarrow> flag \<Rightarrow> (options \<times> gostring) option" where
  "set_flag pb (op, c) (FlagPort p) = Some (op\<lparr>o_ListenPort := p\<rparr>, c)"
| "set_flag pb (op, c) (FlagNodeDiscover b) = Some (op\<lparr>o_Discover := b\<rparr>, c)"
| "set_flag pb (op, c) (FlagDiscoverDelay d) = Some (op\<lparr>o_Delay := d\<rparr>, c)"
| "set_flag pb (op, c) (FlagKeepAlive d) = Some (op\<lparr>o_KeepAlive := d\<rparr>, c)"
| "set_flag pb (op, c) (FlagWriteTimeout d) = Some (op\<lparr>o_Write := d\<rparr>, c)"
| "set_flag pb (op, c) (FlagReadTimeout d) = Some (op\<lparr>o_Read := d\<rparr>, c)"
| "set_flag pb (op, c) (FlagMaxPeers n) = Some (op\<lparr>o_MaxPeers := n\<rparr>, c)"
| "set_flag pb (op, c) (FlagSecret s) = Some (op\<lparr>o_Secret := s\<rparr>, c)"
| "set_flag pb (op, c) (FlagAllowCopyFiles b) = Some (op\<lparr>o_Clip := (o_Clip op)\<lparr>AllowCopyFiles := b\<rparr>\<rparr>, c)"
| "set_flag pb (op, c) (FlagMaxClipboardFiles n) = Some (op\<lparr>o_Clip := (o_Clip op)\<lparr>MaxClipboardFiles := n\<rparr>\<rparr>, c)"
| "set_flag pb (op, c) (FlagTransport s) =
     (case Transport_Set s of (ok, t) \<Rightarrow> if ok then Some (op\<lparr>o_Transport := t\<rparr>, c) else None)"
| "set_flag pb (op, c) (FlagConnect s) = Some (op, s)"
| "set_flag pb (op, c) (FlagVerbose b) = Some (op\<lparr>o_Verbose := b\<rparr>, c)"
| "set_flag pb (op, c) (FlagNotify b) = Some (op\<lparr>o_Notify := b\<rparr>, c)"
| "set_flag pb (op, c) (FlagVersion b) = Some (op\<lparr>o_ShowVersion := b\<rparr>, c)"
| "set_flag pb (op, c) (FlagHelp b) = Some (op\<lparr>o_ShowHelp := b\<rparr>, c)"
| "set_flag pb (op, c) (FlagHidden b) = Some (op\<lparr>o_Hidden := b\<rparr>, c)"
| "set_flag pb (op, c) (FlagInstallService b) = Some (op\<lparr>o_InstallService := b\<rparr>, c)"
| "set_flag pb (op, c) (FlagMaxFileSize s) =
     (case MaxFileSize_Set pb s of Some n \<Rightarrow> Some (op\<lparr>o_Clip := (o_Clip op)\<lparr>MaxFileSize := n\<rparr>\<rparr>, c) | None \<Rightarrow> None)"
| "set_flag pb (op, c) (FlagFileSavePath s) = Some (op\<lparr>o_FileSavePath := s\<rparr>, c)"

fun set_flags :: "(gostring \<Rightarrow> u64 option) \<Rightarrow> options \<times> gostring \<Rightarrow> flag list \<Rightarrow> (options \<times> gostring) option" where
  "set_flags pb st [] = Some st"
| "set_flags pb st (f # fs) = Option.bind (set_flag pb st f) (\<lambda>st'. set_flags pb st' fs)"

datatype parse_result = BadFlag | HelpShown | Parsed options gostring

text \<open>
  The port the flag library starts from is that of a second \<open>DefaultOptions\<close>, and \<open>Validated\<close> makes a
  third: each draws its own seed.
\<close>

definition parseFlags ::
  "(gostring \<Rightarrow> u64 option) \<Rightarrow> u64 \<times> u64 \<times> u64 \<Rightarrow> device \<Rightarrow> gostring \<Rightarrow> flag list \<Rightarrow> parse_result" where
  "parseFlags pb seeds self tempDir flags =
     (case seeds of (s1, s2, s3) \<Rightarrow>
        (let opts = (DefaultOptions s1 self tempDir)\<lparr>o_ListenPort := o_ListenPort (DefaultOptions s2 self tempDir)\<rparr> in
         case set_flags pb (opts, []) flags of
           None \<Rightarrow> BadFlag
         | Some (opts', connectTo) \<Rightarrow>
             if o_ShowHelp opts' then HelpShown
             else Parsed (Validated (DefaultOptions s3 self tempDir) opts') connectTo))"

end
