(* ===== verification/Service.thy ===== *)
theory Service
  imports Paths
begin

text \<open>
  Installing the systemd unit (\<open>internal/service/systemd.go\<close>) and the lock on a second instance
  (\<open>internal/lock/lock.go\<close>). The environment, the executable's path and the answers of the operating
  system are arguments; what the code does to the system is recorded as the list of its actions. The
  lock file's library is third-party.
\<close>

section \<open>Unit file\<close>

definition nl :: gostring where
  "nl = [10]"

definition unit_line :: "gostring \<Rightarrow> gostring" where
  "unit_line s = s @ nl"

definition serviceTemplate :: "gostring \<Rightarrow> gostring \<Rightarrow> gostring \<Rightarrow> gostring" where
  "serviceTemplate exec envPath envDbus =
     concat (map unit_line
       [[], str ''[Unit]'', str ''Description=Belphegor Clipboard Manager'',
        str ''Documentation=https://github.com/labi-le/belphegor'', [],
        str ''PartOf=graphical-session.target'', [],
        str ''After=graphical-session.target network.target'', [],
        str ''Wants=network-online.target'', [],
        str ''ConditionEnvironment=DISPLAY'', [],
        str ''[Service]'', str ''Type=simple'',
        str ''ExecStart='' @ exec,
        str ''Environment=\"PATH='' @ envPath @ [34],
        str ''Environment=\"DBUS_SESSION_BUS_ADDRESS='' @ envDbus @ [34],
        str ''Restart=on-failure'', str ''RestartSec=10'', [],
        str ''StandardOutput=journal'', str ''StandardError=journal'', [],
        str ''[Install]'', str ''WantedBy=graphical-session.target''])"

section \<open>Installation\<close>

datatype service_action =
    Systemctl "gostring list"
  | Mkdir gostring
  | WriteUnit gostring gostring

datatype service_error =
    ErrNoPath
  | ErrNoDbus
  | ErrExecutable gostring
  | ErrSymlinks gostring
  | ErrAbs gostring
  | ErrHome gostring
  | ErrMkdir gostring
  | ErrWriteUnit gostring
  | ErrSystemctl gostring gostring

record service_env =
  PATH :: gostring
  DBUS :: gostring
  Executable :: "gostring + gostring"
  EvalSymlinks :: "gostring \<Rightarrow> gostring + gostring"
  Abs :: "gostring \<Rightarrow> gostring + gostring"
  UserHomeDir :: "gostring + gostring"
  act :: "service_action \<Rightarrow> gostring option"

definition runSystemctl :: "service_env \<Rightarrow> gostring list \<Rightarrow> service_error option \<times> service_action list" where
  "runSystemctl E args =
     (let a = Systemctl (str ''--user'' # args) in
      (case act E a of Some e \<Rightarrow> Some (ErrSystemctl (join_with (str '' '') args) e) | None \<Rightarrow> None, [a]))"

definition unit_name :: gostring where
  "unit_name = str ''belphegor.service''"

text \<open>The calls of \<open>systemctl\<close> after the unit is written, up to the first that fails.\<close>

fun run_all :: "service_env \<Rightarrow> gostring list list \<Rightarrow> service_error option \<times> service_action list" where
  "run_all E [] = (None, [])"
| "run_all E (args # rest) =
     (case runSystemctl E args of
        (Some e, done1) \<Rightarrow> (Some e, done1)
      | (None, done1) \<Rightarrow> (let (e, done2) = run_all E rest in (e, done1 @ done2)))"

definition quoted :: "gostring \<Rightarrow> gostring" where
  "quoted absPath = (if contains absPath (str '' '') then [34] @ absPath @ [34] else absPath)"

text \<open>The part of \<open>InstallService\<close> that changes the system, from the paths found.\<close>

definition install_at ::
  "service_env \<Rightarrow> gostring \<Rightarrow> gostring \<Rightarrow> service_error option \<times> service_action list" where
  "install_at E absPath homeDir =
     (let systemdDir = path_join (path_join (path_join homeDir (str ''.config'')) (str ''systemd'')) (str ''user'');
          serviceFile = path_join systemdDir unit_name;
          (_, done0) = runSystemctl E [str ''disable'', str ''--now'', unit_name]
      in case act E (Mkdir systemdDir) of
           Some e \<Rightarrow> (Some (ErrMkdir e), done0 @ [Mkdir systemdDir])
         | None \<Rightarrow>
             (let w = WriteUnit serviceFile (serviceTemplate (quoted absPath) (PATH E) (DBUS E)) in
              case act E w of
                Some e \<Rightarrow> (Some (ErrWriteUnit e), done0 @ [Mkdir systemdDir, w])
              | None \<Rightarrow>
                  (let (e, done1) = run_all E [[str ''daemon-reload''], [str ''enable'', unit_name], [str ''restart'', unit_name]]
                   in (e, done0 @ [Mkdir systemdDir, w] @ done1))))"

definition InstallService :: "service_env \<Rightarrow> service_error option \<times> service_action list" where
  "InstallService E =
     (if PATH E = [] then (Some ErrNoPath, [])
      else if DBUS E = [] then (Some ErrNoDbus, [])
      else
        (case Executable E of
           Inl e \<Rightarrow> (Some (ErrExecutable e), [])
         | Inr exePath \<Rightarrow>
             (case EvalSymlinks E exePath of
                Inl e \<Rightarrow> (Some (ErrSymlinks e), [])
              | Inr exePath' \<Rightarrow>
                  (case Abs E exePath' of
                     Inl e \<Rightarrow> (Some (ErrAbs e), [])
                   | Inr absPath \<Rightarrow>
                       (case UserHomeDir E of
                          Inl e \<Rightarrow> (Some (ErrHome e), [])
                        | Inr homeDir \<Rightarrow> install_at E absPath homeDir)))))"

section \<open>Lock\<close>

datatype lock_result = Locked | ErrAlreadyRunning int | ErrCannotLock gostring

text \<open>\<open>owner\<close> is the process that has the lock, or the error of finding it. All but \<open>Locked\<close> end the program.\<close>

definition lock_Must :: "gostring option \<Rightarrow> gostring + int \<Rightarrow> lock_result" where
  "lock_Must lockErr owner =
     (case lockErr of
        None \<Rightarrow> Locked
      | Some _ \<Rightarrow> (case owner of Inl e \<Rightarrow> ErrCannotLock e | Inr pid \<Rightarrow> ErrAlreadyRunning pid))"

section \<open>Lemmas\<close>

lemma run_all_done: "fst (run_all E cmds) = None \<Longrightarrow> snd (run_all E cmds) = map (\<lambda>args. Systemctl (str ''--user'' # args)) cmds"
  by (induction cmds) (auto simp: runSystemctl_def Let_def split: prod.splits option.splits)

lemma install_at_done:
  assumes "install_at E absPath homeDir = (None, acts)"
  shows "\<exists>dir file. acts = [Systemctl [str ''--user'', str ''disable'', str ''--now'', unit_name], Mkdir dir,
    WriteUnit file (serviceTemplate (quoted absPath) (PATH E) (DBUS E)),
    Systemctl [str ''--user'', str ''daemon-reload''], Systemctl [str ''--user'', str ''enable'', unit_name],
    Systemctl [str ''--user'', str ''restart'', unit_name]]"
proof -
  let ?cmds = "[[str ''daemon-reload''], [str ''enable'', unit_name], [str ''restart'', unit_name]]"
  obtain e done1 where r: "run_all E ?cmds = (e, done1)" by (cases "run_all E ?cmds")
  have d: "done1 = map (\<lambda>args. Systemctl (str ''--user'' # args)) ?cmds" if "e = None"
    using run_all_done [of E ?cmds] r that by simp
  show ?thesis
    using assms r d
    by (auto simp del: str_Cons run_all.simps simp: install_at_def Let_def runSystemctl_def split: option.splits prod.splits)
qed

end
