(* ===== verification/Program.thy ===== *)
theory Program
  imports Options Service
begin

text \<open>
  The program (\<open>cmd/cli/main.go\<close>): what \<open>main\<close> does with the parsed options up to the start of the
  node, and the node it starts. The clipboard back end is chosen by build tags and has no part here.
\<close>

datatype transport_impl = UseTCP tcp_transport | UseQUIC quic_transport

definition selectTransport :: "gostring \<Rightarrow> tls_config \<Rightarrow> int \<Rightarrow> transport_impl" where
  "selectTransport mode tlsConf keep =
     (if mode = TransportTCP then UseTCP (tcp_New tlsConf keep) else UseQUIC (quic_New tlsConf keep))"

text \<open>\<open>applyTagsOverrides\<close> does nothing, or in a debug build sets two options.\<close>

definition applyTagsOverrides :: "bool \<Rightarrow> options \<Rightarrow> options" where
  "applyTagsOverrides debug opts = (if debug then opts\<lparr>o_Verbose := True, o_Notify := False\<rparr> else opts)"

record started =
  s_transport :: transport_impl
  s_node :: node
  s_options :: node_options
  s_notifier :: notifier
  s_connect :: "gostring option"
  s_discover :: "discover option"
  s_hidden :: bool

datatype main_result =
    MainVersion
  | MainService "service_error option"
  | MainLocked lock_result
  | MainStorePanic
  | MainTLS config_error
  | MainStarted started

text \<open>
  The program's surroundings: the build's version and kind, the identity of the node, the service
  environment, the lock, the file system (with what it refuses), the helpers of the node's peers, the
  cryptography and its random draws.
\<close>

record surroundings =
  g_version :: gostring
  g_debug :: bool
  g_myID :: i64
  g_service :: service_env
  g_lock :: "gostring option"
  g_owner :: "gostring + int"
  g_fs :: fs
  g_peer :: peer_env
  g_crypto :: crypto
  g_now :: int
  g_serial :: "gostring + nat"
  g_ecdsa :: "gostring + byte list \<times> byte list"

definition node_options_of :: "surroundings \<Rightarrow> file_store \<Rightarrow> options \<Rightarrow> node_options" where
  "node_options_of G st opts =
     \<lparr>version = g_version G, MyID = g_myID G, my_Metadata = o_Metadata opts, ListenPort = o_ListenPort opts,
      MaxPeers = o_MaxPeers opts, Clip = o_Clip opts,
      peer_options = (g_peer G)\<lparr>fileWriter := st, maxReceiveSize := MaxFileSize (o_Clip opts)\<rparr>\<rparr>"

text \<open>The options of the search: \<open>o_DiscoverMaxPeers\<close> is not among them.\<close>

definition discover_of :: "options \<Rightarrow> discover option" where
  "discover_of opts =
     (if o_Discover opts then
        Some (discover_New [WithMaxPeers (o_MaxPeers opts), WithDelay (o_Delay opts), discover_WithPort (o_ListenPort opts)])
      else None)"

definition main_run :: "surroundings \<Rightarrow> options \<Rightarrow> gostring \<Rightarrow> main_result" where
  "main_run G opts0 addressIP =
     (let opts = applyTagsOverrides (g_debug G) opts0 in
      if o_ShowVersion opts then MainVersion
      else if o_InstallService opts then MainService (fst (InstallService (g_service G)))
      else
        (case lock_Must (g_lock G) (g_owner G) of
           Locked \<Rightarrow>
             (case NewFileStore (os_deny (g_peer G)) (g_fs G) (o_FileSavePath opts) of
                (None, _) \<Rightarrow> MainStorePanic
              | (Some st, files) \<Rightarrow>
                  (case MakeTLSConfig (g_crypto G) (g_now G) (g_serial G) (g_ecdsa G) (o_Secret opts) of
                     Inl e \<Rightarrow> MainTLS e
                   | Inr tlsConfig \<Rightarrow>
                       MainStarted
                         \<lparr>s_transport = selectTransport (o_Transport opts) tlsConfig (o_KeepAlive opts),
                          s_node = node_New (nat (o_MaxPeers opts)) files,
                          s_options = node_options_of G st opts,
                          s_notifier = notification_New (o_Notify opts),
                          s_connect = (if addressIP \<noteq> [] then Some addressIP else None),
                          s_discover = discover_of opts,
                          s_hidden = o_Hidden opts\<rparr>))
         | l \<Rightarrow> MainLocked l))"

section \<open>The logger\<close>

text \<open>
  The source file of a log line: what follows its last slash. The search ends before the first byte, so
  a slash there is not found.
\<close>

fun short_from :: "gostring \<Rightarrow> nat \<Rightarrow> gostring" where
  "short_from file 0 = file"
| "short_from file (Suc i) = (if file ! Suc i = slash then drop (i + 2) file else short_from file i)"

definition CallerMarshal :: "gostring \<Rightarrow> int \<Rightarrow> gostring" where
  "CallerMarshal file line = short_from file (length file - 1) @ str '':'' @ format_int (word_of_int line)"

text \<open>The level of the log, and whether its lines name their source.\<close>

datatype log_level = TraceLevel | InfoLevel

definition initLogger :: "bool \<Rightarrow> log_level \<times> bool" where
  "initLogger verbose = (if verbose then (TraceLevel, True) else (InfoLevel, False))"

lemma short_from_base:
  "slash \<notin> set c \<Longrightarrow> p \<noteq> [] \<Longrightarrow> i = length p + length c \<Longrightarrow> short_from (p @ slash # c) i = c"
proof -
  have "short_from (p @ slash # c) (length p + k) = c" if "k \<le> length c" "slash \<notin> set c" "p \<noteq> []" for k
    using that
  proof (induction k)
    case 0
    then obtain j where j: "length p = Suc j" by (cases p) auto
    have "(p @ slash # c) ! length p = slash" by simp
    moreover have "drop (j + 2) (p @ slash # c) = c" using j by simp
    ultimately show ?case using j by simp
  next
    case (Suc k)
    have "(p @ slash # c) ! Suc (length p + k) = c ! k" by (simp add: nth_append)
    moreover have "c ! k \<noteq> slash" using Suc.prems by (metis Suc_le_lessD nth_mem)
    ultimately show ?case using Suc by simp
  qed
  then show "slash \<notin> set c \<Longrightarrow> p \<noteq> [] \<Longrightarrow> i = length p + length c \<Longrightarrow> short_from (p @ slash # c) i = c" by simp
qed

section \<open>Validated options\<close>

definition options_valid :: "options \<Rightarrow> bool" where
  "options_valid opts \<longleftrightarrow>
     0 < o_ListenPort opts \<and> o_ListenPort opts \<le> 65535 \<and> transport_valid (o_Transport opts) \<and> 0 < o_KeepAlive opts
     \<and> 0 < o_Write opts \<and> 0 < o_Read opts \<and> o_Notifier opts \<noteq> None \<and> 0 < o_DiscoverMaxPeers opts
     \<and> 0 < o_Delay opts \<and> o_Metadata opts \<noteq> zero_device \<and> 0 < o_MaxPeers opts \<and> 0 < MaxClipboardFiles (o_Clip opts)"

lemma RandomPort_range: "7000 \<le> RandomPort seed \<and> RandomPort seed < 8000"
proof -
  have "uint (seed mod 1000) < 1000"
    by (simp add: uint_mod_distrib)
  moreover have "0 \<le> uint (seed mod 1000)" by simp
  ultimately show ?thesis by (simp add: RandomPort_def)
qed

lemma initDefaultMetadata_nonzero: "initDefaultMetadata hostname user goarch myID \<noteq> zero_device"
  by (auto simp: initDefaultMetadata_def zero_device_def split: option.split)

lemma DefaultOptions_valid:
  "self \<noteq> zero_device \<Longrightarrow> options_valid (DefaultOptions seed self tempDir)"
  using RandomPort_range [of seed]
  by (simp add: options_valid_def DefaultOptions_def transport_valid_def second_def)

lemmas check_defs =
  check_port_def check_transport_def check_keep_alive_def check_write_def check_read_def check_notifier_def check_discover_peers_def check_delay_def check_metadata_def check_max_peers_def check_clip_def

text \<open>A check keeps what the earlier ones established, and leaves valid options alone.\<close>

fun valid_upto :: "nat \<Rightarrow> options \<Rightarrow> bool" where
  "valid_upto n opts \<longleftrightarrow>
     (0 < n \<longrightarrow> 0 < o_ListenPort opts \<and> o_ListenPort opts \<le> 65535) \<and> (1 < n \<longrightarrow> transport_valid (o_Transport opts))
     \<and> (2 < n \<longrightarrow> 0 < o_KeepAlive opts) \<and> (3 < n \<longrightarrow> 0 < o_Write opts) \<and> (4 < n \<longrightarrow> 0 < o_Read opts)
     \<and> (5 < n \<longrightarrow> o_Notifier opts \<noteq> None) \<and> (6 < n \<longrightarrow> 0 < o_DiscoverMaxPeers opts)
     \<and> (7 < n \<longrightarrow> 0 < o_Delay opts) \<and> (8 < n \<longrightarrow> o_Metadata opts \<noteq> zero_device)
     \<and> (9 < n \<longrightarrow> 0 < o_MaxPeers opts) \<and> (10 < n \<longrightarrow> 0 < MaxClipboardFiles (o_Clip opts))"

lemma check_upto:
  assumes "options_valid defaults"
  shows "valid_upto 0 opts \<Longrightarrow> valid_upto (Suc 0) (check_port defaults opts)"
    "valid_upto (Suc 0) opts \<Longrightarrow> valid_upto 2 (check_transport defaults opts)"
    "valid_upto 2 opts \<Longrightarrow> valid_upto 3 (check_keep_alive defaults opts)"
    "valid_upto 3 opts \<Longrightarrow> valid_upto 4 (check_write defaults opts)"
    "valid_upto 4 opts \<Longrightarrow> valid_upto 5 (check_read defaults opts)"
    "valid_upto 5 opts \<Longrightarrow> valid_upto 6 (check_notifier defaults opts)"
    "valid_upto 6 opts \<Longrightarrow> valid_upto 7 (check_discover_peers defaults opts)"
    "valid_upto 7 opts \<Longrightarrow> valid_upto 8 (check_delay defaults opts)"
    "valid_upto 8 opts \<Longrightarrow> valid_upto 9 (check_metadata defaults opts)"
    "valid_upto 9 opts \<Longrightarrow> valid_upto 10 (check_max_peers defaults opts)"
    "valid_upto 10 opts \<Longrightarrow> valid_upto 11 (check_clip defaults opts)"
  using assms by (simp_all add: check_defs options_valid_def)

lemma check_valid:
  "options_valid opts \<Longrightarrow> check_port defaults opts = opts"
  "options_valid opts \<Longrightarrow> check_transport defaults opts = opts"
  "options_valid opts \<Longrightarrow> check_keep_alive defaults opts = opts"
  "options_valid opts \<Longrightarrow> check_write defaults opts = opts"
  "options_valid opts \<Longrightarrow> check_read defaults opts = opts"
  "options_valid opts \<Longrightarrow> check_notifier defaults opts = opts"
  "options_valid opts \<Longrightarrow> check_discover_peers defaults opts = opts"
  "options_valid opts \<Longrightarrow> check_delay defaults opts = opts"
  "options_valid opts \<Longrightarrow> check_metadata defaults opts = opts"
  "options_valid opts \<Longrightarrow> check_max_peers defaults opts = opts"
  "options_valid opts \<Longrightarrow> check_clip defaults opts = opts"
  by (auto simp: check_defs options_valid_def)

lemma valid_upto_all: "valid_upto 11 opts = options_valid opts"
  by (simp add: options_valid_def)

lemma check_clip_valid:
  "options_valid defaults \<Longrightarrow> options_valid opts \<Longrightarrow> options_valid (check_clip defaults opts)"
  by (simp add: check_valid)

lemma Validated_ok:
  assumes "options_valid defaults"
  shows "options_valid (Validated defaults opts)"
proof -
  have "valid_upto 0 opts" by simp
  then have "valid_upto 11 (check_clip defaults (foldl (\<lambda>opts check. check defaults opts) opts
       [check_port, check_transport, check_keep_alive, check_write, check_read, check_notifier,
        check_discover_peers, check_delay, check_metadata, check_max_peers]))"
    unfolding foldl.simps using assms by (intro check_upto) (simp_all only:)
  then show ?thesis
    using check_clip_valid [OF assms] by (simp only: Validated_def foldl.simps valid_upto_all)
qed

lemma Validated_id: "options_valid opts \<Longrightarrow> Validated defaults opts = opts"
  by (simp add: Validated_def check_valid)

section \<open>The started node\<close>

lemma port_fits: "0 < p \<Longrightarrow> p \<le> 65535 \<Longrightarrow> uint (word_of_int p :: u16) = p"
  by (simp add: uint_word_of_int_eq take_bit_int_eq_self)

lemma overrides_valid: "options_valid opts \<Longrightarrow> options_valid (applyTagsOverrides debug opts)"
  by (simp add: applyTagsOverrides_def options_valid_def)

lemma main_started:
  assumes "main_run G opts addr = MainStarted s" "options_valid opts" "helpers_ok (e_helpers (g_peer G))"
    "unat (MaxFileSize (o_Clip opts)) < 2 ^ 63"
  shows "options_ok (s_options s)" and "node_ok (s_node s)" and "0 < MaxPeers (s_options s)"
    and "uint (word_of_int (ListenPort (s_options s)) :: u16) = ListenPort (s_options s)"
    and "int (ann_cap (w_channel (n_world (s_node s)))) = MaxPeers (s_options s)"
proof -
  define opts' where "opts' = applyTagsOverrides (g_debug G) opts"
  have v: "options_valid opts'" and c: "o_Clip opts' = o_Clip opts"
    using overrides_valid [OF assms(2)] by (simp_all add: opts'_def applyTagsOverrides_def)
  obtain st files where s: "s_node s = node_New (nat (o_MaxPeers opts')) files" "s_options s = node_options_of G st opts'"
    using assms(1) by (auto simp: main_run_def Let_def opts'_def split: if_splits lock_result.splits option.splits sum.splits prod.splits)
  show "options_ok (s_options s)" "node_ok (s_node s)" "0 < MaxPeers (s_options s)"
    using assms(3,4) v c by (simp_all add: s options_ok_def node_options_of_def node_ok_New options_valid_def)
  show "uint (word_of_int (ListenPort (s_options s)) :: u16) = ListenPort (s_options s)"
    using v by (simp add: s node_options_of_def options_valid_def port_fits)
  show "int (ann_cap (w_channel (n_world (s_node s)))) = MaxPeers (s_options s)"
    using v by (simp add: s node_options_of_def options_valid_def node_New_def New_def)
qed

section \<open>Properties\<close>

text \<open>C35. The options a command line gives, whatever flags it sets: parsing ends with a bad flag, with the
  help, or with options in which every checked field is in its range (port, transport, durations,
  limits, notifier, device); and options already in range are kept as they are.\<close>

theorem parsed_options_valid:
  "(case parseFlags pb seeds (initDefaultMetadata hostname user goarch myID) tempDir flags of
      BadFlag \<Rightarrow> True | HelpShown \<Rightarrow> True | Parsed opts _ \<Rightarrow> options_valid opts)
   \<and> (Validated (DefaultOptions seed (initDefaultMetadata hostname user goarch myID) tempDir) opts0 = opts0
      \<longleftrightarrow> options_valid opts0)"
proof -
  let ?self = "initDefaultMetadata hostname user goarch myID"
  have d: "options_valid (DefaultOptions s ?self tempDir)" for s
    by (rule DefaultOptions_valid [OF initDefaultMetadata_nonzero])
  have 1: "case parseFlags pb seeds ?self tempDir flags of BadFlag \<Rightarrow> True | HelpShown \<Rightarrow> True | Parsed opts _ \<Rightarrow> options_valid opts"
    by (auto simp: parseFlags_def Let_def Validated_ok [OF d] split: prod.splits option.splits)
  have 2: "Validated (DefaultOptions seed ?self tempDir) opts0 = opts0 \<longleftrightarrow> options_valid opts0"
    using Validated_ok [OF d, of seed opts0] Validated_id by metis
  show ?thesis using 1 2 by blast
qed


definition sample_surroundings :: surroundings where
  "sample_surroundings = \<lparr>g_version = str ''1.0.0'', g_debug = False, g_myID = 7,
     g_service = \<lparr>PATH = [], DBUS = [], Executable = Inr [], EvalSymlinks = Inr, Abs = Inr, UserHomeDir = Inr [], act = (\<lambda>_. None)\<rparr>,
     g_lock = None, g_owner = Inr 0, g_fs = (\<lambda>_. Some Dir), g_peer = sample_env, g_crypto = plain_crypto, g_now = 0,
     g_serial = Inr 2, g_ecdsa = Inr ([8], [7])\<rparr>"

lemma mkdir_all_dirs: "mkdir_list deny (\<lambda>_. Some Dir) as = (True, \<lambda>_. Some Dir)"
  by (induction as) auto


end
