(* ===== verification/HostClipboards.thy ===== *)
theory HostClipboards
  imports Eventful
begin

text \<open>
  The clipboard back ends that do not talk to a display server: the headless one driven by files
  (\<open>pkg/clipboard/null\<close>), the bridge to a host application (\<open>pkg/clipboard/android\<close>) and the one that
  runs the \<open>wl-clipboard\<close> commands (\<open>pkg/clipboard/wl_clipboard\<close>). What files, commands and the host
  answer is an argument; the updates sent to the node are the field \<open>sent\<close> of each. \<open>uni\<close> lowers
  non-ASCII text.
\<close>

definition sized_update :: "(gostring \<Rightarrow> gostring) \<Rightarrow> u64 \<Rightarrow> byte list \<Rightarrow> update" where
  "sized_update uni h dat =
     \<lparr>u_Data = dat, u_Size = of_nat (length dat), u_MimeType = mime_From uni dat, u_Hash = h, u_BatchID = 0, u_BatchTotal = 0\<rparr>"

section \<open>Headless\<close>

text \<open>\<open>pending\<close> is the copy the polling is waiting to put into the full channel.\<close>

record null_clip =
  incoming :: "byte list list"
  n_dedup :: deduplicator
  inPath :: gostring
  outPath :: gostring
  polled :: "byte list"
  pending :: "byte list option"
  n_sent :: "update list"

definition null_New :: "gostring \<Rightarrow> gostring \<Rightarrow> null_clip" where
  "null_New envIn envOut =
     \<lparr>incoming = [], n_dedup = \<lparr>lastHash = 0\<rparr>, inPath = envIn, outPath = envOut, polled = [], pending = None, n_sent = []\<rparr>"

definition null_capacity :: nat where
  "null_capacity = 16"

definition trim_newlines :: "byte list \<Rightarrow> byte list" where
  "trim_newlines dat = rev (dropWhile (\<lambda>c. c = 13 \<or> c = 10) (rev dat))"

text \<open>The sending to the channel: at once if there is room, else when \<open>Watch\<close> has taken from it.\<close>

definition null_push :: "null_clip \<Rightarrow> byte list \<Rightarrow> null_clip" where
  "null_push n dat =
     (if length (incoming n) < null_capacity then n\<lparr>incoming := incoming n @ [dat], pending := None\<rparr>
      else n\<lparr>pending := Some dat\<rparr>)"

text \<open>A tick of \<open>pollInput\<close>; \<open>file\<close> is the content of the input file, if it can be read.\<close>

definition pollInput :: "null_clip \<Rightarrow> byte list option \<Rightarrow> null_clip" where
  "pollInput n file =
     (case (pending n, file) of
        (Some dat, _) \<Rightarrow> null_push n dat
      | (None, None) \<Rightarrow> n
      | (None, Some raw) \<Rightarrow>
          (let dat = trim_newlines raw in
           if dat = [] \<or> dat = polled n then n else null_push (n\<lparr>polled := dat\<rparr>) dat))"

definition null_update :: "(gostring \<Rightarrow> gostring) \<Rightarrow> (byte list \<Rightarrow> u64) \<Rightarrow> null_clip \<Rightarrow> byte list \<Rightarrow> null_clip" where
  "null_update uni xxhash n dat =
     (let ((h, isNew), d) = dedup_Check xxhash (n_dedup n) dat in
      if \<not> isNew then n\<lparr>n_dedup := d\<rparr> else n\<lparr>n_dedup := d, n_sent := n_sent n @ [sized_update uni h dat]\<rparr>)"

definition null_Watch :: "(gostring \<Rightarrow> gostring) \<Rightarrow> (byte list \<Rightarrow> u64) \<Rightarrow> null_clip \<Rightarrow> null_clip" where
  "null_Watch uni xxhash n =
     (case incoming n of [] \<Rightarrow> n | dat # rest \<Rightarrow> null_update uni xxhash (n\<lparr>incoming := rest\<rparr>) dat)"

text \<open>
  Appending to the output file: the error of opening it, and for both writes how many bytes are
  written and the error. The result has the bytes added to the file.
\<close>

definition appendPayload ::
  "gostring option \<Rightarrow> nat \<times> gostring option \<Rightarrow> nat \<times> gostring option \<Rightarrow> byte list \<Rightarrow> gostring option \<times> byte list" where
  "appendPayload openErr w1 w2 dat =
     (case openErr of
        Some e \<Rightarrow> (Some e, [])
      | None \<Rightarrow>
          (case w1 of
             (k, Some e) \<Rightarrow> (Some e, take k dat)
           | (k, None) \<Rightarrow> (case w2 of (j, err) \<Rightarrow> (err, take k dat @ take j [10]))))"

definition null_Write ::
  "(byte list \<Rightarrow> u64) \<Rightarrow> gostring option \<Rightarrow> nat \<times> gostring option \<Rightarrow> nat \<times> gostring option \<Rightarrow> null_clip \<Rightarrow> byte list
   \<Rightarrow> ((gostring + nat) \<times> byte list) \<times> null_clip" where
  "null_Write xxhash openErr w1 w2 n dat =
     (let n' = n\<lparr>n_dedup := dedup_Mark xxhash (n_dedup n) dat\<rparr> in
      if outPath n' \<noteq> [] then
        (case appendPayload openErr w1 w2 dat of
           (Some e, added) \<Rightarrow> ((Inl e, added), n')
         | (None, added) \<Rightarrow> ((Inr (length dat), added), n'))
      else ((Inr (length dat), []), n'))"

section \<open>Host bridge\<close>

record android_clip =
  a_incoming :: "update list"
  a_dedup :: deduplicator
  has_writer :: bool
  a_sent :: "update list"

definition localBuffer :: nat where
  "localBuffer = 16"

definition android_New :: "bool \<Rightarrow> android_clip" where
  "android_New writer = \<lparr>a_incoming = [], a_dedup = \<lparr>lastHash = 0\<rparr>, has_writer = writer, a_sent = []\<rparr>"

definition android_Watch :: "android_clip \<Rightarrow> android_clip" where
  "android_Watch c = (case a_incoming c of [] \<Rightarrow> c | u # us \<Rightarrow> c\<lparr>a_incoming := us, a_sent := a_sent c @ [u]\<rparr>)"

text \<open>\<open>host\<close> is the answer of the host's writer; the second result is what was handed to it.\<close>

definition android_Write ::
  "(byte list \<Rightarrow> u64) \<Rightarrow> gostring option \<Rightarrow> android_clip \<Rightarrow> mime_type \<Rightarrow> byte list
   \<Rightarrow> ((gostring + nat) \<times> (gostring \<times> byte list) option) \<times> android_clip" where
  "android_Write xxhash host c t dat =
     (let c' = c\<lparr>a_dedup := dedup_Mark xxhash (a_dedup c) dat\<rparr> in
      if \<not> has_writer c' then ((Inr (length dat), None), c')
      else (((case host of Some e \<Rightarrow> Inl e | None \<Rightarrow> Inr (length dat)), Some (mime_String t, dat)), c'))"

definition PushLocalCopy ::
  "(gostring \<Rightarrow> gostring) \<Rightarrow> (byte list \<Rightarrow> u64) \<Rightarrow> android_clip \<Rightarrow> gostring \<Rightarrow> byte list \<Rightarrow> android_clip" where
  "PushLocalCopy uni xxhash c mimeHint dat =
     (if dat = [] then c
      else
        (let ((h, isNew), d) = dedup_Check xxhash (a_dedup c) dat; c' = c\<lparr>a_dedup := d\<rparr> in
         if \<not> isNew then c'
         else
           (let kind = (if has_prefix mimeHint (str ''image/'') then TypeImage else mime_From uni dat);
                u = \<lparr>u_Data = dat, u_Size = of_nat (length dat), u_MimeType = kind, u_Hash = h, u_BatchID = 0, u_BatchTotal = 0\<rparr>
            in if length (a_incoming c') < localBuffer then c'\<lparr>a_incoming := a_incoming c' @ [u]\<rparr> else c')))"

section \<open>Commands\<close>

record wl_clip =
  w_dedup :: deduplicator
  w_sent :: "update list"

definition wl_New :: wl_clip where
  "wl_New = \<lparr>w_dedup = \<lparr>lastHash = 0\<rparr>, w_sent = []\<rparr>"

text \<open>The variable for the interval and how its text parses; \<open>None\<close> is the panic of \<open>init\<close>.\<close>

definition clipboardTick :: "gostring option \<Rightarrow> (gostring \<Rightarrow> int option) \<Rightarrow> int option" where
  "clipboardTick tick ParseDuration = (case tick of None \<Rightarrow> Some (3 * 1000000000) | Some s \<Rightarrow> ParseDuration s)"

text \<open>A tick of \<open>Watch\<close>, with the output of \<open>wl-paste\<close>, or \<open>None\<close> when the command fails.\<close>

definition wl_update :: "(gostring \<Rightarrow> gostring) \<Rightarrow> (byte list \<Rightarrow> u64) \<Rightarrow> wl_clip \<Rightarrow> byte list \<Rightarrow> wl_clip" where
  "wl_update uni xxhash c dat =
     (if dat = [] then c
      else
        (let ((h, isNew), d) = dedup_Check xxhash (w_dedup c) dat in
         if isNew then
           c\<lparr>w_dedup := d, w_sent := w_sent c @
             [\<lparr>u_Data = dat, u_Size = 0, u_MimeType = mime_From uni dat, u_Hash = h, u_BatchID = 0, u_BatchTotal = 0\<rparr>]\<rparr>
         else c\<lparr>w_dedup := d\<rparr>))"

definition wl_Watch :: "(gostring \<Rightarrow> gostring) \<Rightarrow> (byte list \<Rightarrow> u64) \<Rightarrow> wl_clip \<Rightarrow> byte list option \<Rightarrow> wl_clip" where
  "wl_Watch uni xxhash c get = (case get of None \<Rightarrow> c | Some dat \<Rightarrow> wl_update uni xxhash c dat)"

text \<open>The stages of running \<open>wl-copy\<close>, each with its error: the pipe, the start, the writing, its closing, the end.\<close>

definition clipboardSet :: "gostring option list \<Rightarrow> gostring option" where
  "clipboardSet stages = (case filter (\<lambda>e. e \<noteq> None) stages of [] \<Rightarrow> None | e # _ \<Rightarrow> e)"

definition wl_Write :: "(byte list \<Rightarrow> u64) \<Rightarrow> gostring option list \<Rightarrow> wl_clip \<Rightarrow> byte list \<Rightarrow> (gostring + nat) \<times> wl_clip" where
  "wl_Write xxhash stages c dat =
     (let c' = c\<lparr>w_dedup := dedup_Mark xxhash (w_dedup c) dat\<rparr> in
      ((case clipboardSet stages of Some e \<Rightarrow> Inl e | None \<Rightarrow> Inr (length dat)), c'))"

section \<open>What the node wrote is not sent back\<close>

text \<open>
  The contract a back end keeps: writing content of the node marks it, and content that carries the
  mark is not reported as a copy.
\<close>

locale loop_protection =
  fixes put :: "byte list \<Rightarrow> 's \<Rightarrow> 's" and seen :: "byte list \<Rightarrow> 's \<Rightarrow> 's"
    and out :: "'s \<Rightarrow> update list" and mark :: "'s \<Rightarrow> u64" and hash :: "byte list \<Rightarrow> u64"
  assumes put_mark: "mark (put d s) = hash d"
    and put_out: "out (put d s) = out s"
    and seen_marked: "hash d = mark s \<Longrightarrow> out (seen d s) = out s \<and> mark (seen d s) = mark s"
begin

lemma seen_again: "hash d = mark s \<Longrightarrow> out ((seen d ^^ k) s) = out s \<and> mark ((seen d ^^ k) s) = mark s"
proof (induction k)
  case (Suc k)
  then show ?case using seen_marked [of d "(seen d ^^ k) s"] by simp
qed simp

lemma no_echo: "out ((seen d ^^ k) (put d s)) = out s"
  using seen_again [of d "put d s" k] by (simp add: put_mark put_out)

end

lemmas dedup_defs = dedup_Check_def dedup_Mark_def dedup_Hash_def

text \<open>The copies a back end has reported: sent, or on their way.\<close>

definition android_out :: "android_clip \<Rightarrow> update list" where
  "android_out c = a_sent c @ a_incoming c"

interpretation null_loop: loop_protection
  "\<lambda>d n. snd (null_Write xxhash openErr w1 w2 n d)" "\<lambda>d n. null_update uni xxhash n d" n_sent "\<lambda>n. lastHash (n_dedup n)" xxhash
  by unfold_locales
    (auto simp: null_Write_def null_update_def dedup_defs Let_def split: prod.split option.split)

interpretation android_loop: loop_protection
  "\<lambda>d c. snd (android_Write xxhash host c t d)" "\<lambda>d c. PushLocalCopy uni xxhash c hint d" android_out "\<lambda>c. lastHash (a_dedup c)" xxhash
  by unfold_locales
    (auto simp: android_Write_def PushLocalCopy_def android_out_def dedup_defs Let_def)

interpretation wl_loop: loop_protection
  "\<lambda>d c. snd (wl_Write xxhash stages c d)" "\<lambda>d c. wl_update uni xxhash c d" w_sent "\<lambda>c. lastHash (w_dedup c)" xxhash
  by unfold_locales
    (auto simp: wl_Write_def wl_update_def dedup_defs Let_def)

section \<open>Properties\<close>


text \<open>A copy that the host bridge drops because its buffer is full is lost for good: the content is
  remembered as seen all the same, so when the user copies it again after the buffer has been
  drained, nothing is sent either.\<close>

theorem dropped_copy_forgotten:
  assumes "localBuffer \<le> length (a_incoming c)" and "dat \<noteq> []"
  shows "android_out (PushLocalCopy uni xxhash ((android_Watch ^^ k) (PushLocalCopy uni xxhash c hint dat)) hint dat) = android_out c"
proof -
  let ?c1 = "PushLocalCopy uni xxhash c hint dat"
  have c1: "android_out ?c1 = android_out c" "lastHash (a_dedup ?c1) = xxhash dat"
    using assms by (auto simp: PushLocalCopy_def android_out_def dedup_defs Let_def)
  have drain: "android_out ((android_Watch ^^ k) s) = android_out s \<and> a_dedup ((android_Watch ^^ k) s) = a_dedup s" for s
    by (induction k) (auto simp: android_Watch_def android_out_def split: list.split)
  show ?thesis
    using android_loop.seen_marked [where d = dat and s = "(android_Watch ^^ k) ?c1"] c1 drain [of ?c1] by simp
qed

theorem dropped_copy_forgotten_witness:
  "\<exists>c u. android_out (PushLocalCopy id (\<lambda>b. of_nat (length b)) ((android_Watch ^^ 16)
     (PushLocalCopy id (\<lambda>b. of_nat (length b)) c [] [65])) [] [65]) = replicate 16 u"
proof -
  define c where "c = (android_New True)\<lparr>a_incoming := replicate 16 (sized_update id 7 [66])\<rparr>"
  have "localBuffer \<le> length (a_incoming c)" by (simp add: c_def localBuffer_def)
  then have "android_out (PushLocalCopy id (\<lambda>b. of_nat (length b)) ((android_Watch ^^ 16)
     (PushLocalCopy id (\<lambda>b. of_nat (length b)) c [] [65])) [] [65]) = android_out c"
    by (rule dropped_copy_forgotten) simp
  also have "android_out c = replicate 16 (sized_update id 7 [66])"
    by (simp add: c_def android_out_def android_New_def)
  finally show ?thesis by blast
qed

end
