(* ===== verification/Utf.thy ===== *)
theory Utf
  imports GoLib
begin

text \<open>
  What the code uses of Go's \<open>unicode/utf8\<close> and \<open>unicode/utf16\<close>. A rune is a natural number; decoding
  gives the rune and how many bytes it took, \<open>RuneError\<close> and 1 for anything that is not UTF-8.
\<close>

definition RuneError :: nat where
  "RuneError = 0xFFFD"

definition surrogate :: "nat \<Rightarrow> bool" where
  "surrogate r \<longleftrightarrow> 0xD800 \<le> r \<and> r < 0xE000"

definition valid_rune :: "nat \<Rightarrow> bool" where
  "valid_rune r \<longleftrightarrow> r < 0x110000 \<and> \<not> surrogate r"

section \<open>UTF-8\<close>

definition utf8_bytes :: "nat \<Rightarrow> byte list" where
  "utf8_bytes r =
     (if r < 0x80 then [of_nat r]
      else if r < 0x800 then [of_nat (192 + r div 64), of_nat (128 + r mod 64)]
      else if r < 0x10000 then [of_nat (224 + r div 4096), of_nat (128 + r div 64 mod 64), of_nat (128 + r mod 64)]
      else [of_nat (240 + r div 262144), of_nat (128 + r div 4096 mod 64), of_nat (128 + r div 64 mod 64), of_nat (128 + r mod 64)])"

definition AppendRune :: "byte list \<Rightarrow> nat \<Rightarrow> byte list" where
  "AppendRune buf r = buf @ utf8_bytes (if valid_rune r then r else RuneError)"

definition between :: "nat \<Rightarrow> nat \<Rightarrow> byte \<Rightarrow> bool" where
  "between lo hi b \<longleftrightarrow> lo \<le> unat b \<and> unat b \<le> hi"

fun DecodeRune :: "byte list \<Rightarrow> nat \<times> nat" where
  "DecodeRune [] = (RuneError, 0)"
| "DecodeRune (b # bs) =
     (let x = unat b in
      if x < 128 then (x, 1)
      else if 194 \<le> x \<and> x \<le> 223 then
        (case bs of
           c # _ \<Rightarrow> if between 128 191 c then ((x - 192) * 64 + (unat c - 128), 2) else (RuneError, 1)
         | _ \<Rightarrow> (RuneError, 1))
      else if 224 \<le> x \<and> x \<le> 239 then
        (case bs of
           c # d # _ \<Rightarrow>
             if between (if x = 224 then 160 else 128) (if x = 237 then 159 else 191) c \<and> between 128 191 d
             then ((x - 224) * 4096 + (unat c - 128) * 64 + (unat d - 128), 3) else (RuneError, 1)
         | _ \<Rightarrow> (RuneError, 1))
      else if 240 \<le> x \<and> x \<le> 244 then
        (case bs of
           c # d # e # _ \<Rightarrow>
             if between (if x = 240 then 144 else 128) (if x = 244 then 143 else 191) c \<and> between 128 191 d \<and> between 128 191 e
             then ((x - 240) * 262144 + (unat c - 128) * 4096 + (unat d - 128) * 64 + (unat e - 128), 4) else (RuneError, 1)
         | _ \<Rightarrow> (RuneError, 1))
      else (RuneError, 1))"

section \<open>UTF-16\<close>

definition EncodeRune16 :: "nat \<Rightarrow> u16 \<times> u16" where
  "EncodeRune16 r = (of_nat (0xD800 + (r - 0x10000) div 1024), of_nat (0xDC00 + (r - 0x10000) mod 1024))"

definition DecodeRune16 :: "u16 \<Rightarrow> u16 \<Rightarrow> nat" where
  "DecodeRune16 a b =
     (if 0xD800 \<le> unat a \<and> unat a < 0xDC00 \<and> 0xDC00 \<le> unat b \<and> unat b < 0xE000
      then (unat a - 0xD800) * 1024 + (unat b - 0xDC00) + 0x10000 else RuneError)"

section \<open>Lemmas\<close>

lemma DecodeRune_size: "bs \<noteq> [] \<Longrightarrow> 0 < snd (DecodeRune bs) \<and> snd (DecodeRune bs) \<le> length bs"
  by (cases bs) (auto simp: Let_def split: list.splits)

lemma unat_byte [simp]: "k < 256 \<Longrightarrow> unat (of_nat k :: byte) = k"
  by (simp add: unat_of_nat)

lemma unat_unit [simp]: "k < 65536 \<Longrightarrow> unat (of_nat k :: u16) = k"
  by (simp add: unat_of_nat)

lemma decode_2:
  assumes "2 \<le> a" "a < 32" "b < 64"
  shows "DecodeRune (of_nat (192 + a) # of_nat (128 + b) # rest) = (a * 64 + b, 2)"
proof -
  have u: "unat (of_nat (192 + a) :: byte) = 192 + a" "unat (of_nat (128 + b) :: byte) = 128 + b"
    using assms by (simp_all del: of_nat_add)
  show ?thesis
    unfolding DecodeRune.simps between_def Let_def u using assms by (simp add: u del: of_nat_add)
qed

lemma decode_3:
  assumes "a < 16" "b < 64" "c < 64" "a = 0 \<Longrightarrow> 32 \<le> b" "a = 13 \<Longrightarrow> b < 32"
  shows "DecodeRune (of_nat (224 + a) # of_nat (128 + b) # of_nat (128 + c) # rest) = (a * 4096 + b * 64 + c, 3)"
proof -
  have u: "unat (of_nat (224 + a) :: byte) = 224 + a" "unat (of_nat (128 + b) :: byte) = 128 + b"
    "unat (of_nat (128 + c) :: byte) = 128 + c"
    using assms by (simp_all del: of_nat_add)
  consider "a = 0" | "a = 13" | "a \<noteq> 0" "a \<noteq> 13" by blast
  then have "(if 224 + a = 224 then 160 else 128) \<le> 128 + b \<and> 128 + b \<le> (if 224 + a = 237 then 159 else 191)"
    by cases (use assms in simp_all)
  then show ?thesis
    unfolding DecodeRune.simps between_def Let_def u using assms(1-3) by (simp add: u del: of_nat_add)
qed

lemma decode_4:
  assumes "a < 5" "b < 64" "c < 64" "d < 64" "a = 0 \<Longrightarrow> 16 \<le> b" "a = 4 \<Longrightarrow> b < 16"
  shows "DecodeRune (of_nat (240 + a) # of_nat (128 + b) # of_nat (128 + c) # of_nat (128 + d) # rest)
    = (a * 262144 + b * 4096 + c * 64 + d, 4)"
proof -
  have u: "unat (of_nat (240 + a) :: byte) = 240 + a" "unat (of_nat (128 + b) :: byte) = 128 + b"
    "unat (of_nat (128 + c) :: byte) = 128 + c" "unat (of_nat (128 + d) :: byte) = 128 + d"
    using assms by (simp_all del: of_nat_add)
  consider "a = 0" | "a = 4" | "a \<noteq> 0" "a \<noteq> 4" by blast
  then have "(if 240 + a = 240 then 144 else 128) \<le> 128 + b \<and> 128 + b \<le> (if 240 + a = 244 then 143 else 191)"
    by cases (use assms in simp_all)
  then show ?thesis
    unfolding DecodeRune.simps between_def Let_def u using assms(1-4) by (simp add: u del: of_nat_add)
qed

lemma split_3: "r = r div 4096 * 4096 + r div 64 mod 64 * 64 + r mod (64 :: nat)"
proof -
  have "r div 4096 = r div 64 div 64" by (simp flip: div_mult2_eq)
  moreover have "r div 64 div 64 * 64 + r div 64 mod 64 = r div 64" "r div 64 * 64 + r mod 64 = r" by simp_all
  ultimately show ?thesis by linarith
qed

lemma split_4: "r = r div 262144 * 262144 + r div 4096 mod 64 * 4096 + r div 64 mod 64 * 64 + r mod (64 :: nat)"
proof -
  have "r div 262144 = r div 4096 div 64" by (simp flip: div_mult2_eq)
  moreover have "r div 4096 div 64 * 64 + r div 4096 mod 64 = r div 4096" by simp
  ultimately show ?thesis using split_3 [of r] by linarith
qed

lemma decode_utf8:
  assumes "valid_rune r"
  shows "DecodeRune (utf8_bytes r @ rest) = (r, length (utf8_bytes r))"
proof -
  have v: "r < 0x110000" "r < 0xD800 \<or> 0xE000 \<le> r" using assms by (auto simp: valid_rune_def surrogate_def)
  consider "r < 0x80" | "0x80 \<le> r" "r < 0x800" | "0x800 \<le> r" "r < 0x10000" | "0x10000 \<le> r" by linarith
  then show ?thesis
  proof cases
    case 1
    then show ?thesis by (simp add: utf8_bytes_def)
  next
    case 2
    then have "2 \<le> r div 64" "r div 64 < 32" "r mod 64 < 64" by auto
    from decode_2 [OF this] 2 show ?thesis by (simp add: utf8_bytes_def del: of_nat_add DecodeRune.simps)
  next
    case 3
    define a b c where "a = r div 4096" and "b = r div 64 mod 64" and "c = r mod 64"
    have r: "r = a * 4096 + b * 64 + c" unfolding a_def b_def c_def by (rule split_3)
    have k: "a < 16" "b < 64" "c < 64" using 3 by (auto simp: a_def b_def c_def)
    have "a = 0 \<Longrightarrow> 32 \<le> b" "a = 13 \<Longrightarrow> b < 32" using 3 v r k by linarith+
    note decode_3 [OF k this, of rest]
    then have "DecodeRune (of_nat (224 + a) # of_nat (128 + b) # of_nat (128 + c) # rest) = (r, 3)" by (simp only: r [symmetric])
    with 3 show ?thesis by (simp add: utf8_bytes_def a_def b_def c_def del: of_nat_add DecodeRune.simps)
  next
    case 4
    define a b c d where "a = r div 262144" and "b = r div 4096 mod 64" and "c = r div 64 mod 64" and "d = r mod 64"
    have r: "r = a * 262144 + b * 4096 + c * 64 + d" unfolding a_def b_def c_def d_def by (rule split_4)
    have k: "a < 5" "b < 64" "c < 64" "d < 64" using v(1) by (auto simp: a_def b_def c_def d_def)
    have "a = 0 \<Longrightarrow> 16 \<le> b" "a = 4 \<Longrightarrow> b < 16" using 4 v(1) r k by linarith+
    note decode_4 [OF k this, of rest]
    then have "DecodeRune (of_nat (240 + a) # of_nat (128 + b) # of_nat (128 + c) # of_nat (128 + d) # rest) = (r, 4)"
      by (simp only: r [symmetric])
    with 4 show ?thesis by (simp add: utf8_bytes_def a_def b_def c_def d_def del: of_nat_add DecodeRune.simps)
  qed
qed

lemma encode16_parts:
  assumes "0x10000 \<le> r" "r < 0x110000"
  shows "unat (fst (EncodeRune16 r)) = 0xD800 + (r - 0x10000) div 1024"
    and "unat (snd (EncodeRune16 r)) = 0xDC00 + (r - 0x10000) mod 1024"
    and "(r - 0x10000) div 1024 < 1024"
proof -
  show k: "(r - 0x10000) div 1024 < 1024" using assms by auto
  have "(r - 0x10000) mod 1024 < 1024" by simp
  with k show "unat (fst (EncodeRune16 r)) = 0xD800 + (r - 0x10000) div 1024"
    "unat (snd (EncodeRune16 r)) = 0xDC00 + (r - 0x10000) mod 1024"
    by (simp_all add: EncodeRune16_def del: of_nat_add)
qed

lemma decode16_encode16:
  assumes "0x10000 \<le> r" "r < 0x110000"
  shows "DecodeRune16 (fst (EncodeRune16 r)) (snd (EncodeRune16 r)) = r"
proof -
  have "(r - 0x10000) mod 1024 < 1024" by simp
  moreover have "(r - 0x10000) div 1024 * 1024 + (r - 0x10000) mod 1024 = r - 0x10000" by simp
  ultimately show ?thesis
    using encode16_parts [OF assms] assms by (simp add: DecodeRune16_def)
qed

end
