(* ===== verification/WinClipboard.thy ===== *)
theory WinClipboard
  imports Eventful Utf
begin

text \<open>
  The Windows clipboard (\<open>pkg/clipboard/windows\<close>: clipboard, text, ops, file). What the system's
  functions answer is an argument: whether a call succeeds (\<open>None\<close>) or its error. The conversion of
  pictures between PNG and bitmaps (\<open>image.go\<close>) is in \<open>WinImage\<close>; what its two functions give is an argument.
  Text in the clipboard is a list of 16-bit units that ends with a zero.
\<close>

datatype win_error =
    WinUnavailable
  | WinOpen
  | WinFilesNotAllowed
  | WinReadImage gostring
  | WinReadText gostring
  | WinEmptyFailed gostring
  | WinAlloc gostring
  | WinLock gostring
  | WinSetData gostring
  | WinWriteImage gostring
  | WinNoWindow
  | WinNoListener

section \<open>Text\<close>

text \<open>The loop of \<open>readText\<close> over the units before the zero.\<close>

fun units_to_utf8 :: "u16 list \<Rightarrow> byte list \<Rightarrow> byte list" where
  "units_to_utf8 [] buf = buf"
| "units_to_utf8 [a] buf =
     (if unat a < 128 then buf @ [of_nat (unat a)]
      else AppendRune buf (if surrogate (unat a) then RuneError else unat a))"
| "units_to_utf8 (a # b # s) buf =
     (if unat a < 128 then units_to_utf8 (b # s) (buf @ [of_nat (unat a)])
      else if 0xD800 \<le> unat a \<and> unat a < 0xDC00 \<and> 0xDC00 \<le> unat b \<and> unat b < 0xE000
      then units_to_utf8 s (AppendRune buf (DecodeRune16 a b))
      else units_to_utf8 (b # s) (AppendRune buf (if surrogate (unat a) then RuneError else unat a)))"

text \<open>\<open>hMem\<close>: the clipboard's memory (\<open>Inl None\<close>: there is none, with no error), and the error of locking it.\<close>

definition readText :: "gostring option + u16 list \<Rightarrow> gostring option \<Rightarrow> win_error + byte list" where
  "readText hMem lockErr =
     (case hMem of
        Inl (Some e) \<Rightarrow> Inl (WinReadText e)
      | Inl None \<Rightarrow> Inr []
      | Inr units \<Rightarrow>
          (case lockErr of
             Some e \<Rightarrow> Inl (WinReadText e)
           | None \<Rightarrow> Inr (units_to_utf8 (takeWhile (\<lambda>u. u \<noteq> 0) units) [])))"

text \<open>The runes of the bytes, and the units written for each.\<close>

function runes_of :: "byte list \<Rightarrow> nat list" where
  "runes_of buf = (if buf = [] then [] else fst (DecodeRune buf) # runes_of (drop (snd (DecodeRune buf)) buf))"
  by auto
termination
proof (relation "measure length")
  fix buf :: "byte list"
  assume "buf \<noteq> []"
  then show "(drop (snd (DecodeRune buf)) buf, buf) \<in> measure length"
    using DecodeRune_size [of buf] by (cases buf) auto
qed simp

declare runes_of.simps [simp del]

definition rune_units :: "nat \<Rightarrow> u16 list" where
  "rune_units r = (if 0x10000 \<le> r then [fst (EncodeRune16 r), snd (EncodeRune16 r)] else [of_nat r])"

definition text_units :: "byte list \<Rightarrow> u16 list" where
  "text_units buf = concat (map rune_units (runes_of buf)) @ [0]"

record text_answers =
  t_empty :: "gostring option"
  t_alloc :: "gostring option"
  t_lock :: "gostring option"
  t_set :: "gostring option"

text \<open>The second result is the text the clipboard has afterwards; \<open>old\<close> is the one before.\<close>

definition writeText :: "text_answers \<Rightarrow> u16 list option \<Rightarrow> byte list \<Rightarrow> win_error option \<times> u16 list option" where
  "writeText A old buf =
     (case t_empty A of
        Some e \<Rightarrow> (Some (WinEmptyFailed e), old)
      | None \<Rightarrow>
          if buf = [] then (None, None)
          else
            (case t_alloc A of
               Some e \<Rightarrow> (Some (WinAlloc e), None)
             | None \<Rightarrow>
                 (case t_lock A of
                    Some e \<Rightarrow> (Some (WinLock e), None)
                  | None \<Rightarrow>
                      (case t_set A of
                         Some e \<Rightarrow> (Some (WinSetData e), None)
                       | None \<Rightarrow> (None, Some (text_units buf))))))"

section \<open>Files\<close>

text \<open>An entry of the dropped files: its name, whether the name could be read, and its attributes.\<close>

record win_attr =
  FileAttributes :: u32
  LastWriteTime :: "u32 \<times> u32"
  FileSizeHigh :: u32
  FileSizeLow :: u32

record win_file =
  wf_name :: "u16 list"
  wf_read :: bool
  wf_attr :: "win_attr option"

definition high_low :: "u32 \<Rightarrow> u32 \<Rightarrow> u64" where
  "high_low hi lo = push_bit 32 (ucast hi) OR ucast lo"

definition readFile :: "win_file \<Rightarrow> file_info option" where
  "readFile f =
     (if wf_name f = [] \<or> \<not> wf_read f then None
      else
        (let path = units_to_utf8 (wf_name f) [] in
         case wf_attr f of
           None \<Rightarrow> Some \<lparr>Path = path, Size = 0, ModTime = 0\<rparr>
         | Some attr \<Rightarrow>
             if FileAttributes attr AND 0x10 \<noteq> 0 then None
             else Some \<lparr>Path = path, Size = high_low (FileSizeHigh attr) (FileSizeLow attr),
                    ModTime = high_low (fst (LastWriteTime attr)) (snd (LastWriteTime attr))\<rparr>))"

text \<open>\<open>uintptr(MaxClipboardFiles)\<close>: a negative limit would be a huge one.\<close>

definition files_limit :: "int \<Rightarrow> nat \<Rightarrow> nat" where
  "files_limit maxFiles count = min (nat (maxFiles mod 2 ^ 64)) count"

definition readFiles :: "clip_options \<Rightarrow> win_file list option \<Rightarrow> win_error + file_info list" where
  "readFiles opts hDrop =
     (case hDrop of
        None \<Rightarrow> Inl WinUnavailable
      | Some files \<Rightarrow> Inr (List.map_filter readFile (take (files_limit (MaxClipboardFiles opts) (length files)) files)))"

section \<open>Reading and writing\<close>

record captured =
  c_Bytes :: "byte list"
  c_Files :: "file_info list"
  c_Type :: mime_type

definition cFmtUnicodeText :: nat where
  "cFmtUnicodeText = 13"

definition cFmtHDrop :: nat where
  "cFmtHDrop = 15"

definition cFmtDIBV5 :: nat where
  "cFmtDIBV5 = 17"

text \<open>What five tries of opening the clipboard give; it is closed again whatever happens.\<close>

definition tryOpenClipboard :: "bool list \<Rightarrow> bool" where
  "tryOpenClipboard tries \<longleftrightarrow> True \<in> set (take 5 tries)"

record clipboard_now =
  open_tries :: "bool list"
  now_image :: "gostring + byte list"
  now_files :: "win_file list option"
  now_text :: "gostring option + u16 list"
  now_lock :: "gostring option"

definition readDetected :: "clip_options \<Rightarrow> clipboard_now \<Rightarrow> nat \<Rightarrow> win_error + captured" where
  "readDetected opts C t =
     (if \<not> tryOpenClipboard (open_tries C) then Inl WinOpen
      else if t = cFmtDIBV5 then
        (case now_image C of
           Inl e \<Rightarrow> Inl (WinReadImage e)
         | Inr b \<Rightarrow> Inr \<lparr>c_Bytes = b, c_Files = [], c_Type = TypeImage\<rparr>)
      else if t = cFmtHDrop then
        (if \<not> AllowCopyFiles opts then Inl WinFilesNotAllowed
         else
           (case readFiles opts (now_files C) of
              Inl e \<Rightarrow> Inl e
            | Inr files \<Rightarrow> Inr \<lparr>c_Bytes = [], c_Files = files, c_Type = TypePath\<rparr>))
      else
        (case readText (now_text C) (now_lock C) of
           Inl e \<Rightarrow> Inl e
         | Inr b \<Rightarrow> Inr \<lparr>c_Bytes = b, c_Files = [], c_Type = TypeText\<rparr>))"

text \<open>\<open>writeImage\<close> is what the function of \<open>image.go\<close> gives: its error, and the text it leaves.\<close>

definition win_write ::
  "bool list \<Rightarrow> text_answers \<Rightarrow> gostring option \<times> u16 list option \<Rightarrow> u16 list option \<Rightarrow> mime_type \<Rightarrow> byte list
   \<Rightarrow> win_error option \<times> u16 list option" where
  "win_write tries A writeImage old typ buf =
     (if \<not> tryOpenClipboard tries then (Some WinOpen, old)
      else if typ = TypeImage then
        (case writeImage of (err, text_left) \<Rightarrow> (map_option WinWriteImage err, text_left))
      else writeText A old buf)"

section \<open>Clipboard\<close>

record win_clip =
  win_barrier :: int
  win_dedup :: deduplicator
  win_sent :: "update list"

definition win_New :: win_clip where
  "win_New = \<lparr>win_barrier = 0, win_dedup = \<lparr>lastHash = 0\<rparr>, win_sent = []\<rparr>"

definition win_debounce :: int where
  "win_debounce = 200000000"

definition win_suppress :: "int \<Rightarrow> win_clip \<Rightarrow> win_clip" where
  "win_suppress now w = w\<lparr>win_barrier := now + win_debounce\<rparr>"

definition win_allowed :: "int \<Rightarrow> win_clip \<Rightarrow> bool \<times> win_clip" where
  "win_allowed now w =
     (let deadline = win_barrier w; newDeadline = now + win_debounce in
      if now < deadline then (False, w\<lparr>win_barrier := newDeadline\<rparr>) else (True, w\<lparr>win_barrier := newDeadline\<rparr>))"

definition signAndSend ::
  "(byte list \<Rightarrow> u64) \<Rightarrow> (byte list \<Rightarrow> byte list) \<Rightarrow> win_clip \<Rightarrow> captured \<Rightarrow> win_clip" where
  "signAndSend xxhash xxsum w capture =
     (if IsText (c_Type capture) then
        (let ((h, isNew), d) = dedup_Check xxhash (win_dedup w) (c_Bytes capture) in
         if isNew then
           w\<lparr>win_dedup := d, win_sent := win_sent w @
             [\<lparr>u_Data = c_Bytes capture, u_Size = of_nat (length (c_Bytes capture)), u_MimeType = c_Type capture,
                u_Hash = h, u_BatchID = 0, u_BatchTotal = 0\<rparr>]\<rparr>
         else w\<lparr>win_dedup := d\<rparr>)
      else if c_Files capture = [] then w
      else
        (let (updates, hash) = UpdatesFromFileInfo xxhash xxsum (c_Files capture);
             ((_, isNew), d) = dedup_Check xxhash (win_dedup w) hash
         in if isNew then w\<lparr>win_dedup := d, win_sent := win_sent w @ updates\<rparr> else w\<lparr>win_dedup := d\<rparr>))"

text \<open>The clipboard-update message of the window: \<open>r\<close> is the format found, 0 if the clipboard is empty.\<close>

definition wmClipboardUpdate ::
  "(byte list \<Rightarrow> u64) \<Rightarrow> (byte list \<Rightarrow> byte list) \<Rightarrow> clip_options \<Rightarrow> int \<Rightarrow> nat \<Rightarrow> clipboard_now \<Rightarrow> win_clip \<Rightarrow> win_clip" where
  "wmClipboardUpdate xxhash xxsum opts now r C w =
     (let (ok, w1) = win_allowed now w in
      if \<not> ok then w1
      else if r = 0 then w1
      else (case readDetected opts C r of Inl _ \<Rightarrow> w1 | Inr capture \<Rightarrow> signAndSend xxhash xxsum w1 capture))"

definition win_Write ::
  "int \<Rightarrow> bool list \<Rightarrow> text_answers \<Rightarrow> gostring option \<times> u16 list option \<Rightarrow> u16 list option \<Rightarrow> win_clip \<Rightarrow> mime_type \<Rightarrow> byte list
   \<Rightarrow> ((win_error + nat) \<times> u16 list option) \<times> win_clip" where
  "win_Write now tries A writeImage old w t dat =
     (case win_write tries A writeImage old t dat of
        (Some e, units) \<Rightarrow> ((Inl e, units), win_suppress now w)
      | (None, units) \<Rightarrow> ((Inr (length dat), units), win_suppress now w))"

text \<open>
  \<open>Watch\<close>: the messages of the window, as \<open>GetMessage\<close> gives them, until it gives none (\<open>NoMessage\<close>: the quit
  message, which the window's destruction posts at the end of the context, or an error). The first
  result is \<open>None\<close> while the loop waits; then it is the error returned, if any.
\<close>

datatype win_message =
    ClipboardUpdate int nat clipboard_now
  | WindowDestroyed
  | OtherMessage
  | NoMessage

definition wndProc ::
  "(byte list \<Rightarrow> u64) \<Rightarrow> (byte list \<Rightarrow> byte list) \<Rightarrow> clip_options \<Rightarrow> win_clip \<Rightarrow> win_message \<Rightarrow> win_clip" where
  "wndProc xxhash xxsum opts w m =
     (case m of ClipboardUpdate now r C \<Rightarrow> wmClipboardUpdate xxhash xxsum opts now r C w | _ \<Rightarrow> w)"

fun message_loop ::
  "(byte list \<Rightarrow> u64) \<Rightarrow> (byte list \<Rightarrow> byte list) \<Rightarrow> clip_options \<Rightarrow> win_clip \<Rightarrow> win_message list
   \<Rightarrow> win_error option option \<times> win_clip" where
  "message_loop xxhash xxsum opts w [] = (None, w)"
| "message_loop xxhash xxsum opts w (m # ms) =
     (if m = NoMessage then (Some None, w) else message_loop xxhash xxsum opts (wndProc xxhash xxsum opts w m) ms)"

text \<open>\<open>hwnd\<close> and \<open>listening\<close> tell whether the window could be made and registered.\<close>

definition win_Watch ::
  "(byte list \<Rightarrow> u64) \<Rightarrow> (byte list \<Rightarrow> byte list) \<Rightarrow> clip_options \<Rightarrow> bool \<Rightarrow> bool \<Rightarrow> win_clip \<Rightarrow> win_message list
   \<Rightarrow> win_error option option \<times> win_clip" where
  "win_Watch xxhash xxsum opts hwnd listening w ms =
     (if \<not> hwnd then (Some (Some WinNoWindow), w)
      else if \<not> listening then (Some (Some WinNoListener), w)
      else message_loop xxhash xxsum opts w ms)"

section \<open>Lemmas\<close>

text \<open>What is sent is text or files.\<close>

definition no_pictures :: "win_clip \<Rightarrow> bool" where
  "no_pictures w \<longleftrightarrow> list_all (\<lambda>u. u_MimeType u \<noteq> TypeImage) (win_sent w)"

lemma signAndSend_no_pictures: "no_pictures w \<Longrightarrow> no_pictures (signAndSend xxhash xxsum w capture)"
  by (auto simp: no_pictures_def signAndSend_def UpdatesFromFileInfo_def IsText_def Let_def list_all_iff split: prod.split)

lemma message_loop_no_pictures: "no_pictures w \<Longrightarrow> no_pictures (snd (message_loop xxhash xxsum opts w ms))"
proof (induction ms arbitrary: w)
  case (Cons m ms)
  have "no_pictures (wndProc xxhash xxsum opts w m)"
    using Cons.prems signAndSend_no_pictures
    by (auto simp: wndProc_def wmClipboardUpdate_def win_allowed_def Let_def no_pictures_def
        split: win_message.split sum.split if_splits)
  with Cons show ?case by simp
qed simp

lemma utf8_bytes_nonempty [simp]: "utf8_bytes r \<noteq> []"
  by (simp add: utf8_bytes_def)

lemma runes_of_utf8: "list_all valid_rune rs \<Longrightarrow> runes_of (concat (map utf8_bytes rs)) = rs"
proof (induction rs)
  case Nil
  then show ?case by (simp add: runes_of.simps)
next
  case (Cons r rs)
  have d: "DecodeRune (utf8_bytes r @ concat (map utf8_bytes rs)) = (r, length (utf8_bytes r))"
    using Cons.prems decode_utf8 by simp
  show ?case using Cons by (subst runes_of.simps) (simp add: d)
qed

lemma units_one:
  assumes "r < 0x10000" "\<not> surrogate r"
  shows "units_to_utf8 ((of_nat r :: u16) # s) buf = units_to_utf8 s (buf @ utf8_bytes r)"
proof -
  have u: "unat (of_nat r :: u16) = r" using assms(1) by simp
  have v: "valid_rune r" using assms by (simp add: valid_rune_def)
  have b: "utf8_bytes r = [of_nat r]" if "r < 128" using that by (simp add: utf8_bytes_def)
  have h: "\<not> (0xD800 \<le> r \<and> r < 0xDC00 \<and> P)" for P using assms(2) by (auto simp: surrogate_def)
  show ?thesis
    by (cases s) (auto simp: u b h v AppendRune_def assms(2))
qed

lemma units_rune:
  assumes "valid_rune r"
  shows "units_to_utf8 (rune_units r @ s) buf = units_to_utf8 s (buf @ utf8_bytes r)"
proof (cases "0x10000 \<le> r")
  case True
  have r: "r < 0x110000" using assms by (simp add: valid_rune_def)
  have m: "(r - 0x10000) mod 1024 < 1024" by simp
  have h: "0xD800 \<le> unat (fst (EncodeRune16 r)) \<and> unat (fst (EncodeRune16 r)) < 0xDC00
    \<and> 0xDC00 \<le> unat (snd (EncodeRune16 r)) \<and> unat (snd (EncodeRune16 r)) < 0xE000 \<and> \<not> unat (fst (EncodeRune16 r)) < 128"
    using encode16_parts [OF True r] m by simp
  show ?thesis
    using True h assms by (simp add: rune_units_def decode16_encode16 [OF True r] AppendRune_def)
next
  case False
  then show ?thesis using assms units_one [of r s buf] by (simp add: rune_units_def valid_rune_def)
qed

lemma units_runes:
  "list_all valid_rune rs \<Longrightarrow> units_to_utf8 (concat (map rune_units rs)) buf = buf @ concat (map utf8_bytes rs)"
  by (induction rs arbitrary: buf) (simp_all add: units_rune)

lemma rune_units_nonzero:
  assumes "valid_rune r" "r \<noteq> 0"
  shows "0 \<notin> set (rune_units r)"
proof (cases "0x10000 \<le> r")
  case True
  have "r < 0x110000" using assms by (simp add: valid_rune_def)
  from encode16_parts [OF True this] have "unat (fst (EncodeRune16 r)) \<noteq> 0" "unat (snd (EncodeRune16 r)) \<noteq> 0" by simp_all
  then have "fst (EncodeRune16 r) \<noteq> 0" "snd (EncodeRune16 r) \<noteq> 0" by (metis unat_0)+
  with True show ?thesis by (simp add: rune_units_def)
next
  case False
  then have "unat (of_nat r :: u16) \<noteq> 0" using assms(2) by simp
  then have "(of_nat r :: u16) \<noteq> 0" by (metis unat_0)
  with False show ?thesis by (simp add: rune_units_def)
qed

lemma before_zero:
  assumes "list_all valid_rune rs"
  shows "takeWhile (\<lambda>u. u \<noteq> 0) (concat (map rune_units rs) @ [0]) = concat (map rune_units (takeWhile (\<lambda>r. r \<noteq> 0) rs))"
  using assms
proof (induction rs)
  case (Cons r rs)
  show ?case
  proof (cases "r = 0")
    case True
    then show ?thesis by (simp add: rune_units_def)
  next
    case False
    then have "takeWhile (\<lambda>u. u \<noteq> 0) (rune_units r @ ys) = rune_units r @ takeWhile (\<lambda>u. u \<noteq> 0) ys" for ys
      using rune_units_nonzero [of r] Cons.prems by (intro takeWhile_append2) auto
    with False Cons show ?thesis by simp
  qed
qed simp

section \<open>Properties\<close>

text \<open>C37. Text through the Windows clipboard: valid UTF-8 text that the node writes there is read back, by
  the node of another user or a later run, byte for byte up to its first NUL character; text with no
  NUL comes back whole, with the characters outside the basic plane as surrogate pairs in between.\<close>

theorem windows_text_roundtrip:
  assumes "list_all valid_rune rs" and "rs \<noteq> []"
    and "win_write tries A img old TypeText (concat (map utf8_bytes rs)) = (None, Some units)"
  shows "readText (Inr units) None = Inr (concat (map utf8_bytes (takeWhile (\<lambda>r. r \<noteq> 0) rs)))"
proof -
  have u: "units = text_units (concat (map utf8_bytes rs))"
    using assms(2,3) by (auto simp: win_write_def writeText_def split: if_splits option.splits)
  have v: "list_all valid_rune (takeWhile (\<lambda>r. r \<noteq> 0) rs)"
    using assms(1) by (auto simp: list_all_iff dest: set_takeWhileD)
  show ?thesis
    using units_runes [OF v, of "[]"]
    by (simp add: readText_def u text_units_def runes_of_utf8 [OF assms(1)] before_zero [OF assms(1)])
qed

theorem windows_text_roundtrip_witness:
  "readText (Inr (text_units (concat (map utf8_bytes [72, 233, 0x20AC, 0x1F600])))) None
   = Inr [72, 195, 169, 226, 130, 172, 240, 159, 152, 128]"
proof -
  let ?rs = "[72, 233, 0x20AC, 0x1F600] :: nat list"
  have "list_all valid_rune ?rs" by (simp add: valid_rune_def surrogate_def)
  moreover have "win_write [True] \<lparr>t_empty = None, t_alloc = None, t_lock = None, t_set = None\<rparr> (None, None) None TypeText
      (concat (map utf8_bytes ?rs)) = (None, Some (text_units (concat (map utf8_bytes ?rs))))"
    by (simp add: win_write_def tryOpenClipboard_def writeText_def)
  ultimately have "readText (Inr (text_units (concat (map utf8_bytes ?rs)))) None
      = Inr (concat (map utf8_bytes (takeWhile (\<lambda>r. r \<noteq> 0) ?rs)))"
    by (intro windows_text_roundtrip) simp_all
  then show ?thesis by (simp add: utf8_bytes_def)
qed

text \<open>C36. Pictures copied on Windows are never sent: whatever messages the window gets while the clipboard
  is watched, whatever is in the clipboard then and however it is read, every update sent is of text or
  of files. A picture that was captured and encoded is dropped.\<close>

theorem windows_pictures_never_sent:
  "list_all (\<lambda>u. u_MimeType u \<noteq> TypeImage) (win_sent (snd (win_Watch xxhash xxsum opts hwnd listening win_New ms)))"
  using message_loop_no_pictures [of win_New xxhash xxsum opts ms]
  by (auto simp: win_Watch_def no_pictures_def win_New_def)

end
