(* ===== verification/WinImage.thy ===== *)
theory WinImage
  imports GoLib
begin

unbundle bit_operations_syntax

text \<open>
  Pictures in the Windows clipboard (\<open>pkg/clipboard/windows/image.go\<close>): a bitmap with its header of 124
  bytes in a block of memory, and the conversion from and to pictures. Memory is its list of bytes; a
  read beyond it, and a slice of negative length, are \<open>None\<close>. The PNG and BMP codecs are not modelled:
  \<open>png_Decode\<close>, \<open>png_Encode\<close> and \<open>bmp_Decode\<close> are arguments. What the system's calls answer is an argument.
\<close>

section \<open>Little-endian fields\<close>

definition le_bytes :: "nat \<Rightarrow> 'a::len word \<Rightarrow> byte list" where
  "le_bytes n w = map (\<lambda>k. ucast (drop_bit (8 * k) w)) [0 ..< n]"

definition le16_at :: "byte list \<Rightarrow> nat \<Rightarrow> u16" where
  "le16_at m i = ucast (m ! i) OR push_bit 8 (ucast (m ! (i + 1)))"

definition le32_at :: "byte list \<Rightarrow> nat \<Rightarrow> u32" where
  "le32_at m i =
     ucast (m ! i) OR push_bit 8 (ucast (m ! (i + 1))) OR push_bit 16 (ucast (m ! (i + 2))) OR push_bit 24 (ucast (m ! (i + 3)))"

section \<open>Pictures\<close>

text \<open>A picture: its size, and the colour \<open>At(x, y).RGBA()\<close> of each point, 16 bits a channel.\<close>

record picture =
  Dx :: nat
  Dy :: nat
  At :: "nat \<Rightarrow> nat \<Rightarrow> u16 \<times> u16 \<times> u16 \<times> u16"

text \<open>What \<open>image.NewRGBA\<close> makes: four bytes a point, row after row.\<close>

record rgba =
  RectW :: nat
  RectH :: nat
  Pix :: "byte list"

record bitmapV5Header =
  v5_Size :: u32
  v5_Width :: i32
  v5_Height :: i32
  v5_Planes :: u16
  v5_BitCount :: u16
  v5_Compression :: u32
  v5_SizeImage :: u32
  v5_RedMask :: u32
  v5_GreenMask :: u32
  v5_BlueMask :: u32
  v5_AlphaMask :: u32
  v5_CSType :: u32
  v5_Intent :: u32

definition headerSize :: nat where
  "headerSize = 124"

text \<open>The bytes of the header in memory: the end points, gammas and profile stay zero.\<close>

definition header_bytes :: "bitmapV5Header \<Rightarrow> byte list" where
  "header_bytes i =
     le_bytes 4 (v5_Size i) @ le_bytes 4 (v5_Width i) @ le_bytes 4 (v5_Height i) @ le_bytes 2 (v5_Planes i)
     @ le_bytes 2 (v5_BitCount i) @ le_bytes 4 (v5_Compression i) @ le_bytes 4 (v5_SizeImage i) @ replicate 16 0
     @ le_bytes 4 (v5_RedMask i) @ le_bytes 4 (v5_GreenMask i) @ le_bytes 4 (v5_BlueMask i) @ le_bytes 4 (v5_AlphaMask i)
     @ le_bytes 4 (v5_CSType i) @ replicate 48 0 @ le_bytes 4 (v5_Intent i) @ replicate 12 0"

section \<open>Writing\<close>

definition info_of :: "nat \<Rightarrow> nat \<Rightarrow> bitmapV5Header" where
  "info_of width height =
     \<lparr>v5_Size = of_nat headerSize, v5_Width = of_nat width, v5_Height = of_nat height, v5_Planes = 1, v5_BitCount = 32,
      v5_Compression = 0, v5_SizeImage = ucast (4 * (of_nat width :: i32) * of_nat height), v5_RedMask = 0xff0000,
      v5_GreenMask = 0xff00, v5_BlueMask = 0xff, v5_AlphaMask = 0xff000000, v5_CSType = 0x73524742, v5_Intent = 4\<rparr>"

definition high_byte :: "u16 \<Rightarrow> byte" where
  "high_byte c = ucast (drop_bit 8 c)"

definition bgra :: "u16 \<times> u16 \<times> u16 \<times> u16 \<Rightarrow> byte list" where
  "bgra c = (case c of (r, g, b, a) \<Rightarrow> [high_byte b, high_byte g, high_byte r, high_byte a])"

text \<open>The loop over the rows: the last row of the picture comes first.\<close>

definition bitmap_rows :: "picture \<Rightarrow> byte list" where
  "bitmap_rows img = concat (map (\<lambda>y. concat (map (\<lambda>x. bgra (At img x (Dy img - 1 - y))) [0 ..< Dx img])) [0 ..< Dy img])"

definition bitmap_of :: "picture \<Rightarrow> byte list" where
  "bitmap_of img = header_bytes (info_of (Dx img) (Dy img)) @ bitmap_rows img"

datatype image_error =
    ImgEmpty gostring
  | ImgNotPNG gostring
  | ImgAlloc gostring
  | ImgLock gostring
  | ImgSet gostring
  | ImgUnsupported
  | ImgNoDib gostring
  | ImgBmp gostring

text \<open>
  The errors of emptying the clipboard, allocating, locking and setting. The error of a picture that is
  not PNG carries the error number of the first call, which is zero there; \<open>errno0\<close> is its text. The
  second result is the bitmap the clipboard has afterwards.
\<close>

record image_answers =
  i_empty :: "gostring option"
  i_alloc :: "gostring option"
  i_lock :: "gostring option"
  i_set :: "gostring option"
  errno0 :: gostring

definition writeImage ::
  "(byte list \<Rightarrow> gostring + picture) \<Rightarrow> image_answers \<Rightarrow> byte list option \<Rightarrow> byte list \<Rightarrow> image_error option \<times> byte list option" where
  "writeImage png_Decode A old buf =
     (case i_empty A of
        Some e \<Rightarrow> (Some (ImgEmpty e), old)
      | None \<Rightarrow>
          if buf = [] then (None, None)
          else
            (case png_Decode buf of
               Inl _ \<Rightarrow> (Some (ImgNotPNG (errno0 A)), None)
             | Inr img \<Rightarrow>
                 (case i_alloc A of
                    Some e \<Rightarrow> (Some (ImgAlloc e), None)
                  | None \<Rightarrow>
                      (case i_lock A of
                         Some e \<Rightarrow> (Some (ImgLock e), None)
                       | None \<Rightarrow>
                           (case i_set A of
                              Some e \<Rightarrow> (Some (ImgSet e), None)
                            | None \<Rightarrow> (None, Some (bitmap_of img)))))))"

section \<open>Reading\<close>

text \<open>The row of the picture at \<open>yhat\<close>, from the row \<open>height - 1 - yhat\<close> of the bitmap.\<close>

definition picture_row :: "byte list \<Rightarrow> nat \<Rightarrow> nat \<Rightarrow> nat \<Rightarrow> byte list" where
  "picture_row pix width height yhat =
     concat (map (\<lambda>x. let idx = 4 * ((height - 1 - yhat) * width + x)
                      in [pix ! (idx + 2), pix ! (idx + 1), pix ! idx, pix ! (idx + 3)]) [0 ..< width])"

definition read_bitmap :: "byte list \<Rightarrow> (image_error + rgba) option" where
  "read_bitmap m =
     (if length m < headerSize then None
      else
        (let sz = unat (le32_at m 0);
             width = sint (le32_at m 4 :: i32);
             height = sint (le32_at m 8 :: i32);
             pixN = 4 * width * height
         in if le16_at m 14 \<noteq> 32 then Some (Inl ImgUnsupported)
            else if pixN < 0 then None
            else if int (length m) < int sz + pixN then None
            else if 0 \<le> width \<and> 0 \<le> height then
              (let pix = take (nat pixN) (drop sz m) in
               Some (Inr \<lparr>RectW = nat width, RectH = nat height,
                 Pix = concat (map (picture_row pix (nat width) (nat height)) [0 ..< nat height])\<rparr>))
            else Some (Inr \<lparr>RectW = nat \<bar>width\<bar>, RectH = nat \<bar>height\<bar>, Pix = replicate (nat pixN) 0\<rparr>)))"

text \<open>The fallback: the bytes of a bitmap file made from a block with a short header.\<close>

definition dib_file :: "byte list \<Rightarrow> byte list option" where
  "dib_file m =
     (if length m < 40 then None
      else
        (let sizeImage = le32_at m 20; dataSize0 = sizeImage + 14 + 40;
             dataSize = (if sizeImage = 0 \<and> le32_at m 16 = 0
                         then dataSize0 + le32_at m 8 * ((le32_at m 4 * ucast (le16_at m 14) div 8 + 3) AND NOT 3)
                         else dataSize0);
             n = unat dataSize - 14
         in if length m < n then None
            else Some ([66, 77] @ le_bytes 4 dataSize @ le_bytes 4 (0 :: u32) @ le_bytes 4 (54 :: u32) @ take n m)))"

text \<open>The block in the short format, the error of locking it, and what decoding and encoding give.\<close>

definition readImageDib ::
  "(byte list \<Rightarrow> gostring + byte list) \<Rightarrow> gostring + byte list \<Rightarrow> gostring option \<Rightarrow> (image_error + byte list) option" where
  "readImageDib toPng dib lockErr =
     (case dib of
        Inl e \<Rightarrow> Some (Inl (ImgNoDib e))
      | Inr m \<Rightarrow>
          (case lockErr of
             Some e \<Rightarrow> Some (Inl (ImgLock e))
           | None \<Rightarrow>
               (case dib_file m of
                  None \<Rightarrow> None
                | Some f \<Rightarrow> Some (case toPng f of Inl e \<Rightarrow> Inl (ImgBmp e) | Inr b \<Rightarrow> Inr b))))"

definition bmpToPng ::
  "(byte list \<Rightarrow> gostring + picture) \<Rightarrow> (picture \<Rightarrow> gostring + byte list) \<Rightarrow> byte list \<Rightarrow> gostring + byte list" where
  "bmpToPng bmp_Decode png_Encode buf = (case bmp_Decode buf of Inl e \<Rightarrow> Inl e | Inr img \<Rightarrow> png_Encode img)"

definition readImage ::
  "(rgba \<Rightarrow> byte list) \<Rightarrow> (byte list \<Rightarrow> gostring + byte list) \<Rightarrow> byte list option \<Rightarrow> gostring option
   \<Rightarrow> gostring + byte list \<Rightarrow> gostring option \<Rightarrow> (image_error + byte list) option" where
  "readImage png_Encode toPng v5 lockErr dib dibLockErr =
     (case v5 of
        None \<Rightarrow> readImageDib toPng dib dibLockErr
      | Some m \<Rightarrow>
          (case lockErr of
             Some e \<Rightarrow> Some (Inl (ImgLock e))
           | None \<Rightarrow> map_option (map_sum id png_Encode) (read_bitmap m)))"

section \<open>Lemmas\<close>

lemma le_bytes_length [simp]: "length (le_bytes n w) = n"
  by (simp add: le_bytes_def)

lemma header_length [simp]: "length (header_bytes i) = headerSize"
  by (simp add: header_bytes_def headerSize_def)

lemma le_bytes_4: "le_bytes 4 (w :: u32) = [ucast w, ucast (drop_bit 8 w), ucast (drop_bit 16 w), ucast (drop_bit 24 w)]"
  by (simp add: le_bytes_def upt_rec)

lemma le_bytes_2: "le_bytes 2 (w :: u16) = [ucast w, ucast (drop_bit 8 w)]"
  by (simp add: le_bytes_def upt_rec)

lemma le32_at_bytes: "length pre = i \<Longrightarrow> le32_at (pre @ le_bytes 4 (w :: u32) @ post) i = w"
  apply (rule bit_word_eqI)
  apply (auto simp: le32_at_def le_bytes_4 nth_append bit_simps)
  subgoal for n by (cases "24 \<le> n") auto
  done

lemma le16_at_bytes: "length pre = i \<Longrightarrow> le16_at (pre @ le_bytes 2 (w :: u16) @ post) i = w"
  by (rule bit_word_eqI) (auto simp: le16_at_def le_bytes_2 nth_append bit_simps)

lemma header_fields:
  "le32_at (header_bytes i @ rest) 0 = v5_Size i" "le32_at (header_bytes i @ rest) 4 = v5_Width i"
  "le32_at (header_bytes i @ rest) 8 = v5_Height i" "le16_at (header_bytes i @ rest) 14 = v5_BitCount i"
proof -
  note h = header_bytes_def append_assoc
  show "le32_at (header_bytes i @ rest) 0 = v5_Size i"
    unfolding h using le32_at_bytes [of "[]" 0 "v5_Size i"] by simp
  show "le32_at (header_bytes i @ rest) 4 = v5_Width i"
    unfolding h using le32_at_bytes [of "le_bytes 4 (v5_Size i)" 4 "v5_Width i"] by simp
  show "le32_at (header_bytes i @ rest) 8 = v5_Height i"
    unfolding h using le32_at_bytes [of "le_bytes 4 (v5_Size i) @ le_bytes 4 (v5_Width i)" 8 "v5_Height i"] by simp
  show "le16_at (header_bytes i @ rest) 14 = v5_BitCount i"
    unfolding h
    using le16_at_bytes [of "le_bytes 4 (v5_Size i) @ le_bytes 4 (v5_Width i) @ le_bytes 4 (v5_Height i) @ le_bytes 2 (v5_Planes i)" 14 "v5_BitCount i"]
    by simp
qed

text \<open>The byte of a list of blocks of one length.\<close>

lemma nth_blocks:
  assumes "\<And>x. x < n \<Longrightarrow> length (f x) = k" and "i < n" and "j < k"
  shows "concat (map f [0 ..< n]) ! (i * k + j) = f i ! j"
  using assms
proof (induction n)
  case (Suc n)
  have len: "length (concat (map f [0 ..< n])) = n * k"
    using Suc.prems(1) by (induction n) (auto simp: length_concat)
  show ?case
  proof (cases "i = n")
    case True
    then show ?thesis using len Suc.prems(1,3) by (simp add: nth_append)
  next
    case False
    then have "i < n" using Suc.prems(2) by simp
    moreover have "i * k + j < n * k"
      using \<open>i < n\<close> Suc.prems(3) mult_le_mono1 [of "Suc i" n k] by simp
    ultimately show ?thesis using Suc len by (simp add: nth_append)
  qed
qed simp

lemma length_blocks:
  "(\<And>x. x < n \<Longrightarrow> length (f x) = k) \<Longrightarrow> length (concat (map f [0 ..< n])) = n * k"
  by (induction n) (auto simp: length_concat)

text \<open>The picture read from a bitmap that was written.\<close>

definition rgba_bytes :: "u16 \<times> u16 \<times> u16 \<times> u16 \<Rightarrow> byte list" where
  "rgba_bytes c = (case c of (r, g, b, a) \<Rightarrow> [high_byte r, high_byte g, high_byte b, high_byte a])"

definition rgba_of :: "picture \<Rightarrow> rgba" where
  "rgba_of img = \<lparr>RectW = Dx img, RectH = Dy img,
     Pix = concat (map (\<lambda>y. concat (map (\<lambda>x. rgba_bytes (At img x y)) [0 ..< Dx img])) [0 ..< Dy img])\<rparr>"

lemma bgra_length [simp]: "length (bgra c) = 4"
  by (simp add: bgra_def split: prod.split)

lemma row_length: "length (concat (map (\<lambda>x. bgra (At img x y)) [0 ..< w])) = 4 * w"
  using length_blocks [of w "\<lambda>x. bgra (At img x y)" 4] by simp

lemma bitmap_rows_length: "length (bitmap_rows img) = 4 * Dx img * Dy img"
  unfolding bitmap_rows_def by (subst length_blocks [where k = "4 * Dx img"]) (simp_all only: row_length, simp)

lemma bitmap_rows_nth:
  assumes "x < Dx img" "y < Dy img" "j < 4"
  shows "bitmap_rows img ! (4 * (y * Dx img + x) + j) = bgra (At img x (Dy img - 1 - y)) ! j"
proof -
  let ?row = "\<lambda>y. concat (map (\<lambda>x. bgra (At img x (Dy img - 1 - y))) [0 ..< Dx img])"
  have e: "4 * (y * Dx img + x) + j = y * (4 * Dx img) + (x * 4 + j)" by (simp add: algebra_simps)
  have "x * 4 + j < 4 * Dx img" using assms by simp
  then have "bitmap_rows img ! (4 * (y * Dx img + x) + j) = ?row y ! (x * 4 + j)"
    unfolding bitmap_rows_def e by (intro nth_blocks row_length assms(2))
  also have "\<dots> = bgra (At img x (Dy img - 1 - y)) ! j"
    using nth_blocks [of "Dx img" "\<lambda>x. bgra (At img x (Dy img - 1 - y))" 4 x j] assms(1,3) by simp
  finally show ?thesis .
qed

lemma picture_row_rows:
  assumes "y < Dy img"
  shows "picture_row (bitmap_rows img) (Dx img) (Dy img) y = concat (map (\<lambda>x. rgba_bytes (At img x y)) [0 ..< Dx img])"
proof -
  have "[bitmap_rows img ! (4 * ((Dy img - 1 - y) * Dx img + x) + 2), bitmap_rows img ! (4 * ((Dy img - 1 - y) * Dx img + x) + 1),
      bitmap_rows img ! (4 * ((Dy img - 1 - y) * Dx img + x)), bitmap_rows img ! (4 * ((Dy img - 1 - y) * Dx img + x) + 3)]
      = rgba_bytes (At img x y)" if "x < Dx img" for x
    using bitmap_rows_nth [of x img "Dy img - 1 - y" 0] bitmap_rows_nth [of x img "Dy img - 1 - y" 1]
      bitmap_rows_nth [of x img "Dy img - 1 - y" 2] bitmap_rows_nth [of x img "Dy img - 1 - y" 3] that assms
    by (cases "At img x y") (simp add: bgra_def rgba_bytes_def)
  then show ?thesis
    unfolding picture_row_def Let_def by (intro arg_cong [where f = concat] map_cong) auto
qed

lemma sint_of_small: "n < 2 ^ 31 \<Longrightarrow> sint (of_nat n :: i32) = int n"
  by (simp add: signed_of_nat signed_take_bit_int_eq_self)

lemma read_written:
  assumes "Dx img < 2 ^ 31" "Dy img < 2 ^ 31"
  shows "read_bitmap (bitmap_of img) = Some (Inr (rgba_of img))"
proof -
  let ?m = "header_bytes (info_of (Dx img) (Dy img)) @ bitmap_rows img"
  have w: "sint (le32_at ?m 4 :: i32) = int (Dx img)" "sint (le32_at ?m 8 :: i32) = int (Dy img)"
    "unat (le32_at ?m 0) = headerSize" "le16_at ?m 14 = 32"
    using assms sint_of_small by (simp_all add: header_fields info_of_def headerSize_def)
  have n: "nat (4 * int (Dx img) * int (Dy img)) = 4 * Dx img * Dy img" by (simp add: nat_mult_distrib)
  have rows: "concat (map (picture_row (bitmap_rows img) (Dx img) (Dy img)) [0 ..< Dy img])
      = concat (map (\<lambda>y. concat (map (\<lambda>x. rgba_bytes (At img x y)) [0 ..< Dx img])) [0 ..< Dy img])"
    by (intro arg_cong [where f = concat] map_cong) (simp_all add: picture_row_rows)
  have "\<not> 4 * int (Dx img) * int (Dy img) < 0" by (simp add: not_less)
  then show ?thesis
    unfolding read_bitmap_def bitmap_of_def w Let_def n using rows bitmap_rows_length [of img]
    by (simp add: rgba_of_def)
qed

section \<open>Properties\<close>

text \<open>C38. Pictures through the Windows clipboard: a picture that the node writes there as a bitmap is read
  back with the same size and, at every point, the high byte of each of the four colour channels: the
  rows, which a bitmap stores from the bottom up, and the order of the channels come out right.\<close>

theorem windows_picture_roundtrip:
  assumes "png_Decode buf = Inr img" and "buf \<noteq> []" and "Dx img < 2 ^ 31" and "Dy img < 2 ^ 31"
    and "writeImage png_Decode A old buf = (None, m)"
  shows "readImage png_Encode toPng m None dib dibLockErr = Some (Inr (png_Encode (rgba_of img)))"
proof -
  have "m = Some (bitmap_of img)"
    using assms(1,2,5) by (auto simp: writeImage_def split: option.splits)
  then show ?thesis
    using read_written [OF assms(3,4)] by (simp add: readImage_def)
qed

theorem windows_picture_roundtrip_witness:
  "readImage Pix (\<lambda>_. Inl []) (Some (bitmap_of \<lparr>Dx = 1, Dy = 2, At = (\<lambda>x y. (of_nat y * 0x100, 0x200, 0x300, 0xFFFF))\<rparr>)) None (Inl []) None
   = Some (Inr [0, 2, 3, 255, 1, 2, 3, 255])"
proof -
  let ?img = "\<lparr>Dx = 1, Dy = 2, At = (\<lambda>x y. (of_nat y * 0x100, 0x200, 0x300, 0xFFFF))\<rparr>"
  have "readImage Pix (\<lambda>_. Inl []) (Some (bitmap_of ?img)) None (Inl []) None = Some (Inr (Pix (rgba_of ?img)))"
    by (rule windows_picture_roundtrip [of "\<lambda>_. Inr ?img" "[1]" ?img
          "\<lparr>i_empty = None, i_alloc = None, i_lock = None, i_set = None, errno0 = []\<rparr>" None])
      (simp_all add: writeImage_def)
  then show ?thesis by (simp add: rgba_of_def rgba_bytes_def high_byte_def upt_rec)
qed

text \<open>A bitmap whose rows run from the top down has a negative height, and reading it panics.\<close>

lemma top_down_panics:
  "0 < w \<Longrightarrow> w < 2 ^ 31 \<Longrightarrow> h < 0 \<Longrightarrow> - (2 ^ 31) \<le> h \<Longrightarrow>
   read_bitmap (header_bytes ((info_of 1 1)\<lparr>v5_Width := word_of_int w, v5_Height := word_of_int h\<rparr>) @ rest) = None"
  by (simp add: read_bitmap_def header_fields info_of_def Let_def sint_sbintrunc' signed_take_bit_int_eq_self
    mult_less_0_iff)

end
