(* ===== verification/MacClipboard.thy ===== *)
theory MacClipboard
  imports Eventful
begin

text \<open>
  The macOS clipboard (\<open>pkg/clipboard/mac/native.go\<close>). The pasteboard is reached through the
  Objective-C runtime: what it holds at a tick is an argument, and what a write puts there is a result.
  A C string is given with the memory it starts in. Times are Unix nanoseconds; the updates sent to the
  node are \<open>m_sent\<close>; \<open>lstat\<close>, \<open>xxhash\<close> and \<open>xxsum\<close> are as in \<open>Eventful\<close>.
\<close>

definition mac_debounce :: int where
  "mac_debounce = 500000000"

record mac_clip =
  mac_barrier :: int
  mac_dedup :: deduplicator
  lastCount :: int
  m_sent :: "update list"

text \<open>\<open>count\<close> is the change count of the pasteboard when watching starts.\<close>

definition mac_New :: "int \<Rightarrow> mac_clip" where
  "mac_New count = \<lparr>mac_barrier = 0, mac_dedup = \<lparr>lastHash = 0\<rparr>, lastCount = count, m_sent = []\<rparr>"

definition mac_suppress :: "int \<Rightarrow> mac_clip \<Rightarrow> mac_clip" where
  "mac_suppress now m = m\<lparr>mac_barrier := now + mac_debounce\<rparr>"

definition mac_allowed :: "int \<Rightarrow> mac_clip \<Rightarrow> bool" where
  "mac_allowed now m \<longleftrightarrow> mac_barrier m \<le> now"

definition cStringToGoBytes :: "byte list \<Rightarrow> byte list" where
  "cStringToGoBytes memory = takeWhile (\<lambda>b. b \<noteq> 0) memory"

section \<open>Watching\<close>

text \<open>The pasteboard: its picture, its list of file names (a name that cannot be had is \<open>None\<close>), its text.\<close>

record pasteboard =
  changeCount :: int
  p_png :: "byte list option"
  p_files :: "byte list option list option"
  p_text :: "byte list option"

definition mac_file :: "lstat \<Rightarrow> byte list option \<Rightarrow> file_info option" where
  "mac_file lstat name =
     (case name of
        None \<Rightarrow> None
      | Some memory \<Rightarrow>
          (let path = cStringToGoBytes memory in
           case lstat path of
             None \<Rightarrow> None
           | Some (isDir, sz, mtime) \<Rightarrow> if isDir then None else Some \<lparr>Path = path, Size = sz, ModTime = mtime\<rparr>))"

definition mac_files :: "lstat \<Rightarrow> clip_options \<Rightarrow> byte list option list \<Rightarrow> file_info list" where
  "mac_files lstat opts names = List.map_filter (mac_file lstat) (take (nat (MaxClipboardFiles opts)) names)"

definition plain_mac_update :: "mime_type \<Rightarrow> u64 \<Rightarrow> byte list \<Rightarrow> update" where
  "plain_mac_update t h dat = \<lparr>u_Data = dat, u_Size = 0, u_MimeType = t, u_Hash = h, u_BatchID = 0, u_BatchTotal = 0\<rparr>"

text \<open>The three parts of a tick; the first result tells whether the tick is over.\<close>

definition tick_png :: "(byte list \<Rightarrow> u64) \<Rightarrow> pasteboard \<Rightarrow> mac_clip \<Rightarrow> bool \<times> mac_clip" where
  "tick_png xxhash pb m =
     (case p_png pb of
        None \<Rightarrow> (False, m)
      | Some dat \<Rightarrow>
          if dat = [] then (False, m)
          else
            (let ((h, isNew), d) = dedup_Check xxhash (mac_dedup m) dat in
             if isNew then (True, m\<lparr>mac_dedup := d, m_sent := m_sent m @ [plain_mac_update TypeImage h dat]\<rparr>)
             else (False, m\<lparr>mac_dedup := d\<rparr>)))"

definition tick_files ::
  "(byte list \<Rightarrow> u64) \<Rightarrow> (byte list \<Rightarrow> byte list) \<Rightarrow> lstat \<Rightarrow> clip_options \<Rightarrow> pasteboard \<Rightarrow> mac_clip \<Rightarrow> bool \<times> mac_clip" where
  "tick_files xxhash xxsum lstat opts pb m =
     (case p_files pb of
        None \<Rightarrow> (False, m)
      | Some names \<Rightarrow>
          if names = [] \<or> \<not> AllowCopyFiles opts then (False, m)
          else
            (let files = mac_files lstat opts names in
             if files = [] then (False, m)
             else
               (let (updates, hash) = UpdatesFromFileInfo xxhash xxsum files;
                    ((_, isNew), d) = dedup_Check xxhash (mac_dedup m) hash
                in if isNew then (True, m\<lparr>mac_dedup := d, m_sent := m_sent m @ updates\<rparr>) else (False, m\<lparr>mac_dedup := d\<rparr>))))"

definition tick_text :: "(byte list \<Rightarrow> u64) \<Rightarrow> pasteboard \<Rightarrow> mac_clip \<Rightarrow> mac_clip" where
  "tick_text xxhash pb m =
     (case p_text pb of
        None \<Rightarrow> m
      | Some memory \<Rightarrow>
          (let dat = cStringToGoBytes memory; ((h, isNew), d) = dedup_Check xxhash (mac_dedup m) dat in
           if isNew then m\<lparr>mac_dedup := d, m_sent := m_sent m @ [plain_mac_update TypeText h dat]\<rparr> else m\<lparr>mac_dedup := d\<rparr>))"

definition mac_tick ::
  "(byte list \<Rightarrow> u64) \<Rightarrow> (byte list \<Rightarrow> byte list) \<Rightarrow> lstat \<Rightarrow> clip_options \<Rightarrow> int \<Rightarrow> pasteboard \<Rightarrow> mac_clip \<Rightarrow> mac_clip" where
  "mac_tick xxhash xxsum lstat opts now pb m =
     (if changeCount pb = lastCount m then m
      else if \<not> mac_allowed now m then m\<lparr>lastCount := changeCount pb\<rparr>
      else
        (let (over1, m1) = tick_png xxhash pb (m\<lparr>lastCount := changeCount pb\<rparr>) in
         if over1 then m1
         else
           (let (over2, m2) = tick_files xxhash xxsum lstat opts pb m1 in
            if over2 then m2 else tick_text xxhash pb m2)))"

text \<open>The loop: ticks, until the context ends. The first result tells whether it has ended.\<close>

fun mac_Watch ::
  "(byte list \<Rightarrow> u64) \<Rightarrow> (byte list \<Rightarrow> byte list) \<Rightarrow> lstat \<Rightarrow> clip_options \<Rightarrow> mac_clip \<Rightarrow> (int \<times> pasteboard) option list
   \<Rightarrow> bool \<times> mac_clip" where
  "mac_Watch xxhash xxsum lstat opts m [] = (False, m)"
| "mac_Watch xxhash xxsum lstat opts m (None # is) = (True, m)"
| "mac_Watch xxhash xxsum lstat opts m (Some (now, pb) # is) =
     mac_Watch xxhash xxsum lstat opts (mac_tick xxhash xxsum lstat opts now pb m) is"

section \<open>Writing\<close>

text \<open>What a write puts on the cleared pasteboard; an empty picture, list or text is still put there.\<close>

record board =
  b_png :: "byte list option"
  b_files :: "byte list list option"
  b_text :: "byte list option"

definition path_lines :: "byte list \<Rightarrow> byte list list" where
  "path_lines dat = filter (\<lambda>l. l \<noteq> []) (map trim_space (split_on 10 dat))"

definition board_of :: "mime_type \<Rightarrow> byte list \<Rightarrow> board" where
  "board_of t dat =
     (case t of
        TypeImage \<Rightarrow> \<lparr>b_png = Some dat, b_files = None, b_text = None\<rparr>
      | TypePath \<Rightarrow>
          \<lparr>b_png = None, b_files = Some (path_lines dat),
             b_text = (case path_lines dat of [] \<Rightarrow> None | first # _ \<Rightarrow> Some first)\<rparr>
      | _ \<Rightarrow> \<lparr>b_png = None, b_files = None, b_text = Some dat\<rparr>)"

text \<open>\<open>ret\<close> is what setting the content returns.\<close>

definition mac_Write ::
  "(byte list \<Rightarrow> u64) \<Rightarrow> int \<Rightarrow> bool \<Rightarrow> mac_clip \<Rightarrow> mime_type \<Rightarrow> byte list \<Rightarrow> nat option \<times> board \<times> mac_clip" where
  "mac_Write xxhash now ret m t dat =
     (let m1 = mac_suppress now m in
      if \<not> ret then (None, board_of t dat, m1)
      else (Some (length dat), board_of t dat, m1\<lparr>mac_dedup := dedup_Mark xxhash (mac_dedup m1) dat\<rparr>))"

section \<open>Lemmas\<close>

lemma tick_unchanged: "changeCount pb = lastCount m \<Longrightarrow> mac_tick xxhash xxsum lstat opts now pb m = m"
  by (simp add: mac_tick_def)

lemma tick_suppressed:
  "now < mac_barrier m \<Longrightarrow> mac_tick xxhash xxsum lstat opts now pb m = m\<lparr>lastCount := changeCount pb\<rparr>"
  by (simp add: mac_tick_def mac_allowed_def)

text \<open>A picture that was seen already does not end the tick: the text beside it is sent as a new copy.\<close>

lemma seen_picture_sends_text:
  assumes "changeCount pb \<noteq> lastCount m" "mac_barrier m \<le> now" "p_png pb = Some dat"
    and "xxhash dat = lastHash (mac_dedup m)" "p_files pb = None"
    and "p_text pb = Some txt" "xxhash (cStringToGoBytes txt) \<noteq> lastHash (mac_dedup m)"
  shows "m_sent (mac_tick xxhash xxsum lstat opts now pb m)
    = m_sent m @ [plain_mac_update TypeText (xxhash (cStringToGoBytes txt)) (cStringToGoBytes txt)]"
  using assms by (simp add: mac_tick_def mac_allowed_def tick_png_def tick_files_def tick_text_def
    dedup_Check_def dedup_Hash_def Let_def)

text \<open>Ticks that find the change count unchanged.\<close>

lemma ticks_unchanged:
  "list_all (\<lambda>(now, pb). changeCount pb = lastCount m) ts \<Longrightarrow>
   mac_Watch xxhash xxsum lstat opts m (map Some ts) = (False, m)"
  by (induction ts) (auto simp: tick_unchanged)

section \<open>Properties\<close>

text \<open>C39. What the node writes to the macOS pasteboard is not sent back: the first tick less than half a
  second after the write takes note of the change and sends nothing, and no later tick does, however
  late, as long as nothing else changes the pasteboard. (A copy the user makes in that time is lost
  with it.)\<close>

theorem mac_write_not_sent:
  assumes "mac_Write xxhash now ret m t dat = (r, b, m1)" and "now1 < now + mac_debounce"
    and "list_all (\<lambda>(now, pb'). changeCount pb' = changeCount pb) ts"
  shows "mac_Watch xxhash xxsum lstat opts m1 (Some (now1, pb) # map Some ts) = (False, m1\<lparr>lastCount := changeCount pb\<rparr>)
    \<and> m_sent m1 = m_sent m"
proof -
  have m1: "mac_barrier m1 = now + mac_debounce" "m_sent m1 = m_sent m"
    using assms(1) by (auto simp: mac_Write_def mac_suppress_def Let_def split: if_splits)
  then show ?thesis
    using assms(2,3) ticks_unchanged [of "m1\<lparr>lastCount := changeCount pb\<rparr>" ts xxhash xxsum lstat opts]
    by (simp add: tick_suppressed)
qed

definition sample_board :: "int \<Rightarrow> pasteboard" where
  "sample_board n = \<lparr>changeCount = n, p_png = None, p_files = None, p_text = Some [104, 105, 0]\<rparr>"

theorem mac_write_not_sent_witness:
  "m_sent (snd (mac_Watch (\<lambda>b. of_nat (length b)) (\<lambda>b. b) (\<lambda>_. None) \<lparr>AllowCopyFiles = True, MaxFileSize = 1, MaxClipboardFiles = 1\<rparr>
     (snd (snd (mac_Write (\<lambda>b. of_nat (length b)) 0 True (mac_New 3) TypeText [104, 105])))
     [Some (400000000, sample_board 4), Some (2000000000, sample_board 4)])) = []"
proof -
  let ?h = "\<lambda>b :: byte list. of_nat (length b) :: u64"
  let ?w = "mac_Write ?h 0 True (mac_New 3) TypeText [104, 105]"
  have w: "?w = (fst ?w, fst (snd ?w), snd (snd ?w))" by simp
  show ?thesis
    using mac_write_not_sent [OF w, of 400000000 "sample_board 4" "[(2000000000, sample_board 4)]" "\<lambda>b. b" "\<lambda>_. None"
        "\<lparr>AllowCopyFiles = True, MaxFileSize = 1, MaxClipboardFiles = 1\<rparr>"]
    by (simp add: mac_debounce_def mac_New_def)
qed

end
