(* ===== verification/X11.thy ===== *)
theory X11
  imports Eventful
begin

unbundle bit_operations_syntax

text \<open>
  The X11 clipboard (\<open>pkg/clipboard/x11\<close>). The protocol library and the server are third-party: the
  answers to \<open>GetProperty\<close> are the argument \<open>get\<close> (whether to delete, property, type, offset-free length
  in 4-byte units), and what the code sends to the server is recorded in \<open>requests\<close>. Atoms, windows
  and times are 32-bit numbers. The updates sent to the node are \<open>x_sent\<close>.
\<close>

record atom_cache =
  CLIPBOARD :: u32
  TARGETS :: u32
  TIMESTAMP :: u32
  SAVE_TARGETS :: u32
  DELETE :: u32
  INCR :: u32
  UTF8_STRING :: u32
  STRING :: u32
  IMAGE_PNG :: u32
  URI_LIST :: u32
  LocalProp :: u32

definition atom_names :: "gostring list" where
  "atom_names =
     [str ''CLIPBOARD'', str ''TARGETS'', str ''TIMESTAMP'', str ''SAVE_TARGETS'', str ''DELETE'', str ''INCR'',
      str ''UTF8_STRING'', str ''STRING'', str ''image/png'', str ''text/uri-list'', str ''BELPHEGOR_SELECTION'']"

text \<open>The replies in order, up to the first error.\<close>

fun intern_all :: "(gostring \<Rightarrow> gostring + u32) \<Rightarrow> gostring list \<Rightarrow> gostring + u32 list" where
  "intern_all InternAtom [] = Inr []"
| "intern_all InternAtom (n # ns) =
     (case InternAtom n of
        Inl e \<Rightarrow> Inl e
      | Inr a \<Rightarrow> (case intern_all InternAtom ns of Inl e \<Rightarrow> Inl e | Inr as \<Rightarrow> Inr (a # as)))"

definition loadAtoms :: "(gostring \<Rightarrow> gostring + u32) \<Rightarrow> gostring + atom_cache" where
  "loadAtoms InternAtom =
     (case intern_all InternAtom atom_names of
        Inl e \<Rightarrow> Inl e
      | Inr as \<Rightarrow>
          Inr \<lparr>CLIPBOARD = as ! 0, TARGETS = as ! 1, TIMESTAMP = as ! 2, SAVE_TARGETS = as ! 3, DELETE = as ! 4,
             INCR = as ! 5, UTF8_STRING = as ! 6, STRING = as ! 7, IMAGE_PNG = as ! 8, URI_LIST = as ! 9,
             LocalProp = as ! 10\<rparr>)"

definition AtomNone :: u32 where
  "AtomNone = 0"

definition AtomAtom :: u32 where
  "AtomAtom = 4"

definition AtomInteger :: u32 where
  "AtomInteger = 19"

definition maxPropSize :: nat where
  "maxPropSize = 65536"

definition maxDataSize :: nat where
  "maxDataSize = 50 * 1024 * 1024"

text \<open>A property change has the requestor, the property, its type, its format, its length and its bytes.\<close>

datatype x_request =
    ConvertSelection u32 u32 u32
  | ChangeProperty u32 u32 u32 nat nat "byte list"
  | SendEvent u32 "byte list"
  | DeleteProperty u32
  | SetSelectionOwner u32

record x11_clip =
  atoms :: atom_cache
  x_win :: u32
  x_dedup :: deduplicator
  serving :: "byte list"
  serveTyp :: u32
  requests :: "x_request list"
  x_sent :: "update list"

definition request :: "x11_clip \<Rightarrow> x_request \<Rightarrow> x11_clip" where
  "request c r = c\<lparr>requests := requests c @ [r]\<rparr>"

section \<open>Writing and serving\<close>

datatype x11_error = ErrNotInitialized | ErrSelectionOwner gostring

text \<open>\<open>conn\<close> tells whether \<open>init\<close> has run; \<open>own\<close> is the answer to taking the selection.\<close>

definition x11_Write ::
  "(byte list \<Rightarrow> u64) \<Rightarrow> bool \<Rightarrow> gostring option \<Rightarrow> x11_clip \<Rightarrow> mime_type \<Rightarrow> byte list \<Rightarrow> (x11_error + nat) \<times> x11_clip" where
  "x11_Write xxhash conn own c t dat =
     (if dat = [] then (Inr 0, c)
      else if \<not> conn then (Inl ErrNotInitialized, c)
      else
        (let c1 = (if t = TypePath then c\<lparr>serveTyp := URI_LIST (atoms c), serving := FormatURIList dat\<rparr>
                   else if t = TypeImage then c\<lparr>serveTyp := IMAGE_PNG (atoms c), serving := dat\<rparr>
                   else c\<lparr>serveTyp := UTF8_STRING (atoms c), serving := dat\<rparr>);
             c2 = request (c1\<lparr>x_dedup := dedup_Mark xxhash (x_dedup c1) dat\<rparr>) (SetSelectionOwner (CLIPBOARD (atoms c)))
         in case own of Some e \<Rightarrow> (Inl (ErrSelectionOwner e), c2) | None \<Rightarrow> (Inr (length dat), c2)))"

record selection_request =
  sr_Time :: u32
  sr_Requestor :: u32
  sr_Selection :: u32
  sr_Target :: u32
  sr_Property :: u32

definition le32 :: "u32 \<Rightarrow> byte list" where
  "le32 w = map (\<lambda>k. ucast (drop_bit (8 * k) w)) [0 ..< 4]"

definition served_targets :: "x11_clip \<Rightarrow> u32 list" where
  "served_targets c =
     [TARGETS (atoms c), TIMESTAMP (atoms c), SAVE_TARGETS (atoms c), serveTyp c]
     @ (if serveTyp c = UTF8_STRING (atoms c) \<or> serveTyp c = URI_LIST (atoms c)
        then [UTF8_STRING (atoms c), STRING (atoms c)] else [])"

definition reply_with :: "x11_clip \<Rightarrow> selection_request \<Rightarrow> u32 \<Rightarrow> nat \<Rightarrow> byte list \<Rightarrow> u32 \<times> x11_clip" where
  "reply_with c e typ fmt dat =
     (sr_Property e, request c (ChangeProperty (sr_Requestor e) (sr_Property e) typ fmt (length dat div (fmt div 8)) dat))"

text \<open>The property named in the answer, and the change of that property, if any.\<close>

definition answer_request :: "x11_clip \<Rightarrow> selection_request \<Rightarrow> u32 \<times> x11_clip" where
  "answer_request c e =
     (let a = atoms c; t = sr_Target e in
      if t = TARGETS a then reply_with c e AtomAtom 32 (concat (map le32 (served_targets c)))
      else if t = TIMESTAMP a then reply_with c e AtomInteger 32 (le32 (sr_Time e))
      else if t = SAVE_TARGETS a \<or> t = DELETE a then (sr_Property e, c)
      else if t = serveTyp c then reply_with c e t 8 (serving c)
      else if (t = UTF8_STRING a \<or> t = STRING a) \<and> (serveTyp c = UTF8_STRING a \<or> serveTyp c = URI_LIST a)
      then reply_with c e t 8 (serving c)
      else (AtomNone, c))"

definition notify_bytes :: "selection_request \<Rightarrow> u32 \<Rightarrow> byte list" where
  "notify_bytes e property =
     [31, 0] @ [0, 0] @ le32 (sr_Time e) @ le32 (sr_Requestor e) @ le32 (sr_Selection e) @ le32 (sr_Target e)
     @ le32 property @ replicate 8 0"

definition x11_handleRequest :: "x11_clip \<Rightarrow> selection_request \<Rightarrow> x11_clip" where
  "x11_handleRequest c e =
     (let (property, c') = answer_request c e in request c' (SendEvent (sr_Requestor e) (notify_bytes e property)))"

section \<open>Reading\<close>

definition fetch :: "x11_clip \<Rightarrow> x11_clip" where
  "fetch c = request c (ConvertSelection (CLIPBOARD (atoms c)) (TARGETS (atoms c)) (LocalProp (atoms c)))"

record prop_reply =
  pr_Type :: u32
  pr_Format :: nat
  pr_ValueLen :: nat
  pr_Value :: "byte list"

type_synonym get_property = "bool \<Rightarrow> u32 \<Rightarrow> u32 \<Rightarrow> nat \<Rightarrow> gostring + prop_reply"

definition le32_value :: "byte list \<Rightarrow> u32" where
  "le32_value bs =
     ucast (bs ! 0) OR push_bit 8 (ucast (bs ! 1)) OR push_bit 16 (ucast (bs ! 2)) OR push_bit 24 (ucast (bs ! 3))"

fun read_atoms :: "nat \<Rightarrow> byte list \<Rightarrow> u32 list" where
  "read_atoms 0 bs = []"
| "read_atoms (Suc n) bs = le32_value (take 4 bs) # read_atoms n (drop 4 bs)"

text \<open>\<open>binary.Read\<close> into a slice of that length; when the bytes are too few it stays zero.\<close>

definition target_atoms :: "prop_reply \<Rightarrow> u32 list" where
  "target_atoms p =
     (if length (pr_Value p) < 4 * pr_ValueLen p then replicate (pr_ValueLen p) 0
      else read_atoms (pr_ValueLen p) (pr_Value p))"

definition choose_format :: "atom_cache \<Rightarrow> u32 list \<Rightarrow> u32" where
  "choose_format a ids =
     (if IMAGE_PNG a \<in> set ids then IMAGE_PNG a
      else if URI_LIST a \<in> set ids then URI_LIST a
      else if UTF8_STRING a \<in> set ids then UTF8_STRING a
      else if STRING a \<in> set ids then STRING a
      else 0)"

text \<open>
  What waiting for events gives while reading in parts: an error, an event that is not the wanted one
  (which is dropped), or the next part, or the error of reading it.
\<close>

datatype incr_event = WaitError gostring | OtherEvent | IncrPart "gostring + byte list"

text \<open>\<open>None\<close>: still waiting.\<close>

fun incr_loop :: "byte list \<Rightarrow> incr_event list \<Rightarrow> (gostring + byte list) option" where
  "incr_loop buf [] = None"
| "incr_loop buf (WaitError e # evs) = Some (Inl e)"
| "incr_loop buf (OtherEvent # evs) = incr_loop buf evs"
| "incr_loop buf (IncrPart (Inl e) # evs) = Some (Inl e)"
| "incr_loop buf (IncrPart (Inr part) # evs) =
     (if part = [] then Some (Inr buf)
      else if maxDataSize < length buf + length part then Some (Inl (str ''clipboard data exceeded limit''))
      else incr_loop (buf @ part) evs)"

definition readIncr :: "x11_clip \<Rightarrow> u32 \<Rightarrow> incr_event list \<Rightarrow> (gostring + byte list) option \<times> x11_clip" where
  "readIncr c prop evs = (incr_loop [] evs, request c (DeleteProperty prop))"

text \<open>The content read after the format was chosen; \<open>None\<close>: nothing, an error, or still waiting.\<close>

definition read_content :: "get_property \<Rightarrow> incr_event list \<Rightarrow> x11_clip \<Rightarrow> u32 \<Rightarrow> byte list option \<times> x11_clip" where
  "read_content get evs c prop =
     (case get False prop 0 0 of
        Inl _ \<Rightarrow> (None, c)
      | Inr reply \<Rightarrow>
          if pr_Type reply = INCR (atoms c) then
            (case readIncr c prop evs of
               (Some (Inr dat), c') \<Rightarrow> (Some dat, c')
             | (_, c') \<Rightarrow> (None, c'))
          else
            (case get True prop 0 maxPropSize of
               Inl _ \<Rightarrow> (None, c)
             | Inr full \<Rightarrow> (Some (pr_Value full), c)))"

definition send_content ::
  "(byte list \<Rightarrow> u64) \<Rightarrow> (byte list \<Rightarrow> byte list) \<Rightarrow> lstat \<Rightarrow> clip_options \<Rightarrow> x11_clip \<Rightarrow> u32 \<Rightarrow> byte list \<Rightarrow> x11_clip" where
  "send_content xxhash xxsum lstat opts c target dat =
     (if dat = [] then c
      else if target = URI_LIST (atoms c) then
        (if \<not> AllowCopyFiles opts then c
         else
           (let (updates, batchHash) = UpdatesFromRawPath xxhash xxsum lstat dat (MaxClipboardFiles opts) in
            if updates = [] then c
            else
              (let ((_, isNew), d) = dedup_Check xxhash (x_dedup c) batchHash in
               if isNew then c\<lparr>x_dedup := d, x_sent := x_sent c @ updates\<rparr> else c\<lparr>x_dedup := d\<rparr>)))
      else
        (let ((h, isNew), d) = dedup_Check xxhash (x_dedup c) dat in
         if isNew then
           c\<lparr>x_dedup := d, x_sent := x_sent c @
             [\<lparr>u_Data = dat, u_Size = 0,
                u_MimeType = (if target = IMAGE_PNG (atoms c) then TypeImage else TypeText),
                u_Hash = h, u_BatchID = 0, u_BatchTotal = 0\<rparr>]\<rparr>
         else c\<lparr>x_dedup := d\<rparr>))"

record selection_notify =
  sn_Target :: u32
  sn_Property :: u32

definition handleNotify ::
  "(byte list \<Rightarrow> u64) \<Rightarrow> (byte list \<Rightarrow> byte list) \<Rightarrow> lstat \<Rightarrow> clip_options \<Rightarrow> get_property \<Rightarrow> incr_event list
   \<Rightarrow> x11_clip \<Rightarrow> selection_notify \<Rightarrow> x11_clip" where
  "handleNotify xxhash xxsum lstat opts get evs c e =
     (if sn_Property e = AtomNone then c
      else if sn_Target e = TARGETS (atoms c) then
        (case get False (sn_Property e) AtomAtom 1024 of
           Inl _ \<Rightarrow> c
         | Inr prop \<Rightarrow>
             if pr_Format prop \<noteq> 32 then c
             else
               (let format = choose_format (atoms c) (target_atoms prop) in
                if format \<noteq> 0 then request c (ConvertSelection (CLIPBOARD (atoms c)) format (LocalProp (atoms c))) else c))
      else
        (case read_content get evs c (sn_Property e) of
           (None, c') \<Rightarrow> c'
         | (Some dat, c') \<Rightarrow> send_content xxhash xxsum lstat opts c' (sn_Target e) dat))"

section \<open>Events\<close>

text \<open>The new owner and the selection; a request; a notification with the answers it meets; any other.\<close>

datatype x_event =
    OwnerChanged u32 u32
  | Requested selection_request
  | Notified selection_notify get_property "incr_event list"
  | OtherX

fun handleEvent ::
  "(byte list \<Rightarrow> u64) \<Rightarrow> (byte list \<Rightarrow> byte list) \<Rightarrow> lstat \<Rightarrow> clip_options \<Rightarrow> x11_clip \<Rightarrow> x_event \<Rightarrow> x11_clip" where
  "handleEvent xxhash xxsum lstat opts c (OwnerChanged owner selection) =
     (if owner \<noteq> x_win c \<and> selection = CLIPBOARD (atoms c) then fetch c else c)"
| "handleEvent xxhash xxsum lstat opts c (Requested e) = x11_handleRequest c e"
| "handleEvent xxhash xxsum lstat opts c (Notified e get evs) = handleNotify xxhash xxsum lstat opts get evs c e"
| "handleEvent xxhash xxsum lstat opts c OtherX = c"

text \<open>
  The loop of \<open>Watch\<close> after \<open>init\<close>: the end of the context, an error of the connection, or an event
  (\<open>None\<close> for a nil one). The first result is \<open>None\<close> while it runs.
\<close>

datatype watch_input = WatchDone | WatchError gostring | WatchEvent "x_event option"

fun x11_loop ::
  "(byte list \<Rightarrow> u64) \<Rightarrow> (byte list \<Rightarrow> byte list) \<Rightarrow> lstat \<Rightarrow> clip_options \<Rightarrow> x11_clip \<Rightarrow> watch_input list
   \<Rightarrow> gostring option option \<times> x11_clip" where
  "x11_loop xxhash xxsum lstat opts c [] = (None, c)"
| "x11_loop xxhash xxsum lstat opts c (WatchDone # is) = (Some None, c)"
| "x11_loop xxhash xxsum lstat opts c (WatchError e # is) = (Some (Some e), c)"
| "x11_loop xxhash xxsum lstat opts c (WatchEvent None # is) = x11_loop xxhash xxsum lstat opts c is"
| "x11_loop xxhash xxsum lstat opts c (WatchEvent (Some ev) # is) =
     x11_loop xxhash xxsum lstat opts (handleEvent xxhash xxsum lstat opts c ev) is"

definition x11_Watch ::
  "(byte list \<Rightarrow> u64) \<Rightarrow> (byte list \<Rightarrow> byte list) \<Rightarrow> lstat \<Rightarrow> clip_options \<Rightarrow> x11_clip \<Rightarrow> watch_input list
   \<Rightarrow> gostring option option \<times> x11_clip" where
  "x11_Watch xxhash xxsum lstat opts c is = x11_loop xxhash xxsum lstat opts (fetch c) is"

section \<open>Starting\<close>

text \<open>
  \<open>init\<close> makes the connection, the atoms and the window, one after the other, and keeps each as it gets
  it. What the server answers to each step is an argument; \<open>None\<close> is success.
\<close>

record x_server =
  s_connect :: "gostring option"
  s_xfixes :: "gostring option"
  s_version :: "gostring option"
  s_intern :: "gostring \<Rightarrow> gostring + u32"
  s_window :: "gostring + u32"
  s_create :: "gostring option"
  s_select :: "gostring option"

datatype x_init_error =
    InitConnect gostring
  | InitXfixes gostring
  | InitVersion gostring
  | InitAtoms gostring
  | InitWindowId gostring
  | InitWindow gostring
  | InitSelection gostring

text \<open>The clipboard as it is before it is started, and while it starts.\<close>

record x_start =
  has_conn :: bool
  got_atoms :: "atom_cache option"
  got_win :: u32

definition x11_New :: x_start where
  "x11_New = \<lparr>has_conn = False, got_atoms = None, got_win = 0\<rparr>"

definition x11_init :: "x_server \<Rightarrow> x_start \<Rightarrow> x_init_error option \<times> x_start" where
  "x11_init S c =
     (case s_connect S of
        Some e \<Rightarrow> (Some (InitConnect e), c)
      | None \<Rightarrow>
          (let c1 = c\<lparr>has_conn := True\<rparr> in
           case s_xfixes S of
             Some e \<Rightarrow> (Some (InitXfixes e), c1)
           | None \<Rightarrow>
               (case s_version S of
                  Some e \<Rightarrow> (Some (InitVersion e), c1)
                | None \<Rightarrow>
                    (case loadAtoms (s_intern S) of
                       Inl e \<Rightarrow> (Some (InitAtoms e), c1)
                     | Inr a \<Rightarrow>
                         (let c2 = c1\<lparr>got_atoms := Some a\<rparr> in
                          case s_window S of
                            Inl e \<Rightarrow> (Some (InitWindowId e), c2)
                          | Inr w \<Rightarrow>
                              (let c3 = c2\<lparr>got_win := w\<rparr> in
                               case s_create S of
                                 Some e \<Rightarrow> (Some (InitWindow e), c3)
                               | None \<Rightarrow> (map_option InitSelection (s_select S), c3)))))))"

text \<open>The clipboard that \<open>init\<close> leaves; \<open>None\<close> where its atoms are used before there are any.\<close>

definition x11_started :: "x_start \<Rightarrow> x11_clip option" where
  "x11_started s = map_option
     (\<lambda>a. \<lparr>atoms = a, x_win = got_win s, x_dedup = \<lparr>lastHash = 0\<rparr>, serving = [], serveTyp = 0, requests = [], x_sent = []\<rparr>)
     (got_atoms s)"

text \<open>A write before the clipboard is watched, or while or after it starts.\<close>

definition x11_Write_at ::
  "(byte list \<Rightarrow> u64) \<Rightarrow> gostring option \<Rightarrow> x_start \<Rightarrow> mime_type \<Rightarrow> byte list \<Rightarrow> (x11_error + nat) option" where
  "x11_Write_at xxhash own s t dat =
     (if dat = [] then Some (Inr 0)
      else if \<not> has_conn s then Some (Inl ErrNotInitialized)
      else map_option (\<lambda>c. fst (x11_Write xxhash True own c t dat)) (x11_started s))"

section \<open>Lemmas\<close>

lemma le32_expand: "le32 w = [ucast w, ucast (drop_bit 8 w), ucast (drop_bit 16 w), ucast (drop_bit 24 w)]"
  by (simp add: le32_def upt_rec)

lemma le32_length [simp]: "length (le32 w) = 4"
  by (simp add: le32_def)

lemma le32_value_le32 [simp]: "le32_value (le32 w) = w"
  apply (rule bit_word_eqI)
  apply (auto simp: le32_value_def le32_expand bit_simps)
  subgoal for n by (cases "24 \<le> n") auto
  done

lemma read_atoms_le32: "read_atoms (length ws) (concat (map le32 ws)) = ws"
  by (induction ws) simp_all

lemma concat_le32_length [simp]: "length (concat (map le32 ws)) = 4 * length ws"
  by (induction ws) simp_all

lemma notify_bytes_32: "length (notify_bytes e property) = 32"
  by (simp add: notify_bytes_def)

text \<open>A successful start has made everything; a write then goes through.\<close>

lemma x11_init_done:
  "x11_init S c = (None, s) \<Longrightarrow> has_conn s \<and> got_atoms s \<noteq> None"
  by (auto simp: x11_init_def Let_def split: option.splits sum.splits)

text \<open>
  The connection is there before the atoms: a write that comes while they are being interned, or after
  interning them failed, passes the check of the connection and panics.
\<close>

lemma write_before_atoms_panics:
  assumes "s_connect S = None" and "s_xfixes S = None" and "s_version S = None"
    and "loadAtoms (s_intern S) = Inl e" and "dat \<noteq> []"
  shows "fst (x11_init S x11_New) = Some (InitAtoms e)
    \<and> x11_Write_at xxhash own (snd (x11_init S x11_New)) t dat = None"
  using assms by (simp add: x11_init_def x11_New_def x11_Write_at_def x11_started_def)

definition atoms_ok :: "atom_cache \<Rightarrow> bool" where
  "atoms_ok a \<longleftrightarrow>
     distinct [0, TARGETS a, TIMESTAMP a, SAVE_TARGETS a, DELETE a, INCR a, UTF8_STRING a, STRING a, IMAGE_PNG a, URI_LIST a]"

text \<open>What a write makes the clipboard serve.\<close>

lemma x11_Write_serves:
  assumes "x11_Write xxhash True None c t dat = (Inr n, c')" "dat \<noteq> []"
  shows "atoms c' = atoms c"
    and "serveTyp c' = (if t = TypePath then URI_LIST (atoms c) else if t = TypeImage then IMAGE_PNG (atoms c) else UTF8_STRING (atoms c))"
    and "serving c' = (if t = TypePath then FormatURIList dat else dat)"
  using assms by (auto simp: x11_Write_def request_def Let_def split: if_splits)

lemma choose_served:
  assumes "atoms_ok (atoms c)" "serveTyp c \<in> {IMAGE_PNG (atoms c), URI_LIST (atoms c), UTF8_STRING (atoms c)}"
  shows "choose_format (atoms c) (served_targets c) = serveTyp c" and "serveTyp c \<noteq> 0"
proof -
  have n: "IMAGE_PNG a \<noteq> TARGETS a" "IMAGE_PNG a \<noteq> TIMESTAMP a" "IMAGE_PNG a \<noteq> SAVE_TARGETS a" "IMAGE_PNG a \<noteq> UTF8_STRING a"
    "IMAGE_PNG a \<noteq> STRING a" "URI_LIST a \<noteq> IMAGE_PNG a" "URI_LIST a \<noteq> TARGETS a" "URI_LIST a \<noteq> TIMESTAMP a"
    "URI_LIST a \<noteq> SAVE_TARGETS a" "URI_LIST a \<noteq> UTF8_STRING a" "URI_LIST a \<noteq> STRING a"
    "IMAGE_PNG a \<noteq> 0" "URI_LIST a \<noteq> 0" "UTF8_STRING a \<noteq> 0" if "atoms_ok a" for a
    using that by (auto simp: atoms_ok_def)
  note n = n [OF assms(1)]
  show "serveTyp c \<noteq> 0" using n assms(2) by fastforce
  consider "serveTyp c = IMAGE_PNG (atoms c)" | "serveTyp c = URI_LIST (atoms c)" | "serveTyp c = UTF8_STRING (atoms c)"
    using assms(2) by blast
  then show "choose_format (atoms c) (served_targets c) = serveTyp c"
    by cases (use n in \<open>simp_all add: choose_format_def served_targets_def\<close>)
qed

text \<open>
  The server keeps a property as it was changed: reading it gives its type and format, and at most
  the given number of 4-byte units of its bytes.
\<close>

definition serves_property :: "get_property \<Rightarrow> u32 \<Rightarrow> u32 \<Rightarrow> nat \<Rightarrow> byte list \<Rightarrow> bool" where
  "serves_property get prop typ fmt v \<longleftrightarrow>
     (\<forall>del t len. t = 0 \<or> t = typ \<longrightarrow> get del prop t len =
        Inr \<lparr>pr_Type = typ, pr_Format = fmt, pr_ValueLen = length (take (4 * len) v) div (fmt div 8), pr_Value = take (4 * len) v\<rparr>)"

lemma served_few: "length (served_targets c) \<le> 6"
  by (simp add: served_targets_def)

lemma notify_targets:
  assumes "serves_property get p AtomAtom 32 (concat (map le32 (served_targets c)))" "p \<noteq> 0"
    and "atoms_ok (atoms c)" "atoms r = atoms c"
    and "serveTyp c \<in> {IMAGE_PNG (atoms c), URI_LIST (atoms c), UTF8_STRING (atoms c)}"
  shows "handleNotify xxhash xxsum lstat opts get evs r \<lparr>sn_Target = TARGETS (atoms c), sn_Property = p\<rparr>
    = request r (ConvertSelection (CLIPBOARD (atoms c)) (serveTyp c) (LocalProp (atoms c)))"
proof -
  let ?v = "concat (map le32 (served_targets c))"
  have full: "take (4 * 1024) ?v = ?v" using served_few [of c] by simp
  have "get False p AtomAtom 1024 =
      Inr \<lparr>pr_Type = AtomAtom, pr_Format = 32, pr_ValueLen = length (served_targets c), pr_Value = ?v\<rparr>"
    using assms(1) full by (simp add: serves_property_def)
  then show ?thesis
    using choose_served [OF assms(3,5)] assms(2,4)
    by (simp add: handleNotify_def AtomNone_def target_atoms_def read_atoms_le32)
qed

lemma notify_content:
  assumes "serves_property get p t 8 v" "p \<noteq> 0" "v \<noteq> []" "atoms_ok (atoms r)"
    and "t = IMAGE_PNG (atoms r) \<or> t = UTF8_STRING (atoms r)"
    and "xxhash (take (4 * maxPropSize) v) \<noteq> lastHash (x_dedup r)"
  shows "x_sent (handleNotify xxhash xxsum lstat opts get evs r \<lparr>sn_Target = t, sn_Property = p\<rparr>)
    = x_sent r @ [\<lparr>u_Data = take (4 * maxPropSize) v, u_Size = 0,
        u_MimeType = (if t = IMAGE_PNG (atoms r) then TypeImage else TypeText),
        u_Hash = xxhash (take (4 * maxPropSize) v), u_BatchID = 0, u_BatchTotal = 0\<rparr>]"
proof -
  have g: "get False p 0 0 = Inr \<lparr>pr_Type = t, pr_Format = 8, pr_ValueLen = 0, pr_Value = []\<rparr>"
    "get True p 0 maxPropSize = Inr \<lparr>pr_Type = t, pr_Format = 8, pr_ValueLen = length (take (4 * maxPropSize) v), pr_Value = take (4 * maxPropSize) v\<rparr>"
    using assms(1) by (simp_all add: serves_property_def)
  have t: "t \<noteq> TARGETS (atoms r)" "t \<noteq> INCR (atoms r)" "t \<noteq> URI_LIST (atoms r)"
    using assms(4,5) by (auto simp: atoms_ok_def)
  have ne: "take (4 * maxPropSize) v \<noteq> []" using assms(3) by (simp add: maxPropSize_def)
  show ?thesis
    using t ne assms(2,6)
    by (simp add: handleNotify_def AtomNone_def read_content_def g send_content_def dedup_Check_def dedup_Hash_def Let_def)
qed

section \<open>Properties\<close>

text \<open>C40. Content through the X11 clipboard: text or a picture that one node writes there, another client of
  the same kind reads back. Asked for its targets the writer answers with a list from which the reader
  chooses the type the content is served under; asked for that type it answers with all the bytes; and
  the reader then sends one update of the right type with the first 256 KiB of them: content that is no
  longer comes through whole, anything longer is cut there without a sign.\<close>

theorem x11_roundtrip:
  assumes "x11_Write xxhash True None c t dat = (Inr n, w)" and "dat \<noteq> []" and "t = TypeText \<or> t = TypeImage"
    and "atoms_ok (atoms c)" and "atoms r = atoms c" and "p \<noteq> 0"
    and "serves_property get1 p AtomAtom 32 (concat (map le32 (served_targets w)))"
    and "serves_property get2 p (serveTyp w) 8 (serving w)"
    and "xxhash (take (4 * maxPropSize) dat) \<noteq> lastHash (x_dedup r)"
  shows "answer_request w \<lparr>sr_Time = tm, sr_Requestor = q, sr_Selection = s, sr_Target = TARGETS (atoms c), sr_Property = p\<rparr>
      = (p, request w (ChangeProperty q p AtomAtom 32 (length (served_targets w)) (concat (map le32 (served_targets w)))))
    \<and> handleNotify xxhash xxsum lstat opts get1 [] r \<lparr>sn_Target = TARGETS (atoms c), sn_Property = p\<rparr>
      = request r (ConvertSelection (CLIPBOARD (atoms c)) (serveTyp w) (LocalProp (atoms c)))
    \<and> answer_request w \<lparr>sr_Time = tm, sr_Requestor = q, sr_Selection = s, sr_Target = serveTyp w, sr_Property = p\<rparr>
      = (p, request w (ChangeProperty q p (serveTyp w) 8 (length dat) dat))
    \<and> x_sent (handleNotify xxhash xxsum lstat opts get2 [] r \<lparr>sn_Target = serveTyp w, sn_Property = p\<rparr>)
      = x_sent r @ [\<lparr>u_Data = take (4 * maxPropSize) dat, u_Size = 0, u_MimeType = t,
          u_Hash = xxhash (take (4 * maxPropSize) dat), u_BatchID = 0, u_BatchTotal = 0\<rparr>]"
proof -
  note w = x11_Write_serves [OF assms(1,2)]
  have st: "serveTyp w = (if t = TypeImage then IMAGE_PNG (atoms c) else UTF8_STRING (atoms c))" and sv: "serving w = dat"
    using w assms(3) by auto
  have d: "serveTyp w \<notin> {TARGETS (atoms w), TIMESTAMP (atoms w), SAVE_TARGETS (atoms w), DELETE (atoms w)}"
    "IMAGE_PNG (atoms c) \<noteq> UTF8_STRING (atoms c)"
    using assms(4) by (auto simp: st w(1) atoms_ok_def)
  have 1: "answer_request w \<lparr>sr_Time = tm, sr_Requestor = q, sr_Selection = s, sr_Target = TARGETS (atoms c), sr_Property = p\<rparr>
      = (p, request w (ChangeProperty q p AtomAtom 32 (length (served_targets w)) (concat (map le32 (served_targets w)))))"
    by (simp add: answer_request_def reply_with_def w(1))
  have 2: "handleNotify xxhash xxsum lstat opts get1 [] r \<lparr>sn_Target = TARGETS (atoms c), sn_Property = p\<rparr>
      = request r (ConvertSelection (CLIPBOARD (atoms c)) (serveTyp w) (LocalProp (atoms c)))"
    using notify_targets [OF assms(7,6)] assms(4,5) by (simp add: w(1) st)
  have 3: "answer_request w \<lparr>sr_Time = tm, sr_Requestor = q, sr_Selection = s, sr_Target = serveTyp w, sr_Property = p\<rparr>
      = (p, request w (ChangeProperty q p (serveTyp w) 8 (length dat) dat))"
    using d(1) by (simp add: answer_request_def reply_with_def sv)
  have "x_sent (handleNotify xxhash xxsum lstat opts get2 [] r \<lparr>sn_Target = serveTyp w, sn_Property = p\<rparr>)
    = x_sent r @ [\<lparr>u_Data = take (4 * maxPropSize) dat, u_Size = 0,
        u_MimeType = (if serveTyp w = IMAGE_PNG (atoms r) then TypeImage else TypeText),
        u_Hash = xxhash (take (4 * maxPropSize) dat), u_BatchID = 0, u_BatchTotal = 0\<rparr>]"
    using notify_content [OF assms(8,6), of r xxhash xxsum lstat opts "[]"] assms(2,4,5,9) by (simp add: sv st)
  moreover have "(if serveTyp w = IMAGE_PNG (atoms r) then TypeImage else TypeText) = t"
    using assms(3) d(2) by (auto simp: st assms(5))
  ultimately show ?thesis using 1 2 3 by simp
qed

definition sample_x11 :: x11_clip where
  "sample_x11 = \<lparr>atoms = \<lparr>CLIPBOARD = 70, TARGETS = 71, TIMESTAMP = 72, SAVE_TARGETS = 73, DELETE = 74, INCR = 75,
     UTF8_STRING = 76, STRING = 31, IMAGE_PNG = 77, URI_LIST = 78, LocalProp = 79\<rparr>,
     x_win = 5, x_dedup = \<lparr>lastHash = 0\<rparr>, serving = [], serveTyp = 0, requests = [], x_sent = []\<rparr>"

definition property_store :: "u32 \<Rightarrow> nat \<Rightarrow> byte list \<Rightarrow> get_property" where
  "property_store typ fmt v = (\<lambda>del prop t len.
     Inr \<lparr>pr_Type = typ, pr_Format = fmt, pr_ValueLen = length (take (4 * len) v) div (fmt div 8), pr_Value = take (4 * len) v\<rparr>)"

lemma property_store_serves: "serves_property (property_store typ fmt v) prop typ fmt v"
  by (simp add: serves_property_def property_store_def)

theorem x11_roundtrip_witness:
  "x_sent (handleNotify (\<lambda>b. of_nat (length b)) (\<lambda>b. b) (\<lambda>_. None) \<lparr>AllowCopyFiles = True, MaxFileSize = 9, MaxClipboardFiles = 3\<rparr>
     (property_store 76 8 [72, 105]) [] sample_x11 \<lparr>sn_Target = 76, sn_Property = 79\<rparr>)
   = [\<lparr>u_Data = [72, 105], u_Size = 0, u_MimeType = TypeText, u_Hash = 2, u_BatchID = 0, u_BatchTotal = 0\<rparr>]"
proof -
  let ?w = "snd (x11_Write (\<lambda>b. of_nat (length b)) True None sample_x11 TypeText [72, 105])"
  have w: "x11_Write (\<lambda>b. of_nat (length b)) True None sample_x11 TypeText [72, 105] = (Inr 2, ?w)"
    by (simp add: x11_Write_def request_def sample_x11_def Let_def)
  have s: "serveTyp ?w = 76" "serving ?w = [72, 105]"
    by (simp_all add: x11_Write_def request_def sample_x11_def Let_def)
  have a: "atoms_ok (atoms sample_x11)" by (simp add: atoms_ok_def sample_x11_def)
  have t: "take (4 * maxPropSize) [72, 105 :: byte] = [72, 105]" by (simp add: maxPropSize_def)
  have h: "(of_nat (length (take (4 * maxPropSize) [72, 105 :: byte])) :: u64) \<noteq> lastHash (x_dedup sample_x11)"
    by (simp add: t sample_x11_def)
  from x11_roundtrip [OF w _ _ a refl _ property_store_serves property_store_serves h, of 79]
  show ?thesis unfolding s t by (simp add: sample_x11_def)
qed

end
