(* ===== verification/Pipe.thy ===== *)
theory Pipe
  imports GoLib
begin

text \<open>
  Reading a pipe by polling (\<open>pkg/pipe/pipe\<close>; kept beside \<open>FromPipe2\<close>, which the Wayland reader uses
  and which reads to the end). A round of the loop of \<open>FromPipe\<close> is the time since the last read, the
  answers to its polls, and the answer to its read. Times are nanoseconds.
\<close>

definition dataDelay :: int where
  "dataDelay = 10000000"

text \<open>The flags of an answer: error or invalid, hang-up, readable.\<close>

datatype poll_answer = PollIntr | PollFail gostring | PollTimeout | PollFlags bool bool bool

datatype pipe_read_error = ErrNilPipe | ErrPoll gostring | ErrPollEvents | ErrRead gostring

text \<open>Whether the waiting timed out, and its error; \<open>None\<close>: still waiting.\<close>

fun poll_loop :: "poll_answer list \<Rightarrow> (bool \<times> pipe_read_error option) option" where
  "poll_loop [] = None"
| "poll_loop (PollIntr # ps) = poll_loop ps"
| "poll_loop (PollFail e # ps) = Some (False, Some (ErrPoll e))"
| "poll_loop (PollTimeout # ps) = Some (True, None)"
| "poll_loop (PollFlags err hup readable # ps) =
     (if err then Some (True, Some ErrPollEvents)
      else if hup then Some (True, None)
      else if readable then Some (False, None)
      else poll_loop ps)"

definition waitForData :: "bool \<Rightarrow> int \<Rightarrow> poll_answer list \<Rightarrow> (bool \<times> pipe_read_error option) option" where
  "waitForData hasData elapsed polls =
     (if hasData \<and> dataDelay \<le> elapsed then Some (True, None) else poll_loop polls)"

text \<open>A read gives bytes, an error that asks to wait, or another error.\<close>

datatype read_answer = ReadBytes "byte list" | ReadWait | ReadFails gostring

definition needWait :: "read_answer \<Rightarrow> bool" where
  "needWait r \<longleftrightarrow> r = ReadWait"

fun pipe_loop ::
  "byte list \<Rightarrow> bool \<Rightarrow> (int \<times> poll_answer list \<times> read_answer) list \<Rightarrow> (pipe_read_error + byte list) option" where
  "pipe_loop dest hasData [] = None"
| "pipe_loop dest hasData ((elapsed, polls, rd) # rounds) =
     (case waitForData hasData elapsed polls of
        None \<Rightarrow> None
      | Some (_, Some e) \<Rightarrow> Some (Inl e)
      | Some (True, None) \<Rightarrow> Some (Inr dest)
      | Some (False, None) \<Rightarrow>
          (case rd of
             ReadFails e \<Rightarrow> Some (Inl (ErrRead e))
           | ReadWait \<Rightarrow> pipe_loop dest True rounds
           | ReadBytes bs \<Rightarrow> if bs = [] then Some (Inr dest) else pipe_loop (dest @ bs) True rounds))"

definition FromPipe :: "nat \<Rightarrow> (int \<times> poll_answer list \<times> read_answer) list \<Rightarrow> (pipe_read_error + byte list) option" where
  "FromPipe pipe rounds = (if pipe = 0 then Some (Inl ErrNilPipe) else pipe_loop [] False rounds)"

text \<open>The content of the reader to its end, or its error with what was read so far.\<close>

definition FromPipe2 :: "(byte list \<times> gostring option) option \<Rightarrow> byte list \<times> (pipe_read_error + gostring) option" where
  "FromPipe2 r = (case r of None \<Rightarrow> ([], Some (Inl ErrNilPipe)) | Some (dat, err) \<Rightarrow> (dat, map_option Inr err))"

section \<open>The two ends\<close>

text \<open>
  A file is a number; closing one gives the system's error, if any. \<open>opened\<close> is the answer of \<open>os.Pipe\<close>,
  its reading end first.
\<close>

record pipe =
  rfd :: nat
  wfd :: nat

datatype pipe_error = ErrFailedCreate gostring | ErrPipeClose gostring

definition pipe_New :: "gostring + nat \<times> nat \<Rightarrow> pipe_error + pipe" where
  "pipe_New opened = (case opened of Inl e \<Rightarrow> Inl (ErrFailedCreate e) | Inr (r, w) \<Rightarrow> Inr \<lparr>rfd = r, wfd = w\<rparr>)"

text \<open>\<open>close_err f\<close> is what closing \<open>f\<close> answers. The result is the error and the files closed, in order.\<close>

definition pipe_Close :: "(nat \<Rightarrow> gostring option) \<Rightarrow> pipe \<Rightarrow> pipe_error option \<times> nat list" where
  "pipe_Close close_err p = (map_option ErrPipeClose (close_err (rfd p)), [wfd p, rfd p])"

definition pipe_Fd :: "pipe \<Rightarrow> nat" where
  "pipe_Fd p = wfd p"

definition pipe_ReadFd :: "pipe \<Rightarrow> nat" where
  "pipe_ReadFd p = rfd p"

text \<open>
  What the system calls on a descriptor answer: the bytes waiting in the pipe, written to the variable
  unless the call fails, and the size the pipe gets or has. \<open>None\<close> is a panic.
\<close>

definition readableSize :: "int option \<Rightarrow> int" where
  "readableSize ioctl = (case ioctl of None \<Rightarrow> 0 | Some n \<Rightarrow> n)"

definition increaseSize :: "gostring + int \<Rightarrow> int option" where
  "increaseSize fcntl = (case fcntl of Inl _ \<Rightarrow> None | Inr n \<Rightarrow> Some n)"

definition pipe_capacity :: "gostring + int \<Rightarrow> int" where
  "pipe_capacity fcntl = (case fcntl of Inl _ \<Rightarrow> 0 | Inr n \<Rightarrow> n)"

section \<open>Lemmas\<close>

text \<open>Both ends of a new pipe are closed, whatever the closing of the writing end answers.\<close>

lemma pipe_closes_both:
  "pipe_New (Inr (r, w)) = Inr p \<Longrightarrow> snd (pipe_Close close_err p) = [w, r]
    \<and> (fst (pipe_Close close_err p) = None \<longleftrightarrow> close_err r = None)"
  by (auto simp: pipe_New_def pipe_Close_def)

text \<open>A hang-up ends the reading although the pipe may still hold bytes that can be read.\<close>

lemma hangup_drops_rest:
  "pipe \<noteq> 0 \<Longrightarrow> FromPipe pipe ((elapsed, PollFlags False True readable # ps, rd) # rounds) = Some (Inr [])"
  by (simp add: FromPipe_def waitForData_def)

text \<open>Bytes that come without a pause are all in the result.\<close>

lemma pipe_loop_bytes:
  "list_all (\<lambda>bs. bs \<noteq> []) parts \<Longrightarrow>
   pipe_loop dest b (map (\<lambda>bs. (0, [PollFlags False False True], ReadBytes bs)) parts @ [(dataDelay, [PollTimeout], rd)])
     = Some (Inr (dest @ concat parts))"
  by (induction parts arbitrary: dest b) (simp_all add: waitForData_def dataDelay_def)

end
