(* ===== verification/Console.thy ===== *)
theory Console
  imports Main
begin

text \<open>
  The tray icon (\<open>internal/console\<close>): the hiding of the console window and the colour of the icon. The
  tray and window libraries are third-party; the icon and the window they show are part of the state.
  On macOS there is nothing to hide.
\<close>

datatype icon = Red | Green

datatype show_command = SwHide | SwShow

text \<open>\<open>cancelled\<close> tells whether the program was asked to end, if the tray was given the way to.\<close>

record app_state =
  isHidden :: bool
  isRedIcon :: bool
  has_cancel :: bool
  tray_icon :: "icon option"
  shown :: show_command
  cancelled :: bool

definition new_app :: "bool \<Rightarrow> app_state" where
  "new_app cancel = \<lparr>isHidden = False, isRedIcon = False, has_cancel = cancel, tray_icon = None, shown = SwShow, cancelled = False\<rparr>"

text \<open>The console's window and the owner of it; 0 is none.\<close>

definition getConsoleWindowHandle :: "nat \<Rightarrow> nat \<Rightarrow> nat" where
  "getConsoleWindowHandle hwnd owner = (if hwnd = 0 then 0 else if owner \<noteq> 0 then owner else hwnd)"

definition hideInitial :: "nat \<Rightarrow> app_state \<Rightarrow> app_state" where
  "hideInitial hwnd app = (if hwnd = 0 then app else app\<lparr>shown := SwHide, isHidden := True\<rparr>)"

definition onReady :: "app_state \<Rightarrow> app_state" where
  "onReady app = app\<lparr>tray_icon := Some Red\<rparr>"

definition onExit :: "app_state \<Rightarrow> app_state" where
  "onExit app = (if has_cancel app then app\<lparr>cancelled := True\<rparr> else app)"

definition toggleIconColor :: "app_state \<Rightarrow> app_state" where
  "toggleIconColor app =
     (if \<not> isRedIcon app then app\<lparr>tray_icon := Some Green, isRedIcon := True\<rparr>
      else app\<lparr>tray_icon := Some Red, isRedIcon := False\<rparr>)"

definition toggleConsoleAndIcon :: "nat \<Rightarrow> app_state \<Rightarrow> app_state" where
  "toggleConsoleAndIcon hwnd app =
     toggleIconColor
       (if hwnd = 0 then app
        else if isHidden app then app\<lparr>shown := SwShow, isHidden := False\<rparr>
        else app\<lparr>shown := SwHide, isHidden := True\<rparr>)"

section \<open>Linux\<close>

text \<open>There is only the icon, which a tap changes; the menu's item ends the tray.\<close>

record linux_state =
  x_isRedIcon :: bool
  x_has_cancel :: bool
  x_tray_icon :: "icon option"
  x_cancelled :: bool

definition linux_HideConsoleWindow :: "bool \<Rightarrow> linux_state" where
  "linux_HideConsoleWindow cancel = \<lparr>x_isRedIcon = False, x_has_cancel = cancel, x_tray_icon = None, x_cancelled = False\<rparr>"

definition linux_onReady :: "linux_state \<Rightarrow> linux_state" where
  "linux_onReady app = app\<lparr>x_tray_icon := Some Red\<rparr>"

definition linux_onExit :: "linux_state \<Rightarrow> linux_state" where
  "linux_onExit app = (if x_has_cancel app then app\<lparr>x_cancelled := True\<rparr> else app)"

definition linux_toggleIconColor :: "linux_state \<Rightarrow> linux_state" where
  "linux_toggleIconColor app =
     (if \<not> x_isRedIcon app then app\<lparr>x_tray_icon := Some Green, x_isRedIcon := True\<rparr>
      else app\<lparr>x_tray_icon := Some Red, x_isRedIcon := False\<rparr>)"

lemma linux_taps:
  "x_tray_icon (((\<lambda>app. linux_toggleIconColor app) ^^ Suc n) (linux_onReady (linux_HideConsoleWindow cancel)))
     = Some (if even n then Green else Red)"
proof -
  have "((\<lambda>app. linux_toggleIconColor app) ^^ n) (linux_onReady (linux_HideConsoleWindow cancel))
      = \<lparr>x_isRedIcon = odd n, x_has_cancel = cancel, x_tray_icon = Some (if even n then Red else Green), x_cancelled = False\<rparr>" for n
    by (induction n) (auto simp: linux_onReady_def linux_HideConsoleWindow_def linux_toggleIconColor_def)
  from this [of "Suc n"] show ?thesis by simp
qed

section \<open>Runs of the tray\<close>

inductive tray_step :: "app_state \<Rightarrow> app_state \<Rightarrow> bool" where
  initial: "tray_step app (hideInitial hwnd app)"
| ready: "\<not> isRedIcon app \<Longrightarrow> tray_step app (onReady app)"
| tapped: "tray_step app (toggleConsoleAndIcon hwnd app)"
| tapped_icon: "tray_step app (toggleIconColor app)"
| exit: "tray_step app (onExit app)"

inductive_cases tray_stepE: "tray_step app app'"

text \<open>The flags follow what is shown; the one for the icon is set when the icon is green, not red.\<close>

definition tray_ok :: "app_state \<Rightarrow> bool" where
  "tray_ok app \<longleftrightarrow> (isHidden app \<longleftrightarrow> shown app = SwHide)
     \<and> (tray_icon app \<noteq> None \<longrightarrow> (isRedIcon app \<longleftrightarrow> tray_icon app = Some Green))
     \<and> (tray_icon app = None \<longrightarrow> \<not> isRedIcon app)"

lemma tray_step_ok: "tray_step app app' \<Longrightarrow> tray_ok app \<Longrightarrow> tray_ok app'"
  by (induction rule: tray_step.induct)
    (auto simp: tray_ok_def hideInitial_def onReady_def onExit_def toggleIconColor_def toggleConsoleAndIcon_def)

lemma tray_reachable_ok: "tray_step\<^sup>*\<^sup>* (new_app cancel) app \<Longrightarrow> tray_ok app"
proof (induction rule: rtranclp_induct)
  case base
  show ?case by (simp add: new_app_def tray_ok_def)
next
  case (step app app')
  then show ?case by (blast intro: tray_step_ok)
qed

lemma toggle_twice: "tray_ok app \<Longrightarrow> tray_icon app \<noteq> None \<Longrightarrow>
   toggleConsoleAndIcon hwnd (toggleConsoleAndIcon hwnd app) = app"
  by (cases app; cases "the (tray_icon app)"; cases "shown app") (auto simp: toggleConsoleAndIcon_def toggleIconColor_def tray_ok_def split: if_splits)

end
