(* ===== verification/PbGetters.thy ===== *)
theory PbGetters
  imports Protocol
begin

text \<open>
  The accessors of the generated message types (\<open>internal/types/proto/*.pb.go\<close>): each takes a pointer that
  may be nil, \<open>None\<close> here, and gives the field or its zero value. The names of the content types are there
  too; the reflection tables are not modelled.
\<close>

section \<open>Fields\<close>

definition get_field :: "('m \<Rightarrow> 'f) \<Rightarrow> 'f \<Rightarrow> 'm option \<Rightarrow> 'f" where
  "get_field f zero x = (case x of Some m \<Rightarrow> f m | None \<Rightarrow> zero)"

definition Message_GetID :: "p_message option \<Rightarrow> i64" where
  "Message_GetID = get_field pm_ID 0"

definition Message_GetContentLength :: "p_message option \<Rightarrow> u64" where
  "Message_GetContentLength = get_field pm_ContentLength 0"

definition Message_GetMimeType :: "p_message option \<Rightarrow> i32" where
  "Message_GetMimeType = get_field pm_MimeType Mime_TEXT"

definition Message_GetContentHash :: "p_message option \<Rightarrow> u64" where
  "Message_GetContentHash = get_field pm_ContentHash 0"

definition Message_GetName :: "p_message option \<Rightarrow> gostring" where
  "Message_GetName = get_field pm_Name []"

definition Message_GetBatchID :: "p_message option \<Rightarrow> i64" where
  "Message_GetBatchID = get_field pm_BatchID 0"

definition Message_GetBatchTotal :: "p_message option \<Rightarrow> u32" where
  "Message_GetBatchTotal = get_field pm_BatchTotal 0"

definition Announce_GetID :: "p_announce option \<Rightarrow> i64" where
  "Announce_GetID = get_field pa_ID 0"

definition Announce_GetContentLength :: "p_announce option \<Rightarrow> u64" where
  "Announce_GetContentLength = get_field pa_ContentLength 0"

definition Announce_GetMimeType :: "p_announce option \<Rightarrow> i32" where
  "Announce_GetMimeType = get_field pa_MimeType Mime_TEXT"

definition Announce_GetContentHash :: "p_announce option \<Rightarrow> u64" where
  "Announce_GetContentHash = get_field pa_ContentHash 0"

definition Announce_GetBatchID :: "p_announce option \<Rightarrow> i64" where
  "Announce_GetBatchID = get_field pa_BatchID 0"

definition Announce_GetBatchTotal :: "p_announce option \<Rightarrow> u32" where
  "Announce_GetBatchTotal = get_field pa_BatchTotal 0"

definition RequestMessage_GetID :: "p_request option \<Rightarrow> i64" where
  "RequestMessage_GetID = get_field pr_ID 0"

definition Handshake_GetVersion :: "p_handshake option \<Rightarrow> gostring" where
  "Handshake_GetVersion = get_field ph_Version []"

definition Handshake_GetDevice :: "p_handshake option \<Rightarrow> p_device option" where
  "Handshake_GetDevice = get_field ph_Device None"

definition Handshake_GetPort :: "p_handshake option \<Rightarrow> u32" where
  "Handshake_GetPort = get_field ph_Port 0"

definition Device_GetName :: "p_device option \<Rightarrow> gostring" where
  "Device_GetName = get_field pd_Name []"

definition Device_GetArch :: "p_device option \<Rightarrow> gostring" where
  "Device_GetArch = get_field pd_Arch []"

definition Device_GetID :: "p_device option \<Rightarrow> i64" where
  "Device_GetID = get_field pd_ID 0"

definition Event_GetCreated :: "p_event option \<Rightarrow> timestamp option" where
  "Event_GetCreated = get_field pe_Created None"

definition Event_GetPayload :: "p_event option \<Rightarrow> p_payload option" where
  "Event_GetPayload = get_field pe_Payload None"

section \<open>The payload of an event\<close>

definition payload_as :: "(p_payload \<Rightarrow> 'a option) \<Rightarrow> p_event option \<Rightarrow> 'a option" where
  "payload_as as_T x = (case x of Some ev \<Rightarrow> Option.bind (pe_Payload ev) as_T | None \<Rightarrow> None)"

definition Event_GetMessage :: "p_event option \<Rightarrow> p_message option" where
  "Event_GetMessage = payload_as (\<lambda>p. case p of P_Message m \<Rightarrow> Some m | _ \<Rightarrow> None)"

definition Event_GetHandshake :: "p_event option \<Rightarrow> p_handshake option" where
  "Event_GetHandshake = payload_as (\<lambda>p. case p of P_Handshake m \<Rightarrow> Some m | _ \<Rightarrow> None)"

definition Event_GetAnnounce :: "p_event option \<Rightarrow> p_announce option" where
  "Event_GetAnnounce = payload_as (\<lambda>p. case p of P_Announce m \<Rightarrow> Some m | _ \<Rightarrow> None)"

definition Event_GetRequest :: "p_event option \<Rightarrow> p_request option" where
  "Event_GetRequest = payload_as (\<lambda>p. case p of P_Request m \<Rightarrow> Some m | _ \<Rightarrow> None)"

section \<open>Content types\<close>

definition Mime_name :: "i32 \<rightharpoonup> gostring" where
  "Mime_name = [0 \<mapsto> str ''TEXT'', 1 \<mapsto> str ''IMAGE'', 2 \<mapsto> str ''PATH'']"

definition Mime_value :: "gostring \<rightharpoonup> i32" where
  "Mime_value = [str ''TEXT'' \<mapsto> 0, str ''IMAGE'' \<mapsto> 1, str ''PATH'' \<mapsto> 2]"

definition Mime_Enum :: "i32 \<Rightarrow> i32 option" where
  "Mime_Enum x = Some x"

definition Mime_Number :: "i32 \<Rightarrow> i32" where
  "Mime_Number x = x"

text \<open>The two tables are inverse, and name every type a message is sent with.\<close>

lemma Mime_tables: "Mime_name x = Some n \<longleftrightarrow> Mime_value n = Some x"
proof -
  have "str ''TEXT'' \<noteq> str ''IMAGE''" "str ''TEXT'' \<noteq> str ''PATH''" "str ''IMAGE'' \<noteq> str ''PATH''" by code_simp+
  then show ?thesis by (auto simp: Mime_name_def Mime_value_def)
qed

lemma Mime_name_sent: "Mime_name (toProtoMime t) \<noteq> None"
  by (cases t) (simp_all add: Mime_name_def Mime_TEXT_def Mime_IMAGE_def Mime_PATH_def)

text \<open>At most one of the payload accessors of an event gives anything.\<close>

lemma Event_one_payload:
  "Event_GetMessage x \<noteq> None \<Longrightarrow> Event_GetAnnounce x = None \<and> Event_GetRequest x = None \<and> Event_GetHandshake x = None"
  by (auto simp: Event_GetMessage_def Event_GetAnnounce_def Event_GetRequest_def Event_GetHandshake_def payload_as_def
      split: option.splits p_payload.splits bind_splits)

end
