(* ===== verification/Reports.thy ===== *)
theory Reports
  imports Options Eventful
begin

text \<open>
  What the node tells its user: the notifications (\<open>internal/notification/notify.go\<close> and \<open>Notify\<close> of
  \<open>node.go\<close>) and the objects it writes to its log (the \<open>MarshalZerologObject\<close> methods and \<open>pkg/ctxlog\<close>). A
  log object is the list of its fields in the order they are added. Writing the log and showing a
  notification are third-party, as are the sizes in human-readable form (\<open>humanize\<close>).
\<close>

section \<open>Notifications\<close>

text \<open>\<open>fmt.Sprintf\<close> for the one verb the program's notifications use; \<open>None\<close> is any other use.\<close>

fun Sprintf_s :: "gostring \<Rightarrow> gostring list \<Rightarrow> gostring option" where
  "Sprintf_s [] [] = Some []"
| "Sprintf_s [] (a # as) = None"
| "Sprintf_s (c # f) as =
     (if c = 37 then
        (case (f, as) of
           (v # f', a # as') \<Rightarrow> if v = 115 then map_option (\<lambda>r. a @ r) (Sprintf_s f' as') else None
         | _ \<Rightarrow> None)
      else map_option (Cons c) (Sprintf_s f as))"

text \<open>What is shown, a title and a text. An error of showing it is only logged.\<close>

definition beeep_Notify :: "notifier \<Rightarrow> gostring \<Rightarrow> gostring list \<Rightarrow> (gostring \<times> gostring) option list" where
  "beeep_Notify nt message v =
     (case nt of
        BeepDecorator title \<Rightarrow> [map_option (Pair title) (Sprintf_s message v)]
      | NullNotifier \<Rightarrow> [])"

definition node_Notify :: "notifier \<Rightarrow> gostring \<Rightarrow> gostring list \<Rightarrow> (gostring \<times> gostring) option list" where
  "node_Notify nt message v = beeep_Notify nt message v"

text \<open>The two notifications of a node: the address it listens on, and the name of a peer.\<close>

definition notify_started :: "notifier \<Rightarrow> gostring \<Rightarrow> (gostring \<times> gostring) option list" where
  "notify_started nt addr = node_Notify nt (str ''started on %s'') [addr]"

definition notify_connected :: "notifier \<Rightarrow> device \<Rightarrow> (gostring \<times> gostring) option list" where
  "notify_connected nt metadata = node_Notify nt (str ''connected to %s'') [d_Name metadata]"

text \<open>Names and addresses are shown as they are, whatever they contain.\<close>

lemma Sprintf_s_plain: "37 \<notin> set p \<Longrightarrow> Sprintf_s (p @ [37, 115]) [a] = Some (p @ a)"
  by (induction p) auto

lemma notify_connected_text:
  "notify_connected (notification_New enable) d =
     (if enable then [Some (str ''belphegor'', str ''connected to '' @ d_Name d)] else [])"
proof -
  have "str ''connected to %s'' = str ''connected to '' @ [37, 115]" "37 \<notin> set (str ''connected to '')" by code_simp+
  from Sprintf_s_plain [OF this(2), of "d_Name d", folded this(1)] show ?thesis
    by (simp add: notify_connected_def node_Notify_def beeep_Notify_def notification_New_def)
qed

section \<open>Durations\<close>

text \<open>\<open>time.Duration.String\<close>: the digits after the point end with the last that is not zero.\<close>

definition fmtFrac :: "nat \<Rightarrow> nat \<Rightarrow> gostring" where
  "fmtFrac v prec =
     (let ds = nat_digits (v mod 10 ^ prec); padded = replicate (prec - length ds) 48 @ ds
      in if v mod 10 ^ prec = 0 then [] else 46 # rev (dropWhile (\<lambda>b. b = 48) (rev padded)))"

definition Duration_abs :: "nat \<Rightarrow> gostring" where
  "Duration_abs u =
     (if u = 0 then str ''0s''
      else if u < 1000 then nat_digits u @ str ''ns''
      else if u < 1000000 then nat_digits (u div 1000) @ fmtFrac u 3 @ [0xC2, 0xB5] @ str ''s''
      else if u < 1000000000 then nat_digits (u div 1000000) @ fmtFrac u 6 @ str ''ms''
      else
        (let s = u div 1000000000; m = s div 60; h = m div 60;
             sec = nat_digits (s mod 60) @ fmtFrac u 9 @ str ''s''
         in if m = 0 then sec
            else if h = 0 then nat_digits m @ str ''m'' @ sec
            else nat_digits h @ str ''h'' @ nat_digits (m mod 60) @ str ''m'' @ sec))"

definition Duration_String :: "int \<Rightarrow> gostring" where
  "Duration_String d = (if d < 0 then 45 # Duration_abs (nat (- d)) else Duration_abs (nat d))"

section \<open>Log objects\<close>

datatype log_value = LInt int | LStr gostring | LBool bool | LObj "(gostring \<times> log_value) list"

type_synonym log_object = "(gostring \<times> log_value) list"

text \<open>The logger of an operation.\<close>

definition Op :: "log_object \<Rightarrow> gostring \<Rightarrow> log_object" where
  "Op logger op = logger @ [(str ''op'', LStr op)]"

definition MessageID_log :: "i64 \<Rightarrow> log_object" where
  "MessageID_log m = [(str ''msg_id'', LInt (sint m))]"

definition NodeID_log :: "i64 \<Rightarrow> log_object" where
  "NodeID_log n = [(str ''node_id'', LInt (sint n))]"

definition Announce_log :: "announce \<Rightarrow> log_object" where
  "Announce_log an =
     [(str ''id'', LObj (MessageID_log (a_ID an))), (str ''node'', LInt (sint (Author (a_ID an)))),
      (str ''mime'', LStr (mime_String (a_MimeType an))), (str ''length'', LInt (uint (a_ContentLength an))),
      (str ''hash'', LInt (uint (a_ContentHash an))), (str ''batch_id'', LInt (sint (a_BatchID an))),
      (str ''batch_total'', LInt (uint (a_BatchTotal an)))]"

definition Message_log :: "(u64 \<Rightarrow> gostring) \<Rightarrow> message \<Rightarrow> log_object" where
  "Message_log humanize m =
     [(str ''id'', LObj (MessageID_log (m_ID m))), (str ''node'', LInt (sint (Author (m_ID m)))),
      (str ''mime'', LStr (mime_String (m_MimeType m))), (str ''size'', LStr (humanize (m_ContentLength m))),
      (str ''hash'', LInt (uint (m_ContentHash m))), (str ''batch_id'', LInt (sint (m_BatchID m))),
      (str ''batch_total'', LInt (uint (m_BatchTotal m)))]"

definition Update_log :: "update \<Rightarrow> log_object" where
  "Update_log u =
     [(str ''length'', LInt (uint (u_Size u))), (str ''hash'', LInt (uint (u_Hash u))),
      (str ''mime'', LStr (mime_String (u_MimeType u))), (str ''batch_id'', LInt (uint (u_BatchID u))),
      (str ''batch_total'', LInt (uint (u_BatchTotal u)))]"

definition Options_log :: "options \<Rightarrow> log_object" where
  "Options_log opts =
     [(str ''public_port'', LInt (o_ListenPort opts)),
      (str ''keep_alive'', LStr (Duration_String (o_KeepAlive opts))),
      (str ''deadline'', LObj
        [(str ''read'', LStr (Duration_String (o_Read opts))), (str ''write'', LStr (Duration_String (o_Write opts)))]),
      (str ''metadata'', LObj
        [(str ''arch'', LStr (d_Arch (o_Metadata opts))), (str ''id'', LInt (sint (d_ID (o_Metadata opts)))),
         (str ''name'', LStr (d_Name (o_Metadata opts)))]),
      (str ''discovering'', LObj
        [(str ''enable'', LBool (o_Discover opts)), (str ''delay'', LStr (Duration_String (o_Delay opts))),
         (str ''max_peers'', LInt (o_DiscoverMaxPeers opts))]),
      (str ''has_secret'', LBool (o_Secret opts \<noteq> [])),
      (str ''max_peers'', LInt (o_MaxPeers opts)),
      (str ''clipboard_options'', LObj
        [(str ''allow_copy_files'', LBool (AllowCopyFiles (o_Clip opts))),
         (str ''max_clipboard_files'', LInt (MaxClipboardFiles (o_Clip opts))),
         (str ''max_file_size'', LInt (sint (MaxFileSize (o_Clip opts))))])]"

text \<open>Of a secret the log has only that there is one, and of a message neither its content nor its name.\<close>

lemma log_without_secret: "(s = []) = (o_Secret opts = []) \<Longrightarrow> Options_log (opts\<lparr>o_Secret := s\<rparr>) = Options_log opts"
  by (simp add: Options_log_def)

lemma log_without_content: "Message_log h (m\<lparr>m_Data := d, m_Name := nm\<rparr>) = Message_log h m"
  by (simp add: Message_log_def)

lemma duration_samples:
  "Duration_String 0 = str ''0s''" "Duration_String (-1500) = 45 # [49, 46, 53, 0xC2, 0xB5] @ str ''s''"
  "Duration_String 90000000000 = [49, 109, 51, 48] @ str ''s''"
  by (simp_all add: Duration_String_def Duration_abs_def fmtFrac_def nat_digits.simps Let_def)

end
