(* ===== verification/Utilities.thy ===== *)
theory Utilities
  imports Framing
begin

text \<open>
  The small packages: pointers (\<open>pkg/ptr\<close>), conversions between strings and bytes (\<open>pkg/strutil\<close>, which
  share their memory: as values both are the bytes), and the comparison of two pictures by their mean
  square error (\<open>pkg/mime/mse.go\<close>). Decoding a PNG is the library's; a colour's components are at most \<open>0xffff\<close>.
\<close>

section \<open>Pointers and conversions\<close>

definition ptr_Of :: "'a \<Rightarrow> 'a option" where
  "ptr_Of t = Some t"

definition ptr_ValueOr :: "'a option \<Rightarrow> 'a \<Rightarrow> 'a" where
  "ptr_ValueOr t dflt = (case t of None \<Rightarrow> dflt | Some v \<Rightarrow> v)"

definition BytesToString :: "byte list \<Rightarrow> gostring" where
  "BytesToString b = b"

definition StringToBytes :: "gostring \<Rightarrow> byte list" where
  "StringToBytes s = s"

lemma ptr_ValueOr_Of: "ptr_ValueOr (ptr_Of t) d = t"
  by (simp add: ptr_ValueOr_def ptr_Of_def)

section \<open>Mean square error\<close>

text \<open>A non-negative integer in a \<open>float64\<close>: 53 significant bits, halves to the even neighbour.\<close>

function excess_bits :: "int \<Rightarrow> nat" where
  "excess_bits n = (if n < 2 ^ 53 then 0 else Suc (excess_bits (n div 2)))"
  by auto
termination by (relation "measure nat") auto

declare excess_bits.simps [simp del]

definition to_float :: "int \<Rightarrow> int" where
  "to_float n =
     (let k = excess_bits n; q = n div 2 ^ k; r = n mod 2 ^ k
      in (if 2 ^ k < 2 * r \<or> (2 ^ k = 2 * r \<and> odd q) then q + 1 else q) * 2 ^ k)"

record picture =
  minX :: int
  minY :: int
  maxX :: int
  maxY :: int
  RGBA :: "int \<Rightarrow> int \<Rightarrow> u16 \<times> u16 \<times> u16 \<times> u16"

definition sq_diff :: "u16 \<Rightarrow> u16 \<Rightarrow> int" where
  "sq_diff a b = (uint a - uint b) * (uint a - uint b)"

fun pixel_error :: "u16 \<times> u16 \<times> u16 \<times> u16 \<Rightarrow> u16 \<times> u16 \<times> u16 \<times> u16 \<Rightarrow> int" where
  "pixel_error (r1, g1, b1, a1) (r2, g2, b2, a2) = sq_diff r1 r2 + sq_diff g1 g2 + sq_diff b1 b2 + sq_diff a1 a2"

text \<open>The quotient of two integers, or the largest number there is.\<close>

datatype mean_error = Mean int int | MaxFloat64

definition calculateMSE :: "picture \<Rightarrow> picture \<Rightarrow> mean_error" where
  "calculateMSE img1 img2 =
     (if (minX img1, minY img1, maxX img1, maxY img1) \<noteq> (minX img2, minY img2, maxX img2, maxY img2) then MaxFloat64
      else Mean
        (foldl (\<lambda>mse y. foldl (\<lambda>mse x. to_float (mse + pixel_error (RGBA img1 x y) (RGBA img2 x y))) mse
            [minX img1 .. maxX img1 - 1]) 0 [minY img1 .. maxY img1 - 1])
        ((maxX img1 - minX img1) * (maxY img1 - minY img1)))"

text \<open>
  The test \<open>mse < 1000\<close>. The division rounds to the nearest float; those next to 1000 are \<open>2 ^ -43\<close> below it,
  so a quotient of at least \<open>1000 - 2 ^ -44\<close> becomes 1000. Zero divided by zero is not below anything.
\<close>

definition below_threshold :: "mean_error \<Rightarrow> bool" where
  "below_threshold e =
     (case e of
        MaxFloat64 \<Rightarrow> False
      | Mean s n \<Rightarrow> if n \<le> 0 then False else s * 2 ^ 44 < (1000 * 2 ^ 44 - 1) * n)"

definition EqualMSE :: "gostring + picture \<Rightarrow> gostring + picture \<Rightarrow> gostring + bool" where
  "EqualMSE decoded1 decoded2 =
     (case decoded1 of
        Inl e \<Rightarrow> Inl e
      | Inr png1 \<Rightarrow> (case decoded2 of Inl e \<Rightarrow> Inl e | Inr png2 \<Rightarrow> Inr (below_threshold (calculateMSE png1 png2))))"

text \<open>A picture that is not empty equals itself, and the order does not matter.\<close>

lemma sq_diff_sym: "sq_diff a b = sq_diff b a"
  by (simp add: sq_diff_def algebra_simps)

lemma pixel_error_sym: "pixel_error p q = pixel_error q p"
  by (cases p; cases q) (simp add: sq_diff_sym)

lemma pixel_error_same [simp]: "pixel_error p p = 0"
  by (cases p) (simp add: sq_diff_def)

lemma to_float_exact: "n < 2 ^ 53 \<Longrightarrow> to_float n = n"
  by (simp add: to_float_def excess_bits.simps)

lemma foldl_fix: "f a = a \<Longrightarrow> foldl (\<lambda>s _. f s) a xs = a"
  by (induction xs) simp_all

lemma EqualMSE_same:
  assumes "minX p < maxX p" and "minY p < maxY p"
  shows "EqualMSE (Inr p) (Inr p) = Inr True"
proof -
  have "0 < (maxX p - minX p) * (maxY p - minY p)" using assms by simp
  then show ?thesis
    by (simp add: EqualMSE_def calculateMSE_def below_threshold_def to_float_exact foldl_fix)
qed

lemma EqualMSE_sym: "EqualMSE (Inr p) (Inr q) = EqualMSE (Inr q) (Inr p)"
proof -
  have "calculateMSE p q = calculateMSE q p"
    by (auto simp: calculateMSE_def pixel_error_sym [of "RGBA p _ _"])
  then show ?thesis by (simp add: EqualMSE_def)
qed

end
