(* ===== verification/Spec2Isabelle.thy ===== *)
theory Spec2Isabelle
  imports Ids Mime Metadata SyncMap Batch Channels Pool Protocol Eventful FileStore FileSync Turns Network Deadlines Wlr Program
    HostClipboards WinClipboard WinImage MacClipboard X11 Pipe Console PbGetters Reports Utilities
begin

text \<open>
  Belphegor, a clipboard synchroniser for the local network (Go). Every machine runs a node. A clipboard
  back end reports what the user copies as updates; the node turns an update into a message, keeps it,
  and announces it to the peers it is connected to; a peer that wants the content requests it, receives
  it on a stream of its own, and writes it to its own clipboard. The parts, from the inside out, with
  the theories that model them (file names below \<open>src/\<close>, test files and generated tables excepted):

  \<^bold>\<open>Library.\<close> \<open>Prelude\<close> (collections of facts, words, lists), \<open>GoLib\<close> (the functions of Go's \<open>strings\<close>,
  \<open>bytes\<close> and \<open>strconv\<close> that the code calls), \<open>Paths\<close> (\<open>path.Clean\<close>, \<open>Join\<close>, \<open>Dir\<close>, \<open>Base\<close>), \<open>Utf\<close>
  (\<open>unicode/utf8\<close>, \<open>unicode/utf16\<close>).

  \<^bold>\<open>Data.\<close> \<open>Ids\<close> (\<open>pkg/id\<close>), \<open>Mime\<close> (\<open>pkg/mime/mime.go\<close>), \<open>Metadata\<close> (\<open>internal/metadata\<close>), \<open>Domain\<close>
  (\<open>internal/types/domain\<close>): identifiers, content types, versions, messages and events as records.

  \<^bold>\<open>Storage.\<close> \<open>Fifo\<close> (\<open>internal/channel/history.go\<close>), \<open>Batch\<close> (\<open>batch.go\<close>), \<open>Channels\<close> (\<open>channel.go\<close>),
  \<open>SyncMap\<close> (\<open>pkg/storage\<close>), \<open>Pool\<close> (\<open>pkg/pool/byteslice\<close>), \<open>FileStore\<close> (\<open>internal/store\<close>). Each has its
  state as a record, one function per operation, an invariant that every operation keeps, and an
  interface as a locale (bounded history, map, pool) interpreted on the code's own operations.

  \<^bold>\<open>Wire format.\<close> \<open>Varint\<close>, \<open>Wire\<close>, \<open>PbMessages\<close>, \<open>PbHandshake\<close>, \<open>PbEvent\<close>, \<open>Decoding\<close>, \<open>Reference\<close>
  (\<open>internal/types/proto\<close>), \<open>Framing\<close> (\<open>pkg/protoutil\<close>), \<open>Protocol\<close> (\<open>internal/protocol\<close>): size,
  marshal and unmarshal of every message type with Go's wrap-around and panics, frames on a stream, and
  the mapping from and to domain events; \<open>PbGetters\<close> holds the accessors. Encoding then decoding gives the event back; decoding returns
  on every input.

  \<^bold>\<open>Nodes.\<close> \<open>Peer\<close> and \<open>Deadlines\<close> (\<open>internal/peer\<close>), \<open>Handshake\<close> and \<open>Node\<close> (\<open>internal/node\<close>), \<open>Security\<close>
  (\<open>internal/security\<close>), \<open>Transports\<close> (\<open>internal/transport\<close>), \<open>Discovery\<close> (\<open>internal/discovering\<close>,
  \<open>pkg/network\<close>), \<open>Options\<close> (\<open>internal/node/options.go\<close>, the flags of \<open>cmd/cli\<close>), \<open>Service\<close>
  (\<open>internal/service\<close>, \<open>internal/lock\<close>), \<open>Program\<close> (\<open>cmd/cli/main.go\<close>). A node is a record of its peers,
  its channel, its batches and its files; \<open>node_step\<close> is one event of its goroutines (a stream, an
  update, a message or announcement taken from the channel, a timer, a connection), \<open>node_run\<close> a sequence
  of them, in any order. \<open>Sync\<close> and \<open>FileSync\<close> compose two nodes: what is copied on one, a text, a picture or
  a selection of files, reaches the clipboard of the other; \<open>Turns\<close> is any sequence of such copies, from either
  side. \<open>Provenance\<close> follows a property of messages
  through everything a node holds, sends and stores, under any input; \<open>Network\<close> is the system of any number
  of nodes on a network that loses, cuts, repeats, reorders and misdelivers streams. \<open>Console\<close> (\<open>internal/console\<close>) is the tray icon.

  \<^bold>\<open>Clipboards.\<close> \<open>Uri\<close> (\<open>pkg/rfc8089\<close>) and \<open>Eventful\<close> (\<open>pkg/clipboard/eventful\<close>) are shared by the back
  ends: \<open>WlProtocol\<close> and \<open>Wlr\<close> (\<open>pkg/clipboard/wlr\<close>), \<open>X11\<close> (\<open>x11\<close>), \<open>WinClipboard\<close> and \<open>WinImage\<close>
  (\<open>windows\<close>), \<open>MacClipboard\<close> (\<open>mac\<close>), \<open>HostClipboards\<close> (\<open>null\<close>, \<open>android\<close>, \<open>wl_clipboard\<close>), \<open>Pipe\<close> (\<open>pkg/pipe\<close>).

  \<^bold>\<open>Conventions.\<close> A panic is \<open>None\<close>, an error a value of a sum or option type. Machine integers are words
  of their width; Go's \<open>int\<close> is \<open>int\<close> where it stays far from its bounds. What the operating system, the
  network and third-party libraries answer (a stream's bytes and how it ends, the file system, a
  dialled connection, the hash, the cryptography, the Wayland and X11 servers) is an argument of the
  operation or a field of a record of functions; where a property relies on documented behaviour of
  such a function it is a named hypothesis (\<open>helpers_ok\<close>, \<open>as_time_ok\<close>, \<open>crypto_ok\<close>, \<open>serves_property\<close>), with
  a witness. A lock makes an operation atomic; a goroutine is a step of its own.

  \<^bold>\<open>Bounds.\<close> Loops are structural or decrease a measure. Endless loops of the code (receiving, accepting,
  watching) run over the finite list of what they have met so far, and say when they have not returned.
  No fuel is used outside the decoders' loops, which run over at most the bytes they are given.

  \<^bold>\<open>Groups of lemmas.\<close> In each theory: first what the operations do on every branch, then the invariant,
  then under \<open>Properties\<close> the numbered properties, each with a witness when it has hypotheses. Properties
  that span components are in \<open>Sync\<close>, \<open>Turns\<close> and \<open>FileSync\<close> (copying end to end), \<open>Provenance\<close> and \<open>Network\<close> (where
  what is sent and pasted comes from), \<open>Node\<close> (runs, broadcasts, batches) and \<open>Program\<close> (the node started
  from a command line).

  \<^bold>\<open>Reports and helpers.\<close> \<open>Reports\<close> (\<open>internal/notification\<close>, \<open>pkg/ctxlog\<close> and the objects the code writes to
  its log), \<open>Utilities\<close> (\<open>pkg/ptr\<close>, \<open>pkg/strutil\<close>, \<open>pkg/mime/mse.go\<close>).

  \<^bold>\<open>Not modelled.\<close> The codecs of pictures, the Objective-C runtime, the calls that make windows, which are
  third-party or the system's; how notifications are shown and log lines are written, and the embedded icons; the
  reflection tables of the protocol buffers and the bookkeeping of the generated Wayland objects (listeners,
  deletion), which are glue over their libraries. In \<open>Peer\<close> deadlines appear only as the stream errors they
  cause; \<open>Deadlines\<close> says when they do.
\<close>

end
